(* ===== verification/Prelude.thy ===== *)
theory Prelude
  imports Main "HOL-Library.Word"
begin

text \<open>
  What every component of the development shares: machine integers and C strings as the
  wire and the database see them, little-endian codecs, \<open>std::map\<close> as an ordered association
  list, and the state-and-exception monad in which the stateful code is written, together with
  the rules by which an invariant is carried through that monad.
\<close>

named_theorems wire_simps \<open>lengths and field extraction of packed structs\<close>
named_theorems monad_simps \<open>unfolding the state-and-exception monad\<close>
named_theorems pres \<open>which computations preserve which predicate\<close>

section \<open>Machine integers and bytes\<close>

type_synonym byte = "8 word"
type_synonym u16 = "16 word"
type_synonym u32 = "32 word"
type_synonym u64 = "64 word"

lemma unat_lt: "unat (w :: 'a::len word) < 2 ^ LENGTH('a)"
  by (rule unsigned_less)

text \<open>Little-endian integers: the packed structs are sent as their memory image.\<close>

fun le_enc :: "nat \<Rightarrow> nat \<Rightarrow> byte list" where
  "le_enc 0 v = []"
| "le_enc (Suc n) v = of_nat (v mod 256) # le_enc n (v div 256)"

fun le_dec :: "byte list \<Rightarrow> nat" where
  "le_dec [] = 0"
| "le_dec (b # bs) = unat b + 256 * le_dec bs"

lemma length_le_enc [simp, wire_simps]: "length (le_enc n v) = n"
  by (induction n arbitrary: v) auto

lemma unat_byte_mod: "unat (of_nat (v mod 256) :: byte) = v mod 256"
  by (simp add: unat_of_nat)

lemma le_dec_enc: "le_dec (le_enc n v) = v mod 256 ^ n"
proof (induction n arbitrary: v)
  case (Suc n)
  have "v mod 256 + 256 * (v div 256 mod 256 ^ n) = v mod (256 * 256 ^ n)"
    by (simp add: mod_mult2_eq)
  with Suc show ?case by (simp add: unat_byte_mod)
qed simp

lemma le_enc_dec: "le_enc (length bs) (le_dec bs) = bs"
proof (induction bs)
  case (Cons b bs)
  have lt: "unat b < 256" using unat_lt [of b] by simp
  have "(unat b + 256 * le_dec bs) mod 256 = unat b"
    using lt by simp
  moreover have "(unat b + 256 * le_dec bs) div 256 = le_dec bs"
    using lt by simp
  ultimately show ?case using Cons by simp
qed simp

lemma le_dec_bound: "le_dec bs < 256 ^ length bs"
proof (induction bs)
  case (Cons b bs)
  have "unat b < 256" using unat_lt [of b] by simp
  moreover have "256 * le_dec bs + 256 \<le> 256 * 256 ^ length bs"
    using Cons by (metis Suc_leI add.commute mult_Suc_right mult_le_mono2)
  ultimately show ?case by simp
qed simp

definition enc_u16 :: "u16 \<Rightarrow> byte list" where "enc_u16 w = le_enc 2 (unat w)"
definition enc_u32 :: "u32 \<Rightarrow> byte list" where "enc_u32 w = le_enc 4 (unat w)"
definition enc_u64 :: "u64 \<Rightarrow> byte list" where "enc_u64 w = le_enc 8 (unat w)"
definition dec_u16 :: "byte list \<Rightarrow> u16" where "dec_u16 bs = of_nat (le_dec bs)"
definition dec_u32 :: "byte list \<Rightarrow> u32" where "dec_u32 bs = of_nat (le_dec bs)"
definition dec_u64 :: "byte list \<Rightarrow> u64" where "dec_u64 bs = of_nat (le_dec bs)"

lemma length_enc [simp, wire_simps]:
  "length (enc_u16 a) = 2" "length (enc_u32 b) = 4" "length (enc_u64 c) = 8"
  by (simp_all add: enc_u16_def enc_u32_def enc_u64_def)

lemma dec_enc_u16 [simp, wire_simps]: "dec_u16 (enc_u16 w) = w"
  using unat_lt [of w] by (simp add: enc_u16_def dec_u16_def le_dec_enc)

lemma dec_enc_u32 [simp, wire_simps]: "dec_u32 (enc_u32 w) = w"
  using unat_lt [of w] by (simp add: enc_u32_def dec_u32_def le_dec_enc)

lemma dec_enc_u64 [simp, wire_simps]: "dec_u64 (enc_u64 w) = w"
  using unat_lt [of w] by (simp add: enc_u64_def dec_u64_def le_dec_enc)

lemma enc_dec_u16: "length bs = 2 \<Longrightarrow> enc_u16 (dec_u16 bs) = bs"
  using le_dec_bound [of bs] le_enc_dec [of bs]
  by (simp add: enc_u16_def dec_u16_def unat_of_nat)

lemma enc_dec_u32: "length bs = 4 \<Longrightarrow> enc_u32 (dec_u32 bs) = bs"
  using le_dec_bound [of bs] le_enc_dec [of bs]
  by (simp add: enc_u32_def dec_u32_def unat_of_nat)

lemma enc_dec_u64: "length bs = 8 \<Longrightarrow> enc_u64 (dec_u64 bs) = bs"
  using le_dec_bound [of bs] le_enc_dec [of bs]
  by (simp add: enc_u64_def dec_u64_def unat_of_nat)

text \<open>A \<open>char\<close> is a byte: both directions, as \<open>reinterpret_cast\<close> has them.\<close>

definition byte_of :: "char \<Rightarrow> byte" where "byte_of c = of_nat (of_char c)"
definition char_of_byte :: "byte \<Rightarrow> char" where "char_of_byte b = char_of (unat b)"

lemma char_of_byte_of [simp]: "char_of_byte (byte_of c) = c"
proof -
  have "unat (of_nat (of_char c) :: byte) = (of_char c :: nat)"
    by (metis of_char_mod_256 unat_byte_mod)
  then show ?thesis by (simp add: byte_of_def char_of_byte_def)
qed

lemma byte_of_char_of_byte [simp]: "byte_of (char_of_byte b) = b"
  using unat_lt [of b] by (simp add: byte_of_def char_of_byte_def)

section \<open>Fields of a packed struct\<close>

definition sub :: "nat \<Rightarrow> nat \<Rightarrow> 'a list \<Rightarrow> 'a list" where
  "sub off n xs = take n (drop off xs)"

lemma length_sub [wire_simps]: "off + n \<le> length xs \<Longrightarrow> length (sub off n xs) = n"
  by (simp add: sub_def)

lemma sub_skip [wire_simps]:
  "length xs \<le> off \<Longrightarrow> sub off n (xs @ ys) = sub (off - length xs) n ys"
  by (simp add: sub_def)

lemma sub_here [wire_simps]: "length xs = n \<Longrightarrow> sub 0 n (xs @ ys) = xs"
  by (simp add: sub_def)

lemma sub_all [wire_simps]: "length xs = n \<Longrightarrow> sub 0 n xs = xs"
  by (simp add: sub_def)

lemma sub_inside: "off + n \<le> length xs \<Longrightarrow> sub off n (xs @ ys) = sub off n xs"
  by (simp add: sub_def)

lemma sub_split: "off \<le> length xs \<Longrightarrow> take off xs @ sub off n xs @ drop (off + n) xs = xs"
  by (metis append_take_drop_id drop_drop add.commute sub_def)

section \<open>C strings\<close>

type_synonym cstring = "char list"

definition NUL :: char where "NUL = CHR 0x00"

text \<open>\<open>strlen\<close> and the reading of a \<open>const char*\<close>: up to the first NUL.\<close>

definition c_str :: "char list \<Rightarrow> cstring" where
  "c_str buf = takeWhile (\<lambda>c. c \<noteq> NUL) buf"

definition strlen :: "char list \<Rightarrow> nat" where
  "strlen buf = length (c_str buf)"

lemma NUL_notin_c_str [simp]: "NUL \<notin> set (c_str buf)"
  by (auto simp: c_str_def dest: set_takeWhileD)

lemma c_str_id: "NUL \<notin> set s \<Longrightarrow> c_str s = s"
  unfolding c_str_def by (metis (mono_tags, lifting) takeWhile_eq_all_conv)

lemma c_str_c_str [simp]: "c_str (c_str s) = c_str s"
  by (rule c_str_id) simp

lemma c_str_append_NUL: "c_str (s @ NUL # t) = c_str s"
  by (induction s) (auto simp: c_str_def)

text \<open>\<open>std::isspace\<close> in the C locale.\<close>

definition isspace :: "char \<Rightarrow> bool" where
  "isspace c \<longleftrightarrow> c \<in> {CHR '' '', CHR 0x09, CHR 0x0A, CHR 0x0B, CHR 0x0C, CHR 0x0D}"

text \<open>Removing leading and trailing characters, the shape of every trim loop in the sources.\<close>

definition strip :: "(char \<Rightarrow> bool) \<Rightarrow> cstring \<Rightarrow> cstring" where
  "strip p s = rev (dropWhile p (rev (dropWhile p s)))"

lemma dropWhile_ends: "xs \<noteq> [] \<Longrightarrow> \<not> p (hd xs) \<Longrightarrow> dropWhile p xs = xs"
  by (cases xs) auto

lemma hd_dropWhile_rev:
  assumes "strip p s \<noteq> []"
  shows "\<not> p (hd (strip p s))" and "\<not> p (last (strip p s))"
proof -
  let ?d = "dropWhile p s"
  have ne: "dropWhile p (rev ?d) \<noteq> []" using assms by (simp add: strip_def)
  then show "\<not> p (last (strip p s))"
    by (simp add: strip_def last_rev hd_dropWhile)
  have "?d \<noteq> []" using ne by (metis dropWhile.simps(1) rev.simps(1))
  then have hd: "\<not> p (hd ?d)" by (rule hd_dropWhile)
  have "\<exists>zs. ?d = strip p s @ zs"
    unfolding strip_def
    by (metis rev_append rev_rev_ident takeWhile_dropWhile_id)
  then show "\<not> p (hd (strip p s))" using hd assms by auto
qed

lemma strip_strip [simp]: "strip p (strip p s) = strip p s"
proof (cases "strip p s = []")
  case True
  then show ?thesis by (simp only:) (simp add: strip_def)
next
  case False
  note e = hd_dropWhile_rev [OF False]
  have "dropWhile p (strip p s) = strip p s" using False e(1) by (rule dropWhile_ends)
  moreover have "dropWhile p (rev (strip p s)) = rev (strip p s)"
    using False e(2) by (intro dropWhile_ends) (auto simp: hd_rev)
  ultimately show ?thesis by (simp add: strip_def [of p "strip p s"])
qed

lemma strip_id:
  assumes "s = [] \<or> (\<not> p (hd s) \<and> \<not> p (last s))"
  shows "strip p s = s"
proof (cases "s = []")
  case False
  then have "dropWhile p s = s" using assms by (intro dropWhile_ends) auto
  moreover have "dropWhile p (rev s) = rev s"
    using False assms by (intro dropWhile_ends) (auto simp: hd_rev)
  ultimately show ?thesis by (simp add: strip_def)
qed (simp add: strip_def)

lemma set_strip: "set (strip p s) \<subseteq> set s"
  by (auto simp: strip_def dest!: set_dropWhileD)

text \<open>\<open>std::to_string\<close> of an unsigned number.\<close>

fun to_string :: "nat \<Rightarrow> cstring" where
  "to_string n = (if n < 10 then [char_of (48 + n)] else to_string (n div 10) @ [char_of (48 + n mod 10)])"

declare to_string.simps [simp del]

section \<open>\<open>std::map\<close>: an association list ordered by key\<close>

fun omap_put :: "'k::linorder \<Rightarrow> 'v \<Rightarrow> ('k \<times> 'v) list \<Rightarrow> ('k \<times> 'v) list" where
  "omap_put k v [] = [(k, v)]"
| "omap_put k v ((k', v') # m) =
     (if k = k' then (k, v) # m
      else if k < k' then (k, v) # (k', v') # m
      else (k', v') # omap_put k v m)"

definition omap_erase :: "'k \<Rightarrow> ('k \<times> 'v) list \<Rightarrow> ('k \<times> 'v) list" where
  "omap_erase k m = filter (\<lambda>e. fst e \<noteq> k) m"

definition omap_ok :: "('k::linorder \<times> 'v) list \<Rightarrow> bool" where
  "omap_ok m \<longleftrightarrow> sorted_wrt (<) (map fst m)"

lemma set_omap_put: "set (map fst (omap_put k v m)) = insert k (set (map fst m))"
  by (induction k v m rule: omap_put.induct) auto

lemma omap_ok_put [intro]: "omap_ok m \<Longrightarrow> omap_ok (omap_put k v m)"
proof (induction m)
  case (Cons e m)
  obtain k' v' where e: "e = (k', v')" by force
  from Cons e show ?case
    using set_omap_put [of k v m] by (auto simp: omap_ok_def simp del: set_map)
qed (simp add: omap_ok_def)

lemma omap_ok_erase [intro]: "omap_ok m \<Longrightarrow> omap_ok (omap_erase k m)"
proof (induction m)
  case (Cons e m)
  then show ?case by (auto simp: omap_ok_def omap_erase_def)
qed (simp add: omap_ok_def omap_erase_def)

lemma omap_ok_distinct: "omap_ok m \<Longrightarrow> distinct (map fst m)"
  unfolding omap_ok_def using strict_sorted_imp_sorted strict_sorted_iff by blast

lemma map_of_omap_put: "omap_ok m \<Longrightarrow> map_of (omap_put k v m) = (map_of m)(k \<mapsto> v)"
proof (induction m)
  case (Cons e m)
  obtain k' v' where e: "e = (k', v')" by force
  from Cons.prems e have ok: "omap_ok m" by (simp add: omap_ok_def)
  from Cons.prems e have lt: "\<forall>x\<in>fst ` set m. k' < x" by (auto simp: omap_ok_def)
  show ?case using Cons.IH [OF ok] e lt by (auto simp: fun_eq_iff)
qed simp

lemma map_of_omap_erase: "map_of (omap_erase k m) = (map_of m)(k := None)"
  by (induction m) (auto simp: omap_erase_def fun_eq_iff)

section \<open>Searching lists\<close>

lemma find_SomeD: "List.find P xs = Some x \<Longrightarrow> x \<in> set xs \<and> P x"
  by (induction xs) (auto split: if_splits)

lemma find_append:
  "List.find P (xs @ ys) = (case List.find P xs of None \<Rightarrow> List.find P ys | Some x \<Rightarrow> Some x)"
  by (induction xs) auto

lemma find_only:
  assumes "distinct (map f xs)" and "x \<in> set xs"
  shows "List.find (\<lambda>y. f y = f x) xs = Some x"
  using assms by (induction xs) (auto simp: image_iff)

lemma count_list_distinct: "distinct xs \<Longrightarrow> count_list xs x = (if x \<in> set xs then 1 else 0)"
  by (induction xs) auto

end
