(* ===== verification/Effects.thy ===== *)
theory Effects
  imports Prelude
begin

text \<open>
  The state-and-exception monad. A computation takes the state and returns either the value
  (\<open>Inr\<close>) or the exception in flight (\<open>Inl\<close>), with the state reached: as in C++, what was done
  before a \<open>throw\<close> stays done. \<open>preserves\<close> and \<open>readonly\<close> carry invariants through it.
\<close>

type_synonym ('s, 'e, 'a) sem = "'s \<Rightarrow> ('e + 'a) \<times> 's"

definition ret :: "'a \<Rightarrow> ('s, 'e, 'a) sem" where
  "ret x s = (Inr x, s)"

definition throw :: "'e \<Rightarrow> ('s, 'e, 'a) sem" where
  "throw e s = (Inl e, s)"

definition bindM :: "('s, 'e, 'a) sem \<Rightarrow> ('a \<Rightarrow> ('s, 'e, 'b) sem) \<Rightarrow> ('s, 'e, 'b) sem" where
  "bindM m f s = (case m s of (Inl e, s') \<Rightarrow> (Inl e, s') | (Inr x, s') \<Rightarrow> f x s')"

definition thenM :: "('s, 'e, 'a) sem \<Rightarrow> ('s, 'e, 'b) sem \<Rightarrow> ('s, 'e, 'b) sem" where
  "thenM m n = bindM m (\<lambda>_. n)"

definition getsM :: "('s \<Rightarrow> 'a) \<Rightarrow> ('s, 'e, 'a) sem" where
  "getsM f s = (Inr (f s), s)"

definition modifyM :: "('s \<Rightarrow> 's) \<Rightarrow> ('s, 'e, unit) sem" where
  "modifyM f s = (Inr (), f s)"

definition tryM :: "('s, 'e, 'a) sem \<Rightarrow> ('e \<Rightarrow> ('s, 'e, 'a) sem) \<Rightarrow> ('s, 'e, 'a) sem" where
  "tryM m h s = (case m s of (Inl e, s') \<Rightarrow> h e s' | (Inr x, s') \<Rightarrow> (Inr x, s'))"

primrec forEach :: "('a \<Rightarrow> ('s, 'e, unit) sem) \<Rightarrow> 'a list \<Rightarrow> ('s, 'e, unit) sem" where
  "forEach f [] = ret ()"
| "forEach f (x # xs) = thenM (f x) (forEach f xs)"

lemmas monad_defs = ret_def throw_def bindM_def thenM_def getsM_def modifyM_def tryM_def

lemma bindM_ret [monad_simps]: "bindM (ret x) f = f x"
  by (simp add: fun_eq_iff monad_defs)

lemma bindM_throw [monad_simps]: "bindM (throw e) f = throw e"
  by (simp add: fun_eq_iff monad_defs)

lemma bindM_assoc: "bindM (bindM m f) g = bindM m (\<lambda>x. bindM (f x) g)"
  by (simp add: fun_eq_iff monad_defs split: prod.splits sum.splits)

lemma thenM_assoc: "thenM m (thenM n k) = thenM (thenM m n) k"
  by (simp add: thenM_def bindM_assoc)

lemma run_simps [monad_simps]:
  "ret x s = (Inr x, s)" "throw e s = (Inl e, s)" "getsM h s = (Inr (h s), s)"
  "modifyM u s = (Inr (), u s)"
  by (simp_all add: monad_defs)

lemma bindM_run [monad_simps]:
  "m s = (Inr x, s') \<Longrightarrow> bindM m f s = f x s'"
  "m s = (Inl e, s') \<Longrightarrow> bindM m f s = (Inl e, s')"
  by (simp_all add: bindM_def)

lemma thenM_run [monad_simps]:
  "m s = (Inr x, s') \<Longrightarrow> thenM m n s = n s'"
  "m s = (Inl e, s') \<Longrightarrow> thenM m n s = (Inl e, s')"
  by (simp_all add: thenM_def bindM_def)

lemma tryM_run [monad_simps]:
  "m s = (Inr x, s') \<Longrightarrow> tryM m h s = (Inr x, s')"
  "m s = (Inl e, s') \<Longrightarrow> tryM m h s = h e s'"
  by (simp_all add: tryM_def)

section \<open>Preservation\<close>

definition preserves :: "('s \<Rightarrow> bool) \<Rightarrow> ('s, 'e, 'a) sem \<Rightarrow> bool" where
  "preserves I m \<longleftrightarrow> (\<forall>s. I s \<longrightarrow> I (snd (m s)))"

definition readonly :: "('s, 'e, 'a) sem \<Rightarrow> bool" where
  "readonly m \<longleftrightarrow> (\<forall>s. snd (m s) = s)"

lemma preservesD: "preserves I m \<Longrightarrow> I s \<Longrightarrow> I (snd (m s))"
  by (simp add: preserves_def)

lemma preservesI: "(\<And>s. I s \<Longrightarrow> I (snd (m s))) \<Longrightarrow> preserves I m"
  by (simp add: preserves_def)

lemma preserves_ret [pres]: "preserves I (ret x)"
  by (simp add: preserves_def monad_defs)

lemma preserves_throw [pres]: "preserves I (throw e)"
  by (simp add: preserves_def monad_defs)

lemma preserves_getsM [pres]: "preserves I (getsM f)"
  by (simp add: preserves_def monad_defs)

lemma preserves_modifyM: "(\<And>s. I s \<Longrightarrow> I (f s)) \<Longrightarrow> preserves I (modifyM f)"
  by (simp add: preserves_def monad_defs)

lemma preserves_bindM [pres]:
  "preserves I m \<Longrightarrow> (\<And>x. preserves I (f x)) \<Longrightarrow> preserves I (bindM m f)"
  by (fastforce simp: preserves_def bindM_def split: prod.splits sum.splits)

lemma preserves_thenM [pres]:
  "preserves I m \<Longrightarrow> preserves I n \<Longrightarrow> preserves I (thenM m n)"
  by (simp add: thenM_def preserves_bindM)

lemma preserves_tryM [pres]:
  "preserves I m \<Longrightarrow> (\<And>e. preserves I (h e)) \<Longrightarrow> preserves I (tryM m h)"
  by (fastforce simp: preserves_def tryM_def split: prod.splits sum.splits)

lemma preserves_forEach [pres]: "(\<And>x. preserves I (f x)) \<Longrightarrow> preserves I (forEach f xs)"
  by (induction xs) (auto intro: pres)

lemma preserves_if [pres]:
  "(b \<Longrightarrow> preserves I m) \<Longrightarrow> (\<not> b \<Longrightarrow> preserves I n) \<Longrightarrow> preserves I (if b then m else n)"
  by simp

lemma preserves_option [pres]:
  "(x = None \<Longrightarrow> preserves I m) \<Longrightarrow> (\<And>y. x = Some y \<Longrightarrow> preserves I (f y)) \<Longrightarrow>
   preserves I (case x of None \<Rightarrow> m | Some y \<Rightarrow> f y)"
  by (cases x) auto

lemma preserves_sum [pres]:
  "(\<And>e. x = Inl e \<Longrightarrow> preserves I (f e)) \<Longrightarrow> (\<And>y. x = Inr y \<Longrightarrow> preserves I (g y)) \<Longrightarrow>
   preserves I (case x of Inl e \<Rightarrow> f e | Inr y \<Rightarrow> g y)"
  by (cases x) auto

lemma preserves_let [pres]: "preserves I (f x) \<Longrightarrow> preserves I (let y = x in f y)"
  by simp

lemma readonly_run: "readonly m \<Longrightarrow> m s = (fst (m s), s)"
  by (metis prod.collapse readonly_def)

lemma readonly_preserves: "readonly m \<Longrightarrow> preserves I m"
  by (simp add: readonly_def preserves_def)

lemma readonly_getsM: "readonly (getsM f)" and readonly_ret: "readonly (ret x)"
  and readonly_throw: "readonly (throw e)"
  by (simp_all add: readonly_def monad_defs)

lemma readonly_bindM: "readonly m \<Longrightarrow> (\<And>x. readonly (f x)) \<Longrightarrow> readonly (bindM m f)"
  by (simp add: readonly_def bindM_def split: prod.splits sum.splits) (metis snd_conv)

text \<open>Weakest-precondition style reasoning where the value returned matters.\<close>

definition triple ::
    "('s \<Rightarrow> bool) \<Rightarrow> ('s, 'e, 'a) sem \<Rightarrow> ('a \<Rightarrow> 's \<Rightarrow> bool) \<Rightarrow> ('e \<Rightarrow> 's \<Rightarrow> bool) \<Rightarrow> bool" where
  "triple P m Q E \<longleftrightarrow>
     (\<forall>s. P s \<longrightarrow> (case m s of (Inl e, s') \<Rightarrow> E e s' | (Inr x, s') \<Rightarrow> Q x s'))"

lemma triple_bindM:
  "triple P m R E \<Longrightarrow> (\<And>x. triple (R x) (f x) Q E) \<Longrightarrow> triple P (bindM m f) Q E"
  by (fastforce simp: triple_def bindM_def split: prod.splits sum.splits)

lemma triple_conseq:
  "triple P' m Q' E' \<Longrightarrow> (\<And>s. P s \<Longrightarrow> P' s) \<Longrightarrow> (\<And>x s. Q' x s \<Longrightarrow> Q x s) \<Longrightarrow>
   (\<And>e s. E' e s \<Longrightarrow> E e s) \<Longrightarrow> triple P m Q E"
  by (fastforce simp: triple_def split: prod.splits sum.splits)

lemma tripleD:
  "triple P m Q E \<Longrightarrow> P s \<Longrightarrow> m s = (Inr x, s') \<Longrightarrow> Q x s'"
  "triple P m Q E \<Longrightarrow> P s \<Longrightarrow> m s = (Inl e, s') \<Longrightarrow> E e s'"
  by (force simp: triple_def)+

lemma preserves_triple: "preserves I m \<longleftrightarrow> triple I m (\<lambda>_. I) (\<lambda>_. I)"
  by (simp add: preserves_def triple_def split: prod.splits sum.splits)
    (metis obj_sumE prod.collapse snd_conv)

section \<open>Frames\<close>

text \<open>\<open>keeps f m\<close>: whatever \<open>m\<close> does, it leaves the part \<open>f\<close> of the state alone.\<close>

definition keeps :: "('s \<Rightarrow> 'b) \<Rightarrow> ('s, 'e, 'a) sem \<Rightarrow> bool" where
  "keeps f m \<longleftrightarrow> (\<forall>s. f (snd (m s)) = f s)"

named_theorems frames \<open>which computations keep which part of the state\<close>

lemma keepsD: "keeps f m \<Longrightarrow> f (snd (m s)) = f s"
  by (simp add: keeps_def)

lemma keeps_basic [frames]: "keeps f (ret x)" "keeps f (throw e)" "keeps f (getsM h)"
  by (simp_all add: keeps_def monad_defs)

lemma keeps_bindM [frames]: "keeps f m \<Longrightarrow> (\<And>x. keeps f (k x)) \<Longrightarrow> keeps f (bindM m k)"
  unfolding keeps_def bindM_def by (auto split: prod.splits sum.splits) (metis snd_conv)+

lemma keeps_thenM [frames]: "keeps f m \<Longrightarrow> keeps f n \<Longrightarrow> keeps f (thenM m n)"
  by (simp add: thenM_def keeps_bindM)

lemma keeps_tryM [frames]: "keeps f m \<Longrightarrow> (\<And>e. keeps f (h e)) \<Longrightarrow> keeps f (tryM m h)"
  unfolding keeps_def tryM_def by (auto split: prod.splits sum.splits) (metis snd_conv)+

lemma keeps_forEach [frames]: "(\<And>x. keeps f (k x)) \<Longrightarrow> keeps f (forEach k xs)"
  by (induction xs) (auto intro: frames)

lemma keeps_cases [frames]:
  "(b \<Longrightarrow> keeps f m) \<Longrightarrow> (\<not> b \<Longrightarrow> keeps f n) \<Longrightarrow> keeps f (if b then m else n)"
  "(x = None \<Longrightarrow> keeps f m) \<Longrightarrow> (\<And>y. x = Some y \<Longrightarrow> keeps f (k y)) \<Longrightarrow>
   keeps f (case x of None \<Rightarrow> m | Some y \<Rightarrow> k y)"
  by (auto split: option.splits)

lemma keeps_preserves: "keeps f m \<Longrightarrow> preserves (\<lambda>s. P (f s)) m"
  by (simp add: keeps_def preserves_def)

lemma keeps_modifyM: "(\<And>s. f (u s) = f s) \<Longrightarrow> keeps f (modifyM u)"
  by (simp add: keeps_def modifyM_def)

lemma readonly_keeps: "readonly m \<Longrightarrow> keeps f m"
  by (simp add: readonly_def keeps_def)

end
