(* ===== verification/Models.thy ===== *)
theory Models
  imports Effects
begin

text \<open>
  The wire model shared by client and server (\<open>TeleCrap.Shared/include/telecrap/Models.ixx\<close>,
  \<open>Update.ixx\<close>), the exceptions of \<open>Protocol.ixx\<close> and the server-side records of
  \<open>TeleCrap.Server/include/ChatHistory.h\<close>. A \<open>fixed_string\<close> is its whole buffer, stale bytes
  after the terminator included, because the structs are sent as memory images.
\<close>

section \<open>Constants and identifiers\<close>

type_synonym version_t = u16
type_synonym connflag_t = u16
type_synonym port_t = u16
type_synonym token_t = u32
type_synonym userid_t = u32
type_synonym chatid_t = u32
type_synonym msgid_t = u64
type_synonym timestamp_t = u64
type_synonym ErrorCode = u32

definition TELECRAP_VERSION :: version_t where "TELECRAP_VERSION = 6"
definition SYSTEM_FROMID :: u32 where "SYSTEM_FROMID = 1"
definition CHATNAME_MAXLENGTH :: nat where "CHATNAME_MAXLENGTH = 64"
definition PASSWORD_MAXLENGTH :: nat where "PASSWORD_MAXLENGTH = 32"
definition MESSAGETEXT_MAXLENGTH :: nat where "MESSAGETEXT_MAXLENGTH = 512"
definition ERRORMESSAGE_MAXLENGTH :: nat where "ERRORMESSAGE_MAXLENGTH = 512"

lemmas maxlength_defs =
  CHATNAME_MAXLENGTH_def PASSWORD_MAXLENGTH_def MESSAGETEXT_MAXLENGTH_def ERRORMESSAGE_MAXLENGTH_def

text \<open>The enumerators of \<open>ErrorCode\<close> the modelled code returns or compares with.\<close>

definition EC_OK :: ErrorCode where "EC_OK = 0"
definition EC_SOCKET_ERROR :: ErrorCode where "EC_SOCKET_ERROR = - 1"
definition EC_FAULT :: ErrorCode where "EC_FAULT = 10014"
definition EC_CONNABORTED :: ErrorCode where "EC_CONNABORTED = 10053"
definition EC_CONNRESET :: ErrorCode where "EC_CONNRESET = 10054"

text \<open>An enumeration with a fixed underlying type holds any value of that type.\<close>

type_synonym ChatType = byte

definition ChatType_Group :: ChatType where "ChatType_Group = 0"
definition ChatType_Direct :: ChatType where "ChatType_Direct = 1"

section \<open>\<open>fixed_string\<close>\<close>

type_synonym fixed_string = "char list"

definition fs_default :: "nat \<Rightarrow> fixed_string" where
  "fs_default Capacity = replicate (Suc Capacity) NUL"

definition fs_assign :: "nat \<Rightarrow> fixed_string \<Rightarrow> cstring \<Rightarrow> fixed_string" where
  "fs_assign Capacity buffer view =
     (let copy_size = (if Capacity < length view then Capacity else length view)
      in take copy_size view @ NUL # drop (Suc copy_size) buffer)"

definition fs_of :: "nat \<Rightarrow> cstring \<Rightarrow> fixed_string" where
  "fs_of Capacity view = fs_assign Capacity (fs_default Capacity) view"

definition fs_capacity :: "nat \<Rightarrow> nat" where
  "fs_capacity Capacity = Capacity"

definition fs_size :: "fixed_string \<Rightarrow> nat" where
  "fs_size buffer = strlen buffer"

definition fs_empty :: "fixed_string \<Rightarrow> bool" where
  "fs_empty buffer \<longleftrightarrow> buffer ! 0 = NUL"

definition fs_eq :: "fixed_string \<Rightarrow> fixed_string \<Rightarrow> bool" where
  "fs_eq lhs rhs \<longleftrightarrow> c_str lhs = c_str rhs"

definition fs_view :: "fixed_string \<Rightarrow> cstring" where
  "fs_view buffer = take (fs_size buffer) buffer"

text \<open>The buffer of a \<open>fixed_string<Capacity>\<close>; terminated, when a NUL is in it.\<close>

definition fs_wf :: "nat \<Rightarrow> fixed_string \<Rightarrow> bool" where
  "fs_wf Capacity buffer \<longleftrightarrow> length buffer = Suc Capacity"

definition fs_terminated :: "fixed_string \<Rightarrow> bool" where
  "fs_terminated buffer \<longleftrightarrow> NUL \<in> set buffer"

lemma fs_wf_default [simp]: "fs_wf n (fs_default n)"
  by (simp add: fs_wf_def fs_default_def)

lemma fs_wf_assign [simp]: "fs_wf n buf \<Longrightarrow> fs_wf n (fs_assign n buf view)"
  by (auto simp: fs_wf_def fs_assign_def Let_def)

lemma fs_wf_of [simp]: "fs_wf n (fs_of n view)"
  by (simp add: fs_of_def)

lemma fs_terminated_assign [simp]: "fs_terminated (fs_assign n buf view)"
  by (simp add: fs_terminated_def fs_assign_def Let_def)

lemma c_str_fs_assign: "c_str (fs_assign n buf view) = c_str (take n view)"
  by (auto simp: fs_assign_def Let_def c_str_append_NUL)

lemma c_str_fs_of [simp]: "c_str (fs_of n view) = c_str (take n view)"
  by (simp add: fs_of_def c_str_fs_assign)

lemma fs_view_c_str: "fs_view buf = c_str buf"
proof -
  have "take (length (takeWhile P buf)) buf = takeWhile P buf" for P :: "char \<Rightarrow> bool"
    by (metis append_eq_conv_conj takeWhile_dropWhile_id)
  then show ?thesis by (simp add: fs_view_def fs_size_def strlen_def c_str_def)
qed

lemma fs_size_bound: "fs_wf n buf \<Longrightarrow> fs_terminated buf \<Longrightarrow> fs_size buf \<le> n"
proof -
  assume wf: "fs_wf n buf" and t: "fs_terminated buf"
  obtain a b where ab: "buf = a @ NUL # b"
    using t split_list unfolding fs_terminated_def by metis
  have "c_str buf = c_str a" unfolding ab by (rule c_str_append_NUL)
  moreover have "length (c_str a) \<le> length a"
    unfolding c_str_def by (rule length_takeWhile_le)
  ultimately show ?thesis using wf ab by (simp add: fs_size_def strlen_def fs_wf_def)
qed

lemma fs_empty_iff: "fs_wf n buf \<Longrightarrow> fs_empty buf \<longleftrightarrow> c_str buf = []"
  by (cases buf) (auto simp: fs_wf_def fs_empty_def c_str_def)

lemma c_str_take_le: "length (c_str (take n s)) \<le> n"
  unfolding c_str_def by (metis length_takeWhile_le length_take min.boundedE)

lemma c_str_take_id: "NUL \<notin> set s \<Longrightarrow> length s \<le> n \<Longrightarrow> c_str (take n s) = s"
  by (simp add: c_str_id)

lemma c_str_fs_of_id: "NUL \<notin> set x \<Longrightarrow> length x \<le> n \<Longrightarrow> c_str (fs_of n x) = x"
  by (simp add: c_str_id)

lemma take_c_str_buf: "fs_wf n buf \<Longrightarrow> fs_terminated buf \<Longrightarrow> c_str (take n (c_str buf)) = c_str buf"
  using fs_size_bound [of n buf] by (intro c_str_take_id) (auto simp: fs_size_def strlen_def)

section \<open>Chat, user, message\<close>

record Chat =
  chat_Id :: chatid_t
  chat_Name :: fixed_string
  chat_Type :: ChatType

record User =
  user_Id :: userid_t
  user_Name :: fixed_string

record Message =
  msg_Id :: msgid_t
  msg_DestChat :: Chat
  msg_From :: User
  msg_Timestamp :: timestamp_t
  msg_Text :: fixed_string

text \<open>The default member initialisers.\<close>

definition Chat_default :: Chat where
  "Chat_default = \<lparr>chat_Id = 0, chat_Name = fs_default CHATNAME_MAXLENGTH, chat_Type = ChatType_Group\<rparr>"

definition User_default :: User where
  "User_default = \<lparr>user_Id = 0, user_Name = fs_default CHATNAME_MAXLENGTH\<rparr>"

definition Message_default :: Message where
  "Message_default = \<lparr>msg_Id = 0, msg_DestChat = Chat_default, msg_From = User_default,
     msg_Timestamp = 0, msg_Text = fs_default MESSAGETEXT_MAXLENGTH\<rparr>"

definition Chat_wf :: "Chat \<Rightarrow> bool" where
  "Chat_wf c \<longleftrightarrow> fs_wf CHATNAME_MAXLENGTH (chat_Name c)"

definition User_wf :: "User \<Rightarrow> bool" where
  "User_wf u \<longleftrightarrow> fs_wf CHATNAME_MAXLENGTH (user_Name u)"

definition Message_wf :: "Message \<Rightarrow> bool" where
  "Message_wf m \<longleftrightarrow> Chat_wf (msg_DestChat m) \<and> User_wf (msg_From m) \<and>
     fs_wf MESSAGETEXT_MAXLENGTH (msg_Text m)"

section \<open>Updates\<close>

record ChatMemberEvent =
  ev_ChatModel :: Chat
  ev_TargetUser :: User

text \<open>The tagged union of \<open>Update\<close>; a tag no enumerator has keeps its raw union.\<close>

datatype UpdateBody =
    MessageSent Message
  | UserJoined Chat User
  | UserKicked ChatMemberEvent
  | UserBanned ChatMemberEvent
  | UserUnbanned ChatMemberEvent
  | ChatRenamed Chat
  | UpdateOther u32 "byte list"

record Update =
  upd_Id :: u32
  upd_body :: UpdateBody

section \<open>Exceptions\<close>

text \<open>
  \<open>disconnected_error\<close>, \<open>connection_refused_error\<close>, \<open>request_error\<close> and \<open>SQLite::Exception\<close>
  derive from \<open>std::runtime_error\<close>; what \<open>std::stoul\<close> throws derives from \<open>std::logic_error\<close>.
  A \<open>request_error\<close> carries the text its base class was built with, its message and its code.
  \<open>undefined_behaviour\<close> is no exception: it marks a point where the C++ abstract machine gives no
  meaning to the program (an empty \<open>optional\<close> dereferenced, an index out of range), so that its
  absence can be stated.
\<close>

datatype exn =
    disconnected_error
  | connection_refused_error
  | request_error cstring fixed_string ErrorCode
  | sqlite_error cstring
  | runtime_error cstring
  | invalid_argument
  | out_of_range
  | unknown_exception
  | undefined_behaviour

fun is_runtime_error :: "exn \<Rightarrow> bool" where
  "is_runtime_error invalid_argument = False"
| "is_runtime_error out_of_range = False"
| "is_runtime_error unknown_exception = False"
| "is_runtime_error undefined_behaviour = False"
| "is_runtime_error _ = True"

fun exn_what :: "exn \<Rightarrow> cstring" where
  "exn_what disconnected_error = ''Connection was closed by remote host''"
| "exn_what connection_refused_error = ''Connection was refused by remote host''"
| "exn_what (request_error w _ _) = w"
| "exn_what (sqlite_error w) = w"
| "exn_what (runtime_error w) = w"
| "exn_what invalid_argument = ''stoul''"
| "exn_what out_of_range = ''stoul''"
| "exn_what unknown_exception = []"
| "exn_what undefined_behaviour = []"

fun exn_which :: "exn \<Rightarrow> ErrorCode option" where
  "exn_which (request_error _ _ c) = Some c"
| "exn_which _ = None"

section \<open>No undefined behaviour\<close>

text \<open>
  \<open>noUB m\<close>: \<open>m\<close> never runs into undefined behaviour; \<open>safe I m\<close>: not from a state that satisfies
  \<open>I\<close>, and \<open>I\<close> holds afterwards.
\<close>

named_theorems noub \<open>computations without undefined behaviour\<close>
named_theorems safes \<open>computations without undefined behaviour under an invariant\<close>

definition noUB :: "('s, exn, 'a) sem \<Rightarrow> bool" where
  "noUB m \<longleftrightarrow> (\<forall>s. fst (m s) \<noteq> Inl undefined_behaviour)"

definition safe :: "('s \<Rightarrow> bool) \<Rightarrow> ('s, exn, 'a) sem \<Rightarrow> bool" where
  "safe I m \<longleftrightarrow> (\<forall>s. I s \<longrightarrow> I (snd (m s)) \<and> fst (m s) \<noteq> Inl undefined_behaviour)"

lemma noUB_basic [noub]: "noUB (ret x)" "noUB (getsM f)" "noUB (modifyM g)"
  "e \<noteq> undefined_behaviour \<Longrightarrow> noUB (throw e)"
  by (simp_all add: noUB_def monad_defs)

lemma noUB_bindM [noub]: "noUB m \<Longrightarrow> (\<And>x. noUB (f x)) \<Longrightarrow> noUB (bindM m f)"
  unfolding noUB_def bindM_def by (auto split: prod.splits sum.splits) (metis fst_conv)+

lemma noUB_thenM [noub]: "noUB m \<Longrightarrow> noUB n \<Longrightarrow> noUB (thenM m n)"
  by (simp add: thenM_def noUB_bindM)

lemma noUB_cases [noub]:
  "(b \<Longrightarrow> noUB m) \<Longrightarrow> (\<not> b \<Longrightarrow> noUB n) \<Longrightarrow> noUB (if b then m else n)"
  "(x = None \<Longrightarrow> noUB m) \<Longrightarrow> (\<And>y. x = Some y \<Longrightarrow> noUB (f y)) \<Longrightarrow> noUB (case x of None \<Rightarrow> m | Some y \<Rightarrow> f y)"
  by (auto split: option.splits)

lemma noUB_forEach [noub]: "(\<And>x. noUB (f x)) \<Longrightarrow> noUB (forEach f xs)"
  by (induction xs) (auto intro: noub)

lemma safe_leaf: "preserves I m \<Longrightarrow> noUB m \<Longrightarrow> safe I m"
  by (simp add: safe_def preserves_def noUB_def)

lemma safe_preserves: "safe I m \<Longrightarrow> preserves I m"
  by (simp add: safe_def preserves_def)

lemma safe_basic [safes]: "safe I (ret x)" "safe I (getsM f)"
  "e \<noteq> undefined_behaviour \<Longrightarrow> safe I (throw e)"
  by (simp_all add: safe_def monad_defs)

lemma safe_bindM [safes]: "safe I m \<Longrightarrow> (\<And>x. safe I (f x)) \<Longrightarrow> safe I (bindM m f)"
  unfolding safe_def bindM_def by (fastforce split: prod.splits sum.splits)

lemma safe_thenM [safes]: "safe I m \<Longrightarrow> safe I n \<Longrightarrow> safe I (thenM m n)"
  by (simp add: thenM_def safe_bindM)

lemma safe_tryM [safes]:
  "safe I m \<Longrightarrow> (\<And>e. e \<noteq> undefined_behaviour \<Longrightarrow> safe I (h e)) \<Longrightarrow> safe I (tryM m h)"
  unfolding safe_def tryM_def by (fastforce split: prod.splits sum.splits)

lemma safe_cases [safes]:
  "(b \<Longrightarrow> safe I m) \<Longrightarrow> (\<not> b \<Longrightarrow> safe I n) \<Longrightarrow> safe I (if b then m else n)"
  "(x = None \<Longrightarrow> safe I m) \<Longrightarrow> (\<And>y. x = Some y \<Longrightarrow> safe I (f y)) \<Longrightarrow>
   safe I (case x of None \<Rightarrow> m | Some y \<Rightarrow> f y)"
  by (auto split: option.splits)

lemma safe_forEach [safes]: "(\<And>x. safe I (f x)) \<Longrightarrow> safe I (forEach f xs)"
  by (induction xs) (auto intro: safes)

section \<open>Server-side records\<close>

record UserInfo =
  ui_Id :: userid_t
  ui_Name :: fixed_string
  ui_PasswordHash :: u64

record ChatInfo =
  ci_Id :: chatid_t
  ci_Name :: fixed_string
  ci_OwnerId :: userid_t

record DirectChatInfo = ChatInfo +
  dc_User1Id :: userid_t
  dc_User2Id :: userid_t

record MessageInfo =
  mi_Id :: msgid_t
  mi_ChatId :: chatid_t
  mi_SenderId :: userid_t
  mi_Timestamp :: timestamp_t
  mi_Text :: fixed_string

end
