(* ===== verification/Wire.thy ===== *)
theory Wire
  imports Models
begin

text \<open>
  The packed structs of \<open>Models.ixx\<close>, \<open>Update.ixx\<close>, \<open>Request.ixx\<close> and \<open>Responce.ixx\<close> as the bytes
  that go over the socket (\<open>#pragma pack(push, 1)\<close>, little-endian), the factory functions of
  \<open>Request.cpp\<close> and \<open>Responce.cpp\<close>, and the round trips.

  \<open>Request{}\<close> and \<open>Responce{}\<close> initialise the tag and the first member of the union only, so a
  factory takes the memory image \<open>u\<close> the union has at that point; its bytes beyond the first
  member are whatever the stack held.
\<close>

definition zeros :: "nat \<Rightarrow> byte list" where "zeros n = replicate n 0"
definition bytes_of :: "char list \<Rightarrow> byte list" where "bytes_of s = map byte_of s"
definition chars_of :: "byte list \<Rightarrow> char list" where "chars_of bs = map char_of_byte bs"

lemma length_zeros [simp, wire_simps]: "length (zeros n) = n"
  by (simp add: zeros_def)

lemma length_bytes_of [simp, wire_simps]: "length (bytes_of s) = length s"
  by (simp add: bytes_of_def)

lemma length_chars_of [simp, wire_simps]: "length (chars_of s) = length s"
  by (simp add: chars_of_def)

lemma chars_of_bytes_of [simp, wire_simps]: "chars_of (bytes_of s) = s"
  by (simp add: chars_of_def bytes_of_def comp_def)

text \<open>A union member written over the image of the union.\<close>

definition overlay :: "byte list \<Rightarrow> byte list \<Rightarrow> byte list" where
  "overlay body img = body @ drop (length body) img"

lemma length_overlay [wire_simps]: "length body \<le> length img \<Longrightarrow> length (overlay body img) = length img"
  by (simp add: overlay_def)

section \<open>Chat, user, message, update\<close>

definition enc_Chat :: "Chat \<Rightarrow> byte list" where
  "enc_Chat c = enc_u32 (chat_Id c) @ bytes_of (chat_Name c) @ [chat_Type c]"

definition dec_Chat :: "byte list \<Rightarrow> Chat" where
  "dec_Chat bs = \<lparr>chat_Id = dec_u32 (sub 0 4 bs), chat_Name = chars_of (sub 4 65 bs),
     chat_Type = bs ! 69\<rparr>"

definition enc_User :: "User \<Rightarrow> byte list" where
  "enc_User u = enc_u32 (user_Id u) @ bytes_of (user_Name u)"

definition dec_User :: "byte list \<Rightarrow> User" where
  "dec_User bs = \<lparr>user_Id = dec_u32 (sub 0 4 bs), user_Name = chars_of (sub 4 65 bs)\<rparr>"

definition enc_Message :: "Message \<Rightarrow> byte list" where
  "enc_Message m = enc_u64 (msg_Id m) @ enc_Chat (msg_DestChat m) @ enc_User (msg_From m) @
     enc_u64 (msg_Timestamp m) @ bytes_of (msg_Text m)"

definition dec_Message :: "byte list \<Rightarrow> Message" where
  "dec_Message bs = \<lparr>msg_Id = dec_u64 (sub 0 8 bs), msg_DestChat = dec_Chat (sub 8 70 bs),
     msg_From = dec_User (sub 78 69 bs), msg_Timestamp = dec_u64 (sub 147 8 bs),
     msg_Text = chars_of (sub 155 513 bs)\<rparr>"

lemma length_enc_Chat [wire_simps]: "Chat_wf c \<Longrightarrow> length (enc_Chat c) = 70"
  by (simp add: Chat_wf_def fs_wf_def enc_Chat_def maxlength_defs)

lemma length_enc_User [wire_simps]: "User_wf u \<Longrightarrow> length (enc_User u) = 69"
  by (simp add: User_wf_def fs_wf_def enc_User_def maxlength_defs)

lemma length_enc_Message [wire_simps]: "Message_wf m \<Longrightarrow> length (enc_Message m) = 668"
  by (simp add: Message_wf_def fs_wf_def enc_Message_def length_enc_Chat length_enc_User
      maxlength_defs)

lemma dec_enc_Chat [wire_simps]: "Chat_wf c \<Longrightarrow> dec_Chat (enc_Chat c) = c"
  by (simp add: Chat_wf_def fs_wf_def enc_Chat_def dec_Chat_def wire_simps maxlength_defs nth_append)

lemma dec_enc_User [wire_simps]: "User_wf u \<Longrightarrow> dec_User (enc_User u) = u"
  by (simp add: User_wf_def fs_wf_def enc_User_def dec_User_def wire_simps maxlength_defs)

lemma dec_enc_Message [wire_simps]: "Message_wf m \<Longrightarrow> dec_Message (enc_Message m) = m"
  by (simp add: Message_wf_def enc_Message_def dec_Message_def wire_simps fs_wf_def maxlength_defs)

text \<open>A packed union member decoded from the front of the union ignores what follows it.\<close>

lemma dec_Chat_append: "length bs = 70 \<Longrightarrow> dec_Chat (bs @ r) = dec_Chat bs"
  by (simp add: dec_Chat_def sub_inside nth_append)

lemma dec_User_append: "length bs = 69 \<Longrightarrow> dec_User (bs @ r) = dec_User bs"
  by (simp add: dec_User_def sub_inside)

definition enc_ChatMemberEvent :: "ChatMemberEvent \<Rightarrow> byte list" where
  "enc_ChatMemberEvent e = enc_Chat (ev_ChatModel e) @ enc_User (ev_TargetUser e)"

definition dec_ChatMemberEvent :: "byte list \<Rightarrow> ChatMemberEvent" where
  "dec_ChatMemberEvent bs =
     \<lparr>ev_ChatModel = dec_Chat (sub 0 70 bs), ev_TargetUser = dec_User (sub 70 69 bs)\<rparr>"

definition ChatMemberEvent_wf :: "ChatMemberEvent \<Rightarrow> bool" where
  "ChatMemberEvent_wf e \<longleftrightarrow> Chat_wf (ev_ChatModel e) \<and> User_wf (ev_TargetUser e)"

lemma length_enc_ChatMemberEvent [wire_simps]:
  "ChatMemberEvent_wf e \<Longrightarrow> length (enc_ChatMemberEvent e) = 139"
  by (simp add: ChatMemberEvent_wf_def enc_ChatMemberEvent_def wire_simps)

lemma dec_enc_ChatMemberEvent [wire_simps]:
  "ChatMemberEvent_wf e \<Longrightarrow> dec_ChatMemberEvent (enc_ChatMemberEvent e @ r) = e"
  by (simp add: ChatMemberEvent_wf_def enc_ChatMemberEvent_def dec_ChatMemberEvent_def wire_simps)

fun upd_tag :: "UpdateBody \<Rightarrow> u32" where
  "upd_tag (MessageSent _) = 0"
| "upd_tag (UserJoined _ _) = 1"
| "upd_tag (UserKicked _) = 2"
| "upd_tag (UserBanned _) = 3"
| "upd_tag (UserUnbanned _) = 4"
| "upd_tag (ChatRenamed _) = 5"
| "upd_tag (UpdateOther t _) = t"

fun upd_union :: "UpdateBody \<Rightarrow> byte list" where
  "upd_union (MessageSent m) = enc_Message m"
| "upd_union (UserJoined c u) = enc_Chat c @ enc_User u"
| "upd_union (UserKicked e) = enc_ChatMemberEvent e"
| "upd_union (UserBanned e) = enc_ChatMemberEvent e"
| "upd_union (UserUnbanned e) = enc_ChatMemberEvent e"
| "upd_union (ChatRenamed c) = enc_Chat c"
| "upd_union (UpdateOther _ bs) = bs"

text \<open>\<open>Update{}\<close> zeroes the union: its first member, the message, is the largest.\<close>

definition enc_Update :: "Update \<Rightarrow> byte list" where
  "enc_Update u = enc_u32 (upd_Id u) @ enc_u32 (upd_tag (upd_body u)) @
     overlay (upd_union (upd_body u)) (zeros 668)"

definition dec_UpdateBody :: "u32 \<Rightarrow> byte list \<Rightarrow> UpdateBody" where
  "dec_UpdateBody t bs =
     (if t = 0 then MessageSent (dec_Message bs)
      else if t = 1 then UserJoined (dec_Chat (sub 0 70 bs)) (dec_User (sub 70 69 bs))
      else if t = 2 then UserKicked (dec_ChatMemberEvent bs)
      else if t = 3 then UserBanned (dec_ChatMemberEvent bs)
      else if t = 4 then UserUnbanned (dec_ChatMemberEvent bs)
      else if t = 5 then ChatRenamed (dec_Chat bs)
      else UpdateOther t bs)"

definition dec_Update :: "byte list \<Rightarrow> Update" where
  "dec_Update bs = \<lparr>upd_Id = dec_u32 (sub 0 4 bs),
     upd_body = dec_UpdateBody (dec_u32 (sub 4 4 bs)) (sub 8 668 bs)\<rparr>"

fun UpdateBody_wf :: "UpdateBody \<Rightarrow> bool" where
  "UpdateBody_wf (MessageSent m) = Message_wf m"
| "UpdateBody_wf (UserJoined c u) = (Chat_wf c \<and> User_wf u)"
| "UpdateBody_wf (UserKicked e) = ChatMemberEvent_wf e"
| "UpdateBody_wf (UserBanned e) = ChatMemberEvent_wf e"
| "UpdateBody_wf (UserUnbanned e) = ChatMemberEvent_wf e"
| "UpdateBody_wf (ChatRenamed c) = Chat_wf c"
| "UpdateBody_wf (UpdateOther t bs) = (5 < t \<and> length bs = 668)"

definition Update_wf :: "Update \<Rightarrow> bool" where
  "Update_wf u \<longleftrightarrow> UpdateBody_wf (upd_body u)"

lemma length_upd_union: "UpdateBody_wf b \<Longrightarrow> length (upd_union b) \<le> 668"
  by (cases b) (simp_all add: wire_simps)

lemma length_enc_Update [wire_simps]: "Update_wf u \<Longrightarrow> length (enc_Update u) = 676"
  using length_upd_union [of "upd_body u"] by (simp add: Update_wf_def enc_Update_def wire_simps)

lemma dec_enc_UpdateBody:
  "UpdateBody_wf b \<Longrightarrow> dec_UpdateBody (upd_tag b) (overlay (upd_union b) (zeros 668)) = b"
proof (cases b)
  case (UpdateOther t bs)
  moreover assume "UpdateBody_wf b"
  ultimately show ?thesis
    by (auto simp: overlay_def dec_UpdateBody_def)
qed (simp_all add: overlay_def dec_UpdateBody_def wire_simps dec_Chat_append)

lemma dec_enc_Update [wire_simps]: "Update_wf u \<Longrightarrow> dec_Update (enc_Update u) = u"
  using length_upd_union [of "upd_body u"]
  by (simp add: Update_wf_def enc_Update_def dec_Update_def wire_simps dec_enc_UpdateBody)

end
