(* ===== verification/Requests.thy ===== *)
theory Requests
  imports Wire
begin

text \<open>
  \<open>Request.ixx\<close> and \<open>Request.cpp\<close>: the request structs, their packed layout, the factories.
\<close>

section \<open>The structs\<close>

record HandshakeRequest =
  hsq_Flag :: connflag_t
  hsq_Version :: version_t
  hsq_SecureMode :: byte
  hsq_Reserved :: byte
  hsq_IntegrityTag :: u64
  hsq_ClientPublicKey :: "byte list"

record AuthRequest =
  auth_UserToken :: token_t
  auth_Username :: fixed_string
  auth_Password :: fixed_string

record GetUpdatesRequest =
  gu_UserToken :: token_t
  gu_DropPending :: byte
  gu_Reserved :: "byte list"

text \<open>\<open>GetChatInfoRequest\<close>, \<open>SpawnGroupChatRequest\<close>, \<open>JoinGroupChatRequest\<close>: a token and a name.\<close>

record NameRequest =
  nr_UserToken :: token_t
  nr_Name :: fixed_string

text \<open>\<open>GetChatHistoryRequest\<close>, \<open>GetChatMembersRequest\<close>: a token and a chat.\<close>

record ChatIdRequest =
  cr_UserToken :: token_t
  cr_ChatId :: chatid_t

record CommitMessageRequest =
  cm_UserToken :: token_t
  cm_Timestamp :: timestamp_t
  cm_Content :: fixed_string
  cm_ToChat :: chatid_t

datatype Request =
    Handshake HandshakeRequest
  | Register AuthRequest
  | Login AuthRequest
  | GetUpdates GetUpdatesRequest
  | GetChatInfo NameRequest
  | GetChatHistory ChatIdRequest
  | GetChatMembers ChatIdRequest
  | GetChatList token_t
  | GetAddonCommands token_t
  | SpawnGroupChat NameRequest
  | JoinGroupChat NameRequest
  | CommitMessage CommitMessageRequest
  | RequestOther u32 "byte list"

section \<open>Layout\<close>

definition REQUEST_UNION :: nat where "REQUEST_UNION = 529"

fun req_tag :: "Request \<Rightarrow> u32" where
  "req_tag (Handshake _) = 0"
| "req_tag (Register _) = 1"
| "req_tag (Login _) = 2"
| "req_tag (GetUpdates _) = 3"
| "req_tag (GetChatInfo _) = 4"
| "req_tag (GetChatHistory _) = 5"
| "req_tag (GetChatMembers _) = 6"
| "req_tag (GetChatList _) = 7"
| "req_tag (GetAddonCommands _) = 8"
| "req_tag (SpawnGroupChat _) = 9"
| "req_tag (JoinGroupChat _) = 10"
| "req_tag (CommitMessage _) = 11"
| "req_tag (RequestOther t _) = t"

definition enc_HandshakeRequest :: "HandshakeRequest \<Rightarrow> byte list" where
  "enc_HandshakeRequest h = enc_u16 (hsq_Flag h) @ enc_u16 (hsq_Version h) @ [hsq_SecureMode h] @
     [hsq_Reserved h] @ enc_u64 (hsq_IntegrityTag h) @ hsq_ClientPublicKey h"

definition dec_HandshakeRequest :: "byte list \<Rightarrow> HandshakeRequest" where
  "dec_HandshakeRequest bs = \<lparr>hsq_Flag = dec_u16 (sub 0 2 bs), hsq_Version = dec_u16 (sub 2 2 bs),
     hsq_SecureMode = bs ! 4, hsq_Reserved = bs ! 5, hsq_IntegrityTag = dec_u64 (sub 6 8 bs),
     hsq_ClientPublicKey = sub 14 32 bs\<rparr>"

definition enc_AuthRequest :: "AuthRequest \<Rightarrow> byte list" where
  "enc_AuthRequest a = enc_u32 (auth_UserToken a) @ bytes_of (auth_Username a) @
     bytes_of (auth_Password a)"

definition dec_AuthRequest :: "byte list \<Rightarrow> AuthRequest" where
  "dec_AuthRequest bs = \<lparr>auth_UserToken = dec_u32 (sub 0 4 bs),
     auth_Username = chars_of (sub 4 65 bs), auth_Password = chars_of (sub 69 33 bs)\<rparr>"

definition enc_GetUpdatesRequest :: "GetUpdatesRequest \<Rightarrow> byte list" where
  "enc_GetUpdatesRequest g = enc_u32 (gu_UserToken g) @ [gu_DropPending g] @ gu_Reserved g"

definition dec_GetUpdatesRequest :: "byte list \<Rightarrow> GetUpdatesRequest" where
  "dec_GetUpdatesRequest bs = \<lparr>gu_UserToken = dec_u32 (sub 0 4 bs), gu_DropPending = bs ! 4,
     gu_Reserved = sub 5 3 bs\<rparr>"

definition enc_NameRequest :: "NameRequest \<Rightarrow> byte list" where
  "enc_NameRequest r = enc_u32 (nr_UserToken r) @ bytes_of (nr_Name r)"

definition dec_NameRequest :: "byte list \<Rightarrow> NameRequest" where
  "dec_NameRequest bs = \<lparr>nr_UserToken = dec_u32 (sub 0 4 bs), nr_Name = chars_of (sub 4 65 bs)\<rparr>"

definition enc_ChatIdRequest :: "ChatIdRequest \<Rightarrow> byte list" where
  "enc_ChatIdRequest r = enc_u32 (cr_UserToken r) @ enc_u32 (cr_ChatId r)"

definition dec_ChatIdRequest :: "byte list \<Rightarrow> ChatIdRequest" where
  "dec_ChatIdRequest bs = \<lparr>cr_UserToken = dec_u32 (sub 0 4 bs), cr_ChatId = dec_u32 (sub 4 4 bs)\<rparr>"

definition enc_CommitMessageRequest :: "CommitMessageRequest \<Rightarrow> byte list" where
  "enc_CommitMessageRequest r = enc_u32 (cm_UserToken r) @ enc_u64 (cm_Timestamp r) @
     bytes_of (cm_Content r) @ enc_u32 (cm_ToChat r)"

definition dec_CommitMessageRequest :: "byte list \<Rightarrow> CommitMessageRequest" where
  "dec_CommitMessageRequest bs = \<lparr>cm_UserToken = dec_u32 (sub 0 4 bs),
     cm_Timestamp = dec_u64 (sub 4 8 bs), cm_Content = chars_of (sub 12 513 bs),
     cm_ToChat = dec_u32 (sub 525 4 bs)\<rparr>"

fun req_union :: "Request \<Rightarrow> byte list" where
  "req_union (Handshake h) = enc_HandshakeRequest h"
| "req_union (Register a) = enc_AuthRequest a"
| "req_union (Login a) = enc_AuthRequest a"
| "req_union (GetUpdates g) = enc_GetUpdatesRequest g"
| "req_union (GetChatInfo r) = enc_NameRequest r"
| "req_union (GetChatHistory r) = enc_ChatIdRequest r"
| "req_union (GetChatMembers r) = enc_ChatIdRequest r"
| "req_union (GetChatList t) = enc_u32 t"
| "req_union (GetAddonCommands t) = enc_u32 t"
| "req_union (SpawnGroupChat r) = enc_NameRequest r"
| "req_union (JoinGroupChat r) = enc_NameRequest r"
| "req_union (CommitMessage r) = enc_CommitMessageRequest r"
| "req_union (RequestOther _ bs) = bs"

definition enc_Request :: "byte list \<Rightarrow> Request \<Rightarrow> byte list" where
  "enc_Request u r = enc_u32 (req_tag r) @ overlay (req_union r) u"

definition dec_RequestUnion :: "u32 \<Rightarrow> byte list \<Rightarrow> Request" where
  "dec_RequestUnion t bs =
     (if t = 0 then Handshake (dec_HandshakeRequest bs)
      else if t = 1 then Register (dec_AuthRequest bs)
      else if t = 2 then Login (dec_AuthRequest bs)
      else if t = 3 then GetUpdates (dec_GetUpdatesRequest bs)
      else if t = 4 then GetChatInfo (dec_NameRequest bs)
      else if t = 5 then GetChatHistory (dec_ChatIdRequest bs)
      else if t = 6 then GetChatMembers (dec_ChatIdRequest bs)
      else if t = 7 then GetChatList (dec_u32 (sub 0 4 bs))
      else if t = 8 then GetAddonCommands (dec_u32 (sub 0 4 bs))
      else if t = 9 then SpawnGroupChat (dec_NameRequest bs)
      else if t = 10 then JoinGroupChat (dec_NameRequest bs)
      else if t = 11 then CommitMessage (dec_CommitMessageRequest bs)
      else RequestOther t bs)"

definition dec_Request :: "byte list \<Rightarrow> Request" where
  "dec_Request bs = dec_RequestUnion (dec_u32 (sub 0 4 bs)) (sub 4 REQUEST_UNION bs)"

definition REQUEST_SIZE :: nat where "REQUEST_SIZE = 533"

text \<open>
  \<open>request.CommitMessage.UserToken\<close>: the handlers read the token through one member of the
  union whatever the type is. Every member but the handshake starts with it.
\<close>

definition union_token :: "Request \<Rightarrow> token_t" where
  "union_token r = dec_u32 (sub 0 4 (req_union r))"

section \<open>Well-formed requests\<close>

definition HandshakeRequest_wf :: "HandshakeRequest \<Rightarrow> bool" where
  "HandshakeRequest_wf h \<longleftrightarrow> length (hsq_ClientPublicKey h) = 32"

definition AuthRequest_wf :: "AuthRequest \<Rightarrow> bool" where
  "AuthRequest_wf a \<longleftrightarrow> fs_wf CHATNAME_MAXLENGTH (auth_Username a) \<and>
     fs_wf PASSWORD_MAXLENGTH (auth_Password a)"

definition NameRequest_wf :: "NameRequest \<Rightarrow> bool" where
  "NameRequest_wf r \<longleftrightarrow> fs_wf CHATNAME_MAXLENGTH (nr_Name r)"

definition CommitMessageRequest_wf :: "CommitMessageRequest \<Rightarrow> bool" where
  "CommitMessageRequest_wf r \<longleftrightarrow> fs_wf MESSAGETEXT_MAXLENGTH (cm_Content r)"

fun Request_wf :: "Request \<Rightarrow> bool" where
  "Request_wf (Handshake h) = HandshakeRequest_wf h"
| "Request_wf (Register a) = AuthRequest_wf a"
| "Request_wf (Login a) = AuthRequest_wf a"
| "Request_wf (GetUpdates g) = (length (gu_Reserved g) = 3)"
| "Request_wf (GetChatInfo r) = NameRequest_wf r"
| "Request_wf (SpawnGroupChat r) = NameRequest_wf r"
| "Request_wf (JoinGroupChat r) = NameRequest_wf r"
| "Request_wf (CommitMessage r) = CommitMessageRequest_wf r"
| "Request_wf (RequestOther t bs) = (11 < t \<and> length bs = REQUEST_UNION)"
| "Request_wf _ = True"

lemmas Request_wf_defs = HandshakeRequest_wf_def AuthRequest_wf_def NameRequest_wf_def
  CommitMessageRequest_wf_def fs_wf_def maxlength_defs

lemmas enc_request_defs = enc_HandshakeRequest_def enc_AuthRequest_def enc_GetUpdatesRequest_def
  enc_NameRequest_def enc_ChatIdRequest_def enc_CommitMessageRequest_def

lemmas dec_request_defs = dec_HandshakeRequest_def dec_AuthRequest_def dec_GetUpdatesRequest_def
  dec_NameRequest_def dec_ChatIdRequest_def dec_CommitMessageRequest_def

lemma length_req_union: "Request_wf r \<Longrightarrow> length (req_union r) \<le> REQUEST_UNION"
  by (cases r) (simp_all add: enc_request_defs Request_wf_defs REQUEST_UNION_def)

lemma length_enc_Request:
  "Request_wf r \<Longrightarrow> length u = REQUEST_UNION \<Longrightarrow> length (enc_Request u r) = REQUEST_SIZE"
  using length_req_union [of r]
  by (simp add: enc_Request_def wire_simps REQUEST_SIZE_def REQUEST_UNION_def)

lemma dec_HandshakeRequest_enc:
  "HandshakeRequest_wf h \<Longrightarrow> dec_HandshakeRequest (enc_HandshakeRequest h @ r) = h"
  by (simp add: enc_HandshakeRequest_def dec_HandshakeRequest_def wire_simps Request_wf_defs
      nth_append sub_def)

lemma dec_AuthRequest_enc: "AuthRequest_wf a \<Longrightarrow> dec_AuthRequest (enc_AuthRequest a @ r) = a"
  by (simp add: enc_AuthRequest_def dec_AuthRequest_def wire_simps Request_wf_defs)

lemma dec_GetUpdatesRequest_enc:
  "length (gu_Reserved g) = 3 \<Longrightarrow> dec_GetUpdatesRequest (enc_GetUpdatesRequest g @ r) = g"
  by (simp add: enc_GetUpdatesRequest_def dec_GetUpdatesRequest_def wire_simps nth_append sub_def)

lemma dec_NameRequest_enc: "NameRequest_wf n \<Longrightarrow> dec_NameRequest (enc_NameRequest n @ r) = n"
  by (simp add: enc_NameRequest_def dec_NameRequest_def wire_simps Request_wf_defs)

lemma dec_ChatIdRequest_enc: "dec_ChatIdRequest (enc_ChatIdRequest c @ r) = c"
  by (simp add: enc_ChatIdRequest_def dec_ChatIdRequest_def wire_simps)

lemma dec_CommitMessageRequest_enc:
  "CommitMessageRequest_wf c \<Longrightarrow> dec_CommitMessageRequest (enc_CommitMessageRequest c @ r) = c"
  by (simp add: enc_CommitMessageRequest_def dec_CommitMessageRequest_def wire_simps Request_wf_defs)

lemmas dec_enc_requests = dec_HandshakeRequest_enc dec_AuthRequest_enc dec_GetUpdatesRequest_enc
  dec_NameRequest_enc dec_ChatIdRequest_enc dec_CommitMessageRequest_enc

lemma dec_RequestUnion_enc:
  assumes "Request_wf r" and "length u = REQUEST_UNION"
  shows "dec_RequestUnion (req_tag r) (overlay (req_union r) u) = r"
proof (cases r)
  case (RequestOther t bs)
  with assms show ?thesis by (auto simp: dec_RequestUnion_def overlay_def)
qed (use assms in \<open>simp_all add: dec_RequestUnion_def overlay_def dec_enc_requests wire_simps\<close>)

lemma dec_enc_Request:
  assumes "Request_wf r" and "length u = REQUEST_UNION"
  shows "dec_Request (enc_Request u r) = r"
proof -
  have "length (overlay (req_union r) u) = REQUEST_UNION"
    using length_req_union [OF assms(1)] assms(2) by (simp add: wire_simps)
  then have "dec_Request (enc_Request u r) = dec_RequestUnion (req_tag r) (overlay (req_union r) u)"
    by (simp add: dec_Request_def enc_Request_def wire_simps)
  then show ?thesis using dec_RequestUnion_enc [OF assms] by simp
qed



lemma union_token_read:
  "union_token (Register a) = auth_UserToken a" "union_token (Login a) = auth_UserToken a"
  "union_token (GetUpdates g) = gu_UserToken g" "union_token (GetChatInfo n) = nr_UserToken n"
  "union_token (GetChatHistory c) = cr_UserToken c" "union_token (GetChatMembers c) = cr_UserToken c"
  "union_token (GetChatList t) = t" "union_token (GetAddonCommands t) = t"
  "union_token (SpawnGroupChat n) = nr_UserToken n" "union_token (JoinGroupChat n) = nr_UserToken n"
  "union_token (CommitMessage m) = cm_UserToken m"
  by (simp_all add: union_token_def enc_request_defs wire_simps)

section \<open>The factories\<close>

text \<open>The image of the union after \<open>Request{}\<close>: the handshake zeroed, the rest unspecified.\<close>

definition Request_image :: "byte list \<Rightarrow> bool" where
  "Request_image u \<longleftrightarrow> length u = REQUEST_UNION \<and> take 46 u = zeros 46"

definition CreateHandshake :: "connflag_t \<Rightarrow> Request" where
  "CreateHandshake flag = Handshake \<lparr>hsq_Flag = flag, hsq_Version = TELECRAP_VERSION,
     hsq_SecureMode = 0, hsq_Reserved = 0, hsq_IntegrityTag = 0, hsq_ClientPublicKey = zeros 32\<rparr>"

definition CreateHandshakeSecure :: "connflag_t \<Rightarrow> u64 \<Rightarrow> byte list \<Rightarrow> Request" where
  "CreateHandshakeSecure flag integrityTag clientPublicKey = Handshake \<lparr>hsq_Flag = flag,
     hsq_Version = TELECRAP_VERSION, hsq_SecureMode = 1, hsq_Reserved = 0,
     hsq_IntegrityTag = integrityTag, hsq_ClientPublicKey = take 32 clientPublicKey\<rparr>"

definition CreateRegister :: "byte list \<Rightarrow> token_t \<Rightarrow> cstring \<Rightarrow> cstring \<Rightarrow> Request" where
  "CreateRegister u token username password = Register \<lparr>auth_UserToken = token,
     auth_Username = fs_assign CHATNAME_MAXLENGTH (chars_of (sub 4 65 u)) (c_str username),
     auth_Password = fs_assign PASSWORD_MAXLENGTH (chars_of (sub 69 33 u)) (c_str password)\<rparr>"

definition CreateLogin :: "byte list \<Rightarrow> token_t \<Rightarrow> cstring \<Rightarrow> cstring \<Rightarrow> Request" where
  "CreateLogin u token username password = Login \<lparr>auth_UserToken = token,
     auth_Username = fs_assign CHATNAME_MAXLENGTH (chars_of (sub 4 65 u)) (c_str username),
     auth_Password = fs_assign PASSWORD_MAXLENGTH (chars_of (sub 69 33 u)) (c_str password)\<rparr>"

definition CreateCommitMessage ::
    "byte list \<Rightarrow> timestamp_t \<Rightarrow> token_t \<Rightarrow> chatid_t \<Rightarrow> cstring \<Rightarrow> Request" where
  "CreateCommitMessage u now token chatId content = CommitMessage \<lparr>cm_UserToken = token,
     cm_Timestamp = now,
     cm_Content = fs_assign MESSAGETEXT_MAXLENGTH (chars_of (sub 12 513 u)) (c_str content),
     cm_ToChat = chatId\<rparr>"

definition CreateGetChatInfo :: "byte list \<Rightarrow> token_t \<Rightarrow> cstring \<Rightarrow> Request" where
  "CreateGetChatInfo u token chatQuery = GetChatInfo \<lparr>nr_UserToken = token,
     nr_Name = fs_assign CHATNAME_MAXLENGTH (chars_of (sub 4 65 u)) (c_str chatQuery)\<rparr>"

definition CreateGetChatMembers :: "token_t \<Rightarrow> chatid_t \<Rightarrow> Request" where
  "CreateGetChatMembers token chatId = GetChatMembers \<lparr>cr_UserToken = token, cr_ChatId = chatId\<rparr>"

definition CreateGetChatHistory :: "token_t \<Rightarrow> chatid_t \<Rightarrow> Request" where
  "CreateGetChatHistory token chatId = GetChatHistory \<lparr>cr_UserToken = token, cr_ChatId = chatId\<rparr>"

text \<open>The only factory that assigns the \<open>std::string\<close> itself rather than its \<open>c_str()\<close>.\<close>

definition CreateSpawnGroupChat :: "byte list \<Rightarrow> token_t \<Rightarrow> cstring \<Rightarrow> Request" where
  "CreateSpawnGroupChat u token chatName = SpawnGroupChat \<lparr>nr_UserToken = token,
     nr_Name = fs_assign CHATNAME_MAXLENGTH (chars_of (sub 4 65 u)) chatName\<rparr>"

definition CreateJoinGroupChat :: "byte list \<Rightarrow> token_t \<Rightarrow> cstring \<Rightarrow> Request" where
  "CreateJoinGroupChat u token chatQuery = JoinGroupChat \<lparr>nr_UserToken = token,
     nr_Name = fs_assign CHATNAME_MAXLENGTH (chars_of (sub 4 65 u)) (c_str chatQuery)\<rparr>"

definition CreateGetUpdates :: "token_t \<Rightarrow> bool \<Rightarrow> Request" where
  "CreateGetUpdates token dropPending = GetUpdates \<lparr>gu_UserToken = token,
     gu_DropPending = (if dropPending then 1 else 0), gu_Reserved = [0, 0, 0]\<rparr>"

definition CreateGetChatList :: "token_t \<Rightarrow> Request" where
  "CreateGetChatList token = GetChatList token"

definition CreateGetAddonCommands :: "token_t \<Rightarrow> Request" where
  "CreateGetAddonCommands token = GetAddonCommands token"

lemmas request_factories = CreateHandshake_def CreateHandshakeSecure_def CreateRegister_def
  CreateLogin_def CreateCommitMessage_def CreateGetChatInfo_def CreateGetChatMembers_def
  CreateGetChatHistory_def CreateSpawnGroupChat_def CreateJoinGroupChat_def CreateGetUpdates_def
  CreateGetChatList_def CreateGetAddonCommands_def

lemma fs_wf_image:
  "length u = REQUEST_UNION \<Longrightarrow> off + Suc n \<le> REQUEST_UNION \<Longrightarrow>
   fs_wf n (chars_of (sub off (Suc n) u))"
  by (simp add: fs_wf_def wire_simps)

lemma factories_wf:
  assumes "Request_image u"
  shows "Request_wf (CreateHandshake flag)"
    and "length key = 32 \<Longrightarrow> Request_wf (CreateHandshakeSecure flag tag key)"
    and "Request_wf (CreateRegister u token name pass)"
    and "Request_wf (CreateLogin u token name pass)"
    and "Request_wf (CreateCommitMessage u now token chat text)"
    and "Request_wf (CreateGetChatInfo u token name)"
    and "Request_wf (CreateSpawnGroupChat u token name)"
    and "Request_wf (CreateJoinGroupChat u token name)"
    and "Request_wf (CreateGetUpdates token pending)"
proof -
  have len: "length u = REQUEST_UNION" using assms by (simp add: Request_image_def)
  have fs: "fs_wf 64 (chars_of (sub 4 65 u))" "fs_wf 32 (chars_of (sub 69 33 u))"
    "fs_wf 512 (chars_of (sub 12 513 u))"
    using fs_wf_image [OF len, of 4 64] fs_wf_image [OF len, of 69 32] fs_wf_image [OF len, of 12 512]
    by (simp_all add: REQUEST_UNION_def)
  show "Request_wf (CreateHandshake flag)"
    "length key = 32 \<Longrightarrow> Request_wf (CreateHandshakeSecure flag tag key)"
    "Request_wf (CreateRegister u token name pass)" "Request_wf (CreateLogin u token name pass)"
    "Request_wf (CreateCommitMessage u now token chat text)"
    "Request_wf (CreateGetChatInfo u token name)" "Request_wf (CreateSpawnGroupChat u token name)"
    "Request_wf (CreateJoinGroupChat u token name)" "Request_wf (CreateGetUpdates token pending)"
    using fs by (simp_all add: request_factories HandshakeRequest_wf_def AuthRequest_wf_def
        NameRequest_wf_def CommitMessageRequest_wf_def maxlength_defs)
qed

text \<open>
  What a login puts on the wire is what the server reads: after sending the request built by
  the factory and decoding it, the token is the session's and the user name and password read
  as C strings are the ones typed in, cut to the capacity of their fields, whatever the stack
  left in the union.
\<close>

theorem login_over_the_wire:
  assumes "Request_image u" and "NUL \<notin> set name" and "NUL \<notin> set pass"
  shows "\<exists>a. dec_Request (enc_Request u (CreateLogin u token name pass)) = Login a \<and>
     auth_UserToken a = token \<and>
     c_str (auth_Username a) = take CHATNAME_MAXLENGTH name \<and>
     c_str (auth_Password a) = take PASSWORD_MAXLENGTH pass"
proof -
  have "dec_Request (enc_Request u (CreateLogin u token name pass)) = CreateLogin u token name pass"
    using assms(1) by (intro dec_enc_Request factories_wf) (simp_all add: Request_image_def)
  moreover have "NUL \<notin> set (take n s)" if "NUL \<notin> set s" for n s
    using that by (meson in_set_takeD)
  ultimately show ?thesis
    using assms(2,3) by (simp add: CreateLogin_def c_str_fs_assign c_str_id)
qed

theorem login_over_the_wire_witness:
  "(let u = zeros 46 @ replicate 483 0xEE; a = ''ann''; p = ''secret''
    in Request_image u \<and> NUL \<notin> set a \<and> NUL \<notin> set p \<and>
      (\<exists>q. dec_Request (enc_Request u (CreateLogin u 5 a p)) = Login q \<and> auth_UserToken q = 5 \<and>
        c_str (auth_Username q) = take CHATNAME_MAXLENGTH a \<and>
        c_str (auth_Password q) = take PASSWORD_MAXLENGTH p))"
proof -
  have u: "Request_image (zeros 46 @ replicate 483 0xEE)"
    by (simp add: Request_image_def REQUEST_UNION_def)
  have n: "NUL \<notin> set ''ann''" "NUL \<notin> set ''secret''" by (simp_all add: NUL_def)
  show ?thesis using u n login_over_the_wire [OF u n] by (simp add: Let_def)
qed

end
