(* ===== verification/Database.thy ===== *)
theory Database
  imports Requests "HOL-Library.Multiset"
begin

text \<open>
  \<open>TeleCrap.Server/src/Database.cpp\<close>: the schema as lists of rows, every SQL statement as what it
  does to them, and the operations of class \<open>Database\<close> in the state-and-exception monad over the
  tables. INTEGER columns are 64-bit signed integers in SQLite: \<open>int\<close> here, read back at the
  width the code reads them with. What SQLite leaves open, the order in which a SELECT without
  ORDER BY returns its rows, and what the platform supplies, the machine identity files and
  \<open>std::hash\<close>, are fields of \<open>DbEnv\<close>.
\<close>

section \<open>The schema\<close>

record UserRow =
  ur_Id :: int
  ur_Name :: cstring
  ur_PasswordHash :: int

record ChatRow =
  chr_Id :: int
  chr_OwnerId :: int
  chr_Name :: cstring

record DirectRow =
  dr_ChatId :: int
  dr_User1Id :: int
  dr_User2Id :: int

record MessageRow =
  mr_Id :: int
  mr_ChatId :: int
  mr_SenderId :: int
  mr_Timestamp :: int
  mr_Text :: cstring

text \<open>The tables; \<open>_seq\<close> is the table's entry of \<open>sqlite_sequence\<close> (AUTOINCREMENT).\<close>

record Db =
  Users :: "UserRow list"
  Users_seq :: int
  Chats :: "ChatRow list"
  Chats_seq :: int
  DirectChats :: "DirectRow list"
  Messages :: "MessageRow list"
  Messages_seq :: int
  Users_has_Chats :: "(int \<times> int) list"
  Chats_has_BannedUsers :: "(int \<times> int) list"

definition Db_empty :: Db where
  "Db_empty = \<lparr>Users = [], Users_seq = 0, Chats = [], Chats_seq = 0, DirectChats = [],
     Messages = [], Messages_seq = 0, Users_has_Chats = [], Chats_has_BannedUsers = []\<rparr>"

record DbEnv =
  first_line :: "cstring \<Rightarrow> cstring option"
  std_hash :: "cstring \<Rightarrow> u64"
  order_chats_by_name :: "ChatRow list \<Rightarrow> ChatRow list"
  order_chats :: "ChatRow list \<Rightarrow> ChatRow list"
  order_members :: "UserRow list \<Rightarrow> UserRow list"
  order_messages :: "MessageRow list \<Rightarrow> MessageRow list"

text \<open>A SELECT returns the rows it selects, each once, in some order.\<close>

definition DbEnv_ok :: "DbEnv \<Rightarrow> bool" where
  "DbEnv_ok E \<longleftrightarrow> (\<forall>xs. mset (order_chats_by_name E xs) = mset xs) \<and>
     (\<forall>xs. mset (order_chats E xs) = mset xs) \<and> (\<forall>xs. mset (order_members E xs) = mset xs) \<and>
     (\<forall>xs. mset (order_messages E xs) = mset xs)"

type_synonym 'a dbM = "(Db, exn, 'a) sem"

section \<open>Binding and reading columns\<close>

definition bind_u32 :: "u32 \<Rightarrow> int" where "bind_u32 w = uint w"
definition bind_i64 :: "u64 \<Rightarrow> int" where "bind_i64 w = sint w"
definition getUInt :: "int \<Rightarrow> u32" where "getUInt i = word_of_int i"
definition getInt64 :: "int \<Rightarrow> u64" where "getInt64 i = word_of_int i"

lemma getUInt_bind [simp]: "getUInt (bind_u32 w) = w"
  by (simp add: getUInt_def bind_u32_def)

lemma getInt64_bind [simp]: "getInt64 (bind_i64 w) = w"
  by (simp add: getInt64_def bind_i64_def)

lemma bind_getUInt: "0 \<le> i \<Longrightarrow> i < 2 ^ 32 \<Longrightarrow> bind_u32 (getUInt i) = i"
  by (simp add: getUInt_def bind_u32_def uint_word_of_int)

lemma bind_u32_eq_iff [simp]: "bind_u32 a = bind_u32 b \<longleftrightarrow> a = b"
  by (simp add: bind_u32_def flip: word_uint_eq_iff)

section \<open>Statements\<close>

definition sqlite_max :: int where "sqlite_max = 2 ^ 63 - 1"

definition fk_failed :: exn where
  "fk_failed = sqlite_error ''FOREIGN KEY constraint failed''"

definition unique_failed :: "cstring \<Rightarrow> exn" where
  "unique_failed what = sqlite_error (''UNIQUE constraint failed: '' @ what)"

definition disk_full :: exn where
  "disk_full = sqlite_error ''database or disk is full''"

definition user_exists :: "Db \<Rightarrow> int \<Rightarrow> bool" where
  "user_exists d i \<longleftrightarrow> i \<in> ur_Id ` set (Users d)"

definition chat_exists :: "Db \<Rightarrow> int \<Rightarrow> bool" where
  "chat_exists d i \<longleftrightarrow> i \<in> chr_Id ` set (Chats d)"

text \<open>\<open>SQLite::Transaction\<close>: what a block did is undone when an exception leaves it.\<close>

definition transaction :: "'a dbM \<Rightarrow> 'a dbM" where
  "transaction m d = (case m d of (Inl e, _) \<Rightarrow> (Inl e, d) | (Inr x, d') \<Rightarrow> (Inr x, d'))"

text \<open>INSERT INTO Users (Name, PasswordHash); the value is the last insert rowid.\<close>

definition insert_Users :: "cstring \<Rightarrow> int \<Rightarrow> int dbM" where
  "insert_Users name hash d =
     (if name \<in> ur_Name ` set (Users d) then (Inl (unique_failed ''Users.Name''), d)
      else if Users_seq d \<ge> sqlite_max then (Inl disk_full, d)
      else let i = Users_seq d + 1 in
        (Inr i, d\<lparr>Users := Users d @ [\<lparr>ur_Id = i, ur_Name = name, ur_PasswordHash = hash\<rparr>],
                 Users_seq := i\<rparr>))"

definition insert_Chats :: "cstring \<Rightarrow> int \<Rightarrow> int dbM" where
  "insert_Chats name owner d =
     (if Chats_seq d \<ge> sqlite_max then (Inl disk_full, d)
      else if \<not> user_exists d owner then (Inl fk_failed, d)
      else let i = Chats_seq d + 1 in
        (Inr i, d\<lparr>Chats := Chats d @ [\<lparr>chr_Id = i, chr_OwnerId = owner, chr_Name = name\<rparr>],
                 Chats_seq := i\<rparr>))"

definition insert_Messages :: "int \<Rightarrow> cstring \<Rightarrow> int \<Rightarrow> int \<Rightarrow> int dbM" where
  "insert_Messages ts text chat sender d =
     (if Messages_seq d \<ge> sqlite_max then (Inl disk_full, d)
      else if \<not> (chat_exists d chat \<and> user_exists d sender) then (Inl fk_failed, d)
      else let i = Messages_seq d + 1 in
        (Inr i, d\<lparr>Messages := Messages d @ [\<lparr>mr_Id = i, mr_ChatId = chat, mr_SenderId = sender,
                   mr_Timestamp = ts, mr_Text = text\<rparr>], Messages_seq := i\<rparr>))"

definition insert_Users_has_Chats :: "int \<Rightarrow> int \<Rightarrow> unit dbM" where
  "insert_Users_has_Chats chat user d =
     (if (user, chat) \<in> set (Users_has_Chats d)
      then (Inl (unique_failed ''Users_has_Chats.UserId, Users_has_Chats.ChatId''), d)
      else if \<not> (user_exists d user \<and> chat_exists d chat) then (Inl fk_failed, d)
      else (Inr (), d\<lparr>Users_has_Chats := Users_has_Chats d @ [(user, chat)]\<rparr>))"

definition insert_DirectChats :: "int \<Rightarrow> int \<Rightarrow> int \<Rightarrow> unit dbM" where
  "insert_DirectChats chat u1 u2 d =
     (if chat \<in> dr_ChatId ` set (DirectChats d)
      then (Inl (unique_failed ''DirectChats.ChatId''), d)
      else if (u1, u2) \<in> (\<lambda>r. (dr_User1Id r, dr_User2Id r)) ` set (DirectChats d)
      then (Inl (unique_failed ''DirectChats.User1Id, DirectChats.User2Id''), d)
      else if \<not> (chat_exists d chat \<and> user_exists d u1 \<and> user_exists d u2) then (Inl fk_failed, d)
      else (Inr (), d\<lparr>DirectChats := DirectChats d @
             [\<lparr>dr_ChatId = chat, dr_User1Id = u1, dr_User2Id = u2\<rparr>]\<rparr>))"

text \<open>INSERT OR IGNORE: a uniqueness conflict is skipped, a foreign key violation is not.\<close>

definition insert_ignore_Users_has_Chats :: "int \<Rightarrow> int \<Rightarrow> unit dbM" where
  "insert_ignore_Users_has_Chats user chat d =
     (if (user, chat) \<in> set (Users_has_Chats d) then (Inr (), d)
      else if \<not> (user_exists d user \<and> chat_exists d chat) then (Inl fk_failed, d)
      else (Inr (), d\<lparr>Users_has_Chats := Users_has_Chats d @ [(user, chat)]\<rparr>))"

definition insert_ignore_BannedUsers :: "int \<Rightarrow> int \<Rightarrow> unit dbM" where
  "insert_ignore_BannedUsers chat user d =
     (if (chat, user) \<in> set (Chats_has_BannedUsers d) then (Inr (), d)
      else if \<not> (user_exists d user \<and> chat_exists d chat) then (Inl fk_failed, d)
      else (Inr (), d\<lparr>Chats_has_BannedUsers := Chats_has_BannedUsers d @ [(chat, user)]\<rparr>))"

section \<open>Password salt and hash\<close>

definition readOneLineFile :: "DbEnv \<Rightarrow> cstring \<Rightarrow> cstring" where
  "readOneLineFile E path =
     (case first_line E path of None \<Rightarrow> []
      | Some line \<Rightarrow> rev (dropWhile (\<lambda>c. c = CHR 0x0A \<or> c = CHR 0x0D) (rev line)))"

definition readMachineBoundSalt :: "DbEnv \<Rightarrow> cstring" where
  "readMachineBoundSalt E =
     (let i = readOneLineFile E ''/etc/machine-id'' in
      if i \<noteq> [] then i
      else let i = readOneLineFile E ''/var/lib/dbus/machine-id'' in
        if i \<noteq> [] then i else readOneLineFile E ''/sys/class/dmi/id/product_uuid'')"

definition passwordSalt :: "DbEnv \<Rightarrow> cstring" where
  "passwordSalt E =
     (let machine = readMachineBoundSalt E;
          machine = (if machine = [] then ''MEDIC GAMING!'' else machine)
      in machine @ ''|TeleCrap-password-pepper-v1'')"

definition hashPassword :: "DbEnv \<Rightarrow> cstring \<Rightarrow> cstring \<Rightarrow> u64" where
  "hashPassword E salt password = std_hash E (salt @ password)"

definition verifyPassword :: "DbEnv \<Rightarrow> cstring \<Rightarrow> u64 \<Rightarrow> bool" where
  "verifyPassword E password salted_hash \<longleftrightarrow> hashPassword E (passwordSalt E) password = salted_hash"

section \<open>Lookups\<close>

definition row_UserInfo :: "UserRow \<Rightarrow> UserInfo" where
  "row_UserInfo r = \<lparr>ui_Id = getUInt (ur_Id r), ui_Name = fs_of CHATNAME_MAXLENGTH (ur_Name r),
     ui_PasswordHash = getInt64 (ur_PasswordHash r)\<rparr>"

definition row_ChatInfo :: "ChatRow \<Rightarrow> ChatInfo" where
  "row_ChatInfo r = \<lparr>ci_Id = getUInt (chr_Id r), ci_Name = fs_of CHATNAME_MAXLENGTH (chr_Name r),
     ci_OwnerId = getUInt (chr_OwnerId r)\<rparr>"

definition findUserById :: "userid_t option \<Rightarrow> UserInfo option dbM" where
  "findUserById userId = getsM (\<lambda>d. case userId of None \<Rightarrow> None
     | Some i \<Rightarrow> map_option row_UserInfo (List.find (\<lambda>r. ur_Id r = bind_u32 i) (Users d)))"

definition findUserByName :: "fixed_string \<Rightarrow> UserInfo option dbM" where
  "findUserByName name = getsM (\<lambda>d.
     map_option row_UserInfo (List.find (\<lambda>r. ur_Name r = c_str name) (Users d)))"

definition findChatById :: "chatid_t option \<Rightarrow> ChatInfo option dbM" where
  "findChatById chatId = getsM (\<lambda>d. case chatId of None \<Rightarrow> None
     | Some i \<Rightarrow> map_option row_ChatInfo (List.find (\<lambda>r. chr_Id r = bind_u32 i) (Chats d)))"

definition findChatByName :: "DbEnv \<Rightarrow> fixed_string \<Rightarrow> ChatInfo option dbM" where
  "findChatByName E name = getsM (\<lambda>d.
     case order_chats_by_name E (filter (\<lambda>r. chr_Name r = c_str name) (Chats d)) of
       [] \<Rightarrow> None | r # _ \<Rightarrow> Some (row_ChatInfo r))"

text \<open>
  \<open>DirectChatInfo direct{}\<close> leaves the name empty and the owner zero; the query fills in the
  ids only.
\<close>

definition findDirectChat :: "userid_t \<Rightarrow> userid_t \<Rightarrow> DirectChatInfo option dbM" where
  "findDirectChat user1Id user2Id = getsM (\<lambda>d.
     map_option (\<lambda>r. \<lparr>ci_Id = getUInt (dr_ChatId r), ci_Name = fs_default CHATNAME_MAXLENGTH,
         ci_OwnerId = 0, dc_User1Id = getUInt (dr_User1Id r), dc_User2Id = getUInt (dr_User2Id r)\<rparr>)
       (List.find (\<lambda>r. dr_User1Id r = bind_u32 (min user1Id user2Id) \<and>
                       dr_User2Id r = bind_u32 (max user1Id user2Id)) (DirectChats d)))"

definition findDirectChatPeer :: "chatid_t \<Rightarrow> userid_t \<Rightarrow> UserInfo option dbM" where
  "findDirectChatPeer chatId requestorId =
     bindM (getsM (\<lambda>d. List.find (\<lambda>r. dr_ChatId r = bind_u32 chatId) (DirectChats d))) (\<lambda>row.
       case row of None \<Rightarrow> ret None
       | Some r \<Rightarrow>
           (let u1 = getUInt (dr_User1Id r); u2 = getUInt (dr_User2Id r) in
            if requestorId \<noteq> u1 \<and> requestorId \<noteq> u2 then ret None
            else findUserById (Some (if requestorId = u1 then u2 else u1))))"

definition findChatsByUser :: "DbEnv \<Rightarrow> UserInfo \<Rightarrow> ChatInfo list dbM" where
  "findChatsByUser E user = getsM (\<lambda>d. map row_ChatInfo (order_chats E
     (concat (map (\<lambda>c. map (\<lambda>_. c)
         (filter (\<lambda>m. snd m = chr_Id c \<and> fst m = bind_u32 (ui_Id user)) (Users_has_Chats d)))
       (Chats d)))))"

text \<open>Here the hash column is read with \<open>getUInt\<close>, so its upper half is lost.\<close>

definition row_Member :: "UserRow \<Rightarrow> UserInfo" where
  "row_Member r = \<lparr>ui_Id = getUInt (ur_Id r), ui_Name = fs_of CHATNAME_MAXLENGTH (ur_Name r),
     ui_PasswordHash = ucast (getUInt (ur_PasswordHash r))\<rparr>"

definition findMembersByChat :: "DbEnv \<Rightarrow> ChatInfo \<Rightarrow> UserInfo list dbM" where
  "findMembersByChat E chat = getsM (\<lambda>d. map row_Member (order_members E
     (concat (map (\<lambda>u. map (\<lambda>_. u)
         (filter (\<lambda>m. fst m = ur_Id u \<and> snd m = bind_u32 (ci_Id chat)) (Users_has_Chats d)))
       (Users d)))))"

text \<open>
  The loop over the rows: an unknown sender would be a dereferenced empty \<open>optional\<close>; the
  message id and the timestamp are read with \<open>getUInt\<close>.
\<close>

definition row_Message :: "ChatInfo \<Rightarrow> MessageRow \<Rightarrow> Message dbM" where
  "row_Message chat r =
     bindM (findUserById (Some (getUInt (mr_SenderId r)))) (\<lambda>sender.
       case sender of None \<Rightarrow> throw undefined_behaviour
       | Some s \<Rightarrow> ret \<lparr>msg_Id = ucast (getUInt (mr_Id r)),
           msg_DestChat = \<lparr>chat_Id = ci_Id chat, chat_Name = ci_Name chat, chat_Type = ChatType_Group\<rparr>,
           msg_From = \<lparr>user_Id = ui_Id s, user_Name = ui_Name s\<rparr>,
           msg_Timestamp = ucast (getUInt (mr_Timestamp r)),
           msg_Text = fs_of MESSAGETEXT_MAXLENGTH (mr_Text r)\<rparr>)"

primrec row_Messages :: "ChatInfo \<Rightarrow> MessageRow list \<Rightarrow> Message list dbM" where
  "row_Messages chat [] = ret []"
| "row_Messages chat (r # rs) =
     bindM (row_Message chat r) (\<lambda>m. bindM (row_Messages chat rs) (\<lambda>ms. ret (m # ms)))"

definition findMessagesByChat :: "DbEnv \<Rightarrow> ChatInfo \<Rightarrow> Message list dbM" where
  "findMessagesByChat E chat =
     bindM (getsM (\<lambda>d. order_messages E
       (filter (\<lambda>r. mr_ChatId r = bind_u32 (ci_Id chat)) (Messages d)))) (row_Messages chat)"

section \<open>Changes\<close>

definition createUser :: "DbEnv \<Rightarrow> fixed_string \<Rightarrow> fixed_string \<Rightarrow> UserInfo dbM" where
  "createUser E username password =
     transaction (let passwordHash = hashPassword E (passwordSalt E) (c_str password) in
       bindM (insert_Users (c_str username) (bind_i64 passwordHash)) (\<lambda>i.
         ret \<lparr>ui_Id = getUInt i, ui_Name = username, ui_PasswordHash = passwordHash\<rparr>))"

definition createGroupChat :: "UserInfo \<Rightarrow> fixed_string \<Rightarrow> ChatInfo dbM" where
  "createGroupChat ownerInfo chatname =
     transaction (bindM (insert_Chats (c_str chatname) (bind_u32 (ui_Id ownerInfo))) (\<lambda>i.
       let newChatId = getUInt i in
       thenM (insert_Users_has_Chats (bind_u32 newChatId) (bind_u32 (ui_Id ownerInfo)))
         (ret \<lparr>ci_Id = newChatId, ci_Name = chatname, ci_OwnerId = ui_Id ownerInfo\<rparr>)))"

definition direct_chat_name :: "UserInfo \<Rightarrow> UserInfo \<Rightarrow> fixed_string" where
  "direct_chat_name user1 user2 = fs_of CHATNAME_MAXLENGTH
     (''direct_chat_'' @ fs_view (ui_Name user1) @ ''_and_'' @ fs_view (ui_Name user2))"

definition createDirectChat :: "UserInfo \<Rightarrow> UserInfo \<Rightarrow> DirectChatInfo dbM" where
  "createDirectChat user1 user2 =
     bindM (createGroupChat
         \<lparr>ui_Id = SYSTEM_FROMID, ui_Name = fs_default CHATNAME_MAXLENGTH, ui_PasswordHash = 0\<rparr>
         (direct_chat_name user1 user2)) (\<lambda>directChat.
       transaction (
         thenM (insert_Users_has_Chats (bind_u32 (ci_Id directChat)) (bind_u32 (ui_Id user1)))
         (thenM (insert_Users_has_Chats (bind_u32 (ci_Id directChat)) (bind_u32 (ui_Id user2)))
         (thenM (insert_DirectChats (bind_u32 (ci_Id directChat))
                  (bind_u32 (min (ui_Id user1) (ui_Id user2)))
                  (bind_u32 (max (ui_Id user1) (ui_Id user2))))
         (ret \<lparr>ci_Id = ci_Id directChat, ci_Name = ci_Name directChat,
               ci_OwnerId = ci_OwnerId directChat, dc_User1Id = ui_Id user1,
               dc_User2Id = ui_Id user2\<rparr>)))))"

definition joinChatMember :: "ChatInfo \<Rightarrow> UserInfo \<Rightarrow> unit dbM" where
  "joinChatMember chatInfo userInfo =
     insert_ignore_Users_has_Chats (bind_u32 (ui_Id userInfo)) (bind_u32 (ci_Id chatInfo))"

definition commitMessage :: "UserInfo \<Rightarrow> CommitMessageRequest \<Rightarrow> Message dbM" where
  "commitMessage senderInfo message =
     bindM (findChatById (Some (cm_ToChat message))) (\<lambda>chatOpt.
       case chatOpt of None \<Rightarrow> throw (runtime_error ''Chat not found after message commit'')
       | Some chat \<Rightarrow>
         bindM (findUserById (Some (ui_Id senderInfo))) (\<lambda>senderOpt.
           case senderOpt of None \<Rightarrow> throw (runtime_error ''Sender not found after message commit'')
           | Some sender \<Rightarrow>
             bindM (transaction (insert_Messages (bind_i64 (cm_Timestamp message))
                 (c_str (cm_Content message)) (bind_u32 (cm_ToChat message))
                 (bind_u32 (ui_Id senderInfo)))) (\<lambda>i.
               ret \<lparr>msg_Id = getInt64 i,
                 msg_DestChat = \<lparr>chat_Id = ci_Id chat, chat_Name = ci_Name chat,
                   chat_Type = ChatType_Group\<rparr>,
                 msg_From = \<lparr>user_Id = ui_Id sender, user_Name = ui_Name sender\<rparr>,
                 msg_Timestamp = cm_Timestamp message,
                 msg_Text = cm_Content message\<rparr>)))"

definition commitSystemMessage :: "ChatInfo \<Rightarrow> timestamp_t \<Rightarrow> cstring \<Rightarrow> Message dbM" where
  "commitSystemMessage chat ts text =
     bindM (findUserById (Some SYSTEM_FROMID)) (\<lambda>systemOpt.
       case systemOpt of None \<Rightarrow> throw (runtime_error ''System user missing'')
       | Some system \<Rightarrow>
         bindM (transaction (insert_Messages (bind_i64 ts) text (bind_u32 (ci_Id chat))
             (bind_u32 SYSTEM_FROMID))) (\<lambda>i.
           ret \<lparr>msg_Id = getInt64 i,
             msg_DestChat = \<lparr>chat_Id = ci_Id chat, chat_Name = ci_Name chat,
               chat_Type = ChatType_Group\<rparr>,
             msg_From = \<lparr>user_Id = ui_Id system, user_Name = ui_Name system\<rparr>,
             msg_Timestamp = ts,
             msg_Text = fs_of MESSAGETEXT_MAXLENGTH (c_str text)\<rparr>))"

definition isUserBannedFromChat :: "chatid_t \<Rightarrow> userid_t \<Rightarrow> bool dbM" where
  "isUserBannedFromChat chatId userId =
     getsM (\<lambda>d. (bind_u32 chatId, bind_u32 userId) \<in> set (Chats_has_BannedUsers d))"

definition banUserInChat :: "ChatInfo \<Rightarrow> UserInfo \<Rightarrow> unit dbM" where
  "banUserInChat chat target = insert_ignore_BannedUsers (bind_u32 (ci_Id chat)) (bind_u32 (ui_Id target))"

definition unbanUserInChat :: "chatid_t \<Rightarrow> userid_t \<Rightarrow> unit dbM" where
  "unbanUserInChat chatId userId = modifyM (\<lambda>d. d\<lparr>Chats_has_BannedUsers :=
     filter (\<lambda>b. b \<noteq> (bind_u32 chatId, bind_u32 userId)) (Chats_has_BannedUsers d)\<rparr>)"

definition removeMemberFromChat :: "chatid_t \<Rightarrow> userid_t \<Rightarrow> unit dbM" where
  "removeMemberFromChat chatId userId = modifyM (\<lambda>d. d\<lparr>Users_has_Chats :=
     filter (\<lambda>m. m \<noteq> (bind_u32 userId, bind_u32 chatId)) (Users_has_Chats d)\<rparr>)"

definition renameChat :: "ChatInfo \<Rightarrow> fixed_string \<Rightarrow> unit dbM" where
  "renameChat chat newName = modifyM (\<lambda>d. d\<lparr>Chats := map (\<lambda>r.
     if chr_Id r = bind_u32 (ci_Id chat) then r\<lparr>chr_Name := c_str newName\<rparr> else r) (Chats d)\<rparr>)"

text \<open>\<open>Database::Init\<close> on tables that exist: the system user is created when it is not there.\<close>

definition Init :: "unit dbM" where
  "Init = bindM (findUserById (Some SYSTEM_FROMID)) (\<lambda>u.
     case u of Some _ \<Rightarrow> ret ()
     | None \<Rightarrow> thenM (transaction (insert_Users ''SYSTEM'' 0)) (ret ()))"

section \<open>The invariant of the tables\<close>

text \<open>
  Keys are unique and were handed out by AUTOINCREMENT, names of users are unique, every foreign key
  has its row, and a direct chat lists two different users in order.
\<close>

definition users_ok :: "Db \<Rightarrow> bool" where
  "users_ok d \<longleftrightarrow> distinct (map ur_Id (Users d)) \<and> distinct (map ur_Name (Users d)) \<and>
     (\<forall>r\<in>set (Users d). 1 \<le> ur_Id r \<and> ur_Id r \<le> Users_seq d) \<and> 0 \<le> Users_seq d"

definition chats_ok :: "Db \<Rightarrow> bool" where
  "chats_ok d \<longleftrightarrow> distinct (map chr_Id (Chats d)) \<and>
     (\<forall>r\<in>set (Chats d). 1 \<le> chr_Id r \<and> chr_Id r \<le> Chats_seq d \<and> user_exists d (chr_OwnerId r)) \<and>
     0 \<le> Chats_seq d"

definition messages_ok :: "Db \<Rightarrow> bool" where
  "messages_ok d \<longleftrightarrow> sorted_wrt (<) (map mr_Id (Messages d)) \<and>
     (\<forall>r\<in>set (Messages d). 1 \<le> mr_Id r \<and> mr_Id r \<le> Messages_seq d \<and>
        chat_exists d (mr_ChatId r) \<and> user_exists d (mr_SenderId r)) \<and> 0 \<le> Messages_seq d"

definition members_ok :: "Db \<Rightarrow> bool" where
  "members_ok d \<longleftrightarrow> distinct (Users_has_Chats d) \<and>
     (\<forall>(u, c)\<in>set (Users_has_Chats d). user_exists d u \<and> chat_exists d c)"

definition bans_ok :: "Db \<Rightarrow> bool" where
  "bans_ok d \<longleftrightarrow> distinct (Chats_has_BannedUsers d) \<and>
     (\<forall>(c, u)\<in>set (Chats_has_BannedUsers d). user_exists d u \<and> chat_exists d c)"

definition direct_ok :: "Db \<Rightarrow> bool" where
  "direct_ok d \<longleftrightarrow> distinct (map dr_ChatId (DirectChats d)) \<and>
     distinct (map (\<lambda>r. (dr_User1Id r, dr_User2Id r)) (DirectChats d)) \<and>
     (\<forall>r\<in>set (DirectChats d). chat_exists d (dr_ChatId r) \<and> user_exists d (dr_User1Id r) \<and>
        user_exists d (dr_User2Id r) \<and> dr_User1Id r < dr_User2Id r)"

definition Db_ok :: "Db \<Rightarrow> bool" where
  "Db_ok d \<longleftrightarrow> users_ok d \<and> chats_ok d \<and> messages_ok d \<and> members_ok d \<and> bans_ok d \<and> direct_ok d"

lemmas table_ok_defs = users_ok_def chats_ok_def messages_ok_def members_ok_def bans_ok_def direct_ok_def

lemma Db_ok_empty: "Db_ok Db_empty"
  by (simp add: Db_ok_def table_ok_defs Db_empty_def)

lemma exists_upd [simp]:
  "user_exists (d\<lparr>Users := Users d @ [r], Users_seq := k\<rparr>) i \<longleftrightarrow> user_exists d i \<or> i = ur_Id r"
  "chat_exists (d\<lparr>Users := us, Users_seq := k\<rparr>) i \<longleftrightarrow> chat_exists d i"
  "user_exists (d\<lparr>Chats := cs, Chats_seq := k\<rparr>) i \<longleftrightarrow> user_exists d i"
  "chat_exists (d\<lparr>Chats := Chats d @ [c], Chats_seq := k\<rparr>) i \<longleftrightarrow> chat_exists d i \<or> i = chr_Id c"
  "user_exists (d\<lparr>Chats := cs\<rparr>) i \<longleftrightarrow> user_exists d i"
  "user_exists (d\<lparr>Messages := ms, Messages_seq := k\<rparr>) i \<longleftrightarrow> user_exists d i"
  "chat_exists (d\<lparr>Messages := ms, Messages_seq := k\<rparr>) i \<longleftrightarrow> chat_exists d i"
  "user_exists (d\<lparr>Users_has_Chats := hs\<rparr>) i \<longleftrightarrow> user_exists d i"
  "chat_exists (d\<lparr>Users_has_Chats := hs\<rparr>) i \<longleftrightarrow> chat_exists d i"
  "user_exists (d\<lparr>Chats_has_BannedUsers := bs\<rparr>) i \<longleftrightarrow> user_exists d i"
  "chat_exists (d\<lparr>Chats_has_BannedUsers := bs\<rparr>) i \<longleftrightarrow> chat_exists d i"
  "user_exists (d\<lparr>DirectChats := ds\<rparr>) i \<longleftrightarrow> user_exists d i"
  "chat_exists (d\<lparr>DirectChats := ds\<rparr>) i \<longleftrightarrow> chat_exists d i"
  by (auto simp: user_exists_def chat_exists_def)

subsection \<open>Every statement keeps it\<close>

lemma fresh_id: "\<forall>r\<in>set rs. 1 \<le> f r \<and> f r \<le> (k::int) \<Longrightarrow> k + 1 \<notin> f ` set rs"
  by fastforce

lemma insert_Users_ok [pres]: "preserves Db_ok (insert_Users n h)"
proof (rule preservesI)
  fix d assume ok: "Db_ok d"
  then have "Users_seq d + 1 \<notin> ur_Id ` set (Users d)"
    by (intro fresh_id) (simp add: Db_ok_def users_ok_def)
  with ok show "Db_ok (snd (insert_Users n h d))"
    by (fastforce simp: Db_ok_def table_ok_defs insert_Users_def Let_def)
qed

lemma insert_Chats_ok [pres]: "preserves Db_ok (insert_Chats n w)"
proof (rule preservesI)
  fix d assume ok: "Db_ok d"
  then have "Chats_seq d + 1 \<notin> chr_Id ` set (Chats d)"
    by (intro fresh_id) (auto simp: Db_ok_def chats_ok_def)
  with ok show "Db_ok (snd (insert_Chats n w d))"
    by (fastforce simp: Db_ok_def table_ok_defs insert_Chats_def Let_def)
qed

lemma insert_Messages_ok [pres]: "preserves Db_ok (insert_Messages ts t c u)"
  by (rule preservesI)
    (fastforce simp: Db_ok_def table_ok_defs insert_Messages_def Let_def sorted_wrt_append)

lemma insert_Users_has_Chats_ok [pres]: "preserves Db_ok (insert_Users_has_Chats c u)"
  by (rule preservesI) (auto simp: Db_ok_def table_ok_defs insert_Users_has_Chats_def)

lemma insert_ignore_ok [pres]: "preserves Db_ok (insert_ignore_Users_has_Chats u c)"
  by (rule preservesI) (auto simp: Db_ok_def table_ok_defs insert_ignore_Users_has_Chats_def)

lemma insert_ban_ok [pres]: "preserves Db_ok (insert_ignore_BannedUsers c u)"
  by (rule preservesI) (auto simp: Db_ok_def table_ok_defs insert_ignore_BannedUsers_def)

lemma insert_DirectChats_ok [pres]: "u1 < u2 \<Longrightarrow> preserves Db_ok (insert_DirectChats c u1 u2)"
  by (rule preservesI) (auto simp: Db_ok_def table_ok_defs insert_DirectChats_def)

lemma transaction_ok [pres]: "preserves I m \<Longrightarrow> preserves I (transaction m)"
  by (fastforce simp: preserves_def transaction_def split: prod.splits sum.splits)

text \<open>A transaction that throws leaves the tables as they were.\<close>

lemma transaction_atomic: "fst (transaction m d) = Inl e \<Longrightarrow> snd (transaction m d) = d"
  by (auto simp: transaction_def split: prod.splits sum.splits)

subsection \<open>Every operation keeps it\<close>

lemma lookups_readonly:
  "readonly (findUserById i)" "readonly (findUserByName n)" "readonly (findChatById c)"
  "readonly (findChatByName E n)" "readonly (findDirectChat u v)" "readonly (findChatsByUser E ui)"
  "readonly (findMembersByChat E ci)" "readonly (isUserBannedFromChat ch u)"
  by (simp_all add: findUserById_def findUserByName_def findChatById_def findChatByName_def
      findDirectChat_def findChatsByUser_def findMembersByChat_def isUserBannedFromChat_def
      readonly_getsM)

lemma findDirectChatPeer_readonly: "readonly (findDirectChatPeer c u)"
  by (auto simp: findDirectChatPeer_def Let_def split: option.splits
      intro!: readonly_bindM readonly_getsM readonly_ret lookups_readonly)

lemma row_Messages_readonly: "readonly (row_Messages c rs)"
  by (induction rs) (auto simp: row_Message_def split: option.splits
      intro!: readonly_bindM readonly_ret readonly_throw lookups_readonly)

lemma findMessagesByChat_readonly: "readonly (findMessagesByChat E c)"
  by (auto simp: findMessagesByChat_def intro!: readonly_bindM readonly_getsM row_Messages_readonly)

lemmas db_readonly = lookups_readonly findDirectChatPeer_readonly findMessagesByChat_readonly
lemmas db_readonly_pres [pres] = db_readonly [THEN readonly_preserves]

lemma bind_u32_mono: "a < b \<Longrightarrow> bind_u32 a < bind_u32 b"
  by (simp add: bind_u32_def word_less_def)

lemma createUser_ok [pres]: "preserves Db_ok (createUser E n p)"
  unfolding createUser_def Let_def by (intro pres)

lemma createGroupChat_ok [pres]: "preserves Db_ok (createGroupChat w n)"
  unfolding createGroupChat_def Let_def by (intro pres)

lemma joining_twice:
  "thenM (insert_Users_has_Chats c u) (thenM (insert_Users_has_Chats c u) m) d =
     (Inl (case insert_Users_has_Chats c u d of (Inl e, _) \<Rightarrow> e
           | _ \<Rightarrow> unique_failed ''Users_has_Chats.UserId, Users_has_Chats.ChatId''),
      snd (insert_Users_has_Chats c u d))"
  by (auto simp: monad_defs insert_Users_has_Chats_def)

lemma createDirectChat_ok [pres]: "preserves Db_ok (createDirectChat u1 u2)"
proof (cases "ui_Id u1 = ui_Id u2")
  case True
  have "preserves Db_ok (thenM (insert_Users_has_Chats c u) (thenM (insert_Users_has_Chats c u) m))"
    for c u and m :: "DirectChatInfo dbM"
    using insert_Users_has_Chats_ok by (simp add: preserves_def joining_twice)
  then show ?thesis unfolding createDirectChat_def True
    by (intro preserves_bindM createGroupChat_ok transaction_ok)
next
  case False
  then have "bind_u32 (min (ui_Id u1) (ui_Id u2)) < bind_u32 (max (ui_Id u1) (ui_Id u2))"
    by (intro bind_u32_mono) (auto simp: min_def max_def)
  then show ?thesis unfolding createDirectChat_def by (intro pres)
qed

lemma member_ops_ok [pres]:
  "preserves Db_ok (joinChatMember c u)" "preserves Db_ok (banUserInChat c u)"
  unfolding joinChatMember_def banUserInChat_def by (intro pres)+

lemma unban_ok [pres]: "preserves Db_ok (unbanUserInChat c u)"
  unfolding unbanUserInChat_def
  by (rule preserves_modifyM) (auto simp: Db_ok_def table_ok_defs)

lemma removeMember_ok [pres]: "preserves Db_ok (removeMemberFromChat c u)"
  unfolding removeMemberFromChat_def
  by (rule preserves_modifyM) (auto simp: Db_ok_def table_ok_defs)

lemma commits_ok [pres]:
  "preserves Db_ok (commitMessage s m)" "preserves Db_ok (commitSystemMessage c ts t)"
  unfolding commitMessage_def commitSystemMessage_def by (intro pres)+

lemma renameChat_ok [pres]: "preserves Db_ok (renameChat c n)"
proof -
  define f where "f r = (if chr_Id r = bind_u32 (ci_Id c) then r\<lparr>chr_Name := c_str n\<rparr> else r)" for r :: ChatRow
  have f: "chr_Id (f r) = chr_Id r" "chr_OwnerId (f r) = chr_OwnerId r" for r
    by (simp_all add: f_def)
  have ex: "chat_exists (d\<lparr>Chats := map f (Chats d)\<rparr>) i = chat_exists d i" for d i
    by (simp add: chat_exists_def image_image f)
  have "preserves Db_ok (modifyM (\<lambda>d. d\<lparr>Chats := map f (Chats d)\<rparr>))"
    by (intro preserves_modifyM) (simp add: Db_ok_def table_ok_defs ex comp_def f)
  then show ?thesis unfolding renameChat_def f_def [abs_def] .
qed

lemma Init_ok [pres]: "preserves Db_ok Init"
  unfolding Init_def by (intro pres)

section \<open>Exceptions and frames of the operations\<close>

lemma transaction_noUB [noub]: "noUB m \<Longrightarrow> noUB (transaction m)"
  unfolding noUB_def transaction_def by (auto split: prod.splits sum.splits) (metis fst_conv)+

lemma transaction_keeps [frames]: "keeps f m \<Longrightarrow> keeps f (transaction m)"
  unfolding keeps_def transaction_def by (auto split: prod.splits sum.splits) (metis snd_conv)+

lemma statements_noUB [noub]:
  "noUB (insert_Users n h)" "noUB (insert_Chats n w)" "noUB (insert_Messages ts t c u)"
  "noUB (insert_Users_has_Chats c u)" "noUB (insert_DirectChats c u v)"
  "noUB (insert_ignore_Users_has_Chats u c)" "noUB (insert_ignore_BannedUsers c u)"
  by (simp_all add: noUB_def insert_Users_def insert_Chats_def insert_Messages_def Let_def
      insert_Users_has_Chats_def insert_DirectChats_def insert_ignore_Users_has_Chats_def
      insert_ignore_BannedUsers_def unique_failed_def fk_failed_def disk_full_def)

text \<open>The accounts: only \<open>createUser\<close> (and \<open>Init\<close>) changes them.\<close>

definition accounts :: "Db \<Rightarrow> UserRow list \<times> int" where
  "accounts d = (Users d, Users_seq d)"

lemma statements_keep_accounts [frames]:
  "keeps accounts (insert_Chats n w)" "keeps accounts (insert_Messages ts t c u)"
  "keeps accounts (insert_Users_has_Chats c u)" "keeps accounts (insert_DirectChats c u v)"
  "keeps accounts (insert_ignore_Users_has_Chats u c)" "keeps accounts (insert_ignore_BannedUsers c u)"
  by (simp_all add: keeps_def accounts_def insert_Chats_def insert_Messages_def Let_def
      insert_Users_has_Chats_def insert_DirectChats_def insert_ignore_Users_has_Chats_def
      insert_ignore_BannedUsers_def)

lemma operations_noUB [noub]:
  "noUB (findUserById ui)" "noUB (findUserByName n)" "noUB (findChatById ci)"
  "noUB (findChatByName E n)" "noUB (findDirectChat u v)" "noUB (findDirectChatPeer c u)"
  "noUB (findChatsByUser E x)" "noUB (findMembersByChat E y)" "noUB (isUserBannedFromChat c u)"
  "noUB (createUser E n p)" "noUB (createGroupChat x n)" "noUB (createDirectChat x z)"
  "noUB (joinChatMember y x)" "noUB (commitMessage x m)" "noUB (commitSystemMessage y ts t)"
  "noUB (banUserInChat y x)" "noUB (unbanUserInChat c u)" "noUB (removeMemberFromChat c u)"
  "noUB (renameChat y n)"
  unfolding findUserById_def findUserByName_def findChatById_def findChatByName_def
    findDirectChat_def findDirectChatPeer_def findChatsByUser_def findMembersByChat_def
    isUserBannedFromChat_def createUser_def createGroupChat_def createDirectChat_def
    joinChatMember_def commitMessage_def commitSystemMessage_def banUserInChat_def
    unbanUserInChat_def removeMemberFromChat_def renameChat_def Let_def
  by (intro noub; simp)+

lemma operations_keep_accounts [frames]:
  "keeps accounts (createGroupChat x n)" "keeps accounts (createDirectChat x z)"
  "keeps accounts (joinChatMember y x)" "keeps accounts (commitMessage x m)"
  "keeps accounts (commitSystemMessage y ts t)" "keeps accounts (banUserInChat y x)"
  "keeps accounts (unbanUserInChat c u)" "keeps accounts (removeMemberFromChat c u)"
  "keeps accounts (renameChat y n)"
  unfolding createGroupChat_def createDirectChat_def joinChatMember_def commitMessage_def
    commitSystemMessage_def banUserInChat_def unbanUserInChat_def removeMemberFromChat_def
    renameChat_def Let_def
  by (intro frames readonly_keeps [OF lookups_readonly(1)] readonly_keeps [OF lookups_readonly(3)]
      keeps_modifyM; simp add: accounts_def)+

lemma keeps_accounts: "keeps accounts m \<Longrightarrow> keeps Users_seq m"
  by (simp add: keeps_def accounts_def)

lemmas operations_keep_Users = operations_keep_accounts [THEN keeps_accounts]

end
