(* ===== verification/Database_Laws.thy ===== *)
theory Database_Laws
  imports Database "HOL-Library.Sublist"
begin

text \<open>
  What the operations of \<open>Database\<close> promise to their callers: which rows a lookup returns, what each
  change does to the tables, the membership interface the moderation commands rely on, and the
  history of a chat. Properties C4 to C8.
\<close>

section \<open>What the lookups return\<close>

text \<open>User ids that fit in the 32 bits they are read back with.\<close>

definition ids_small :: "Db \<Rightarrow> bool" where
  "ids_small d \<longleftrightarrow> Users_seq d < 2 ^ 32"

definition is_member :: "Db \<Rightarrow> userid_t \<Rightarrow> chatid_t \<Rightarrow> bool" where
  "is_member d u c \<longleftrightarrow> (bind_u32 u, bind_u32 c) \<in> set (Users_has_Chats d)"

definition is_banned :: "Db \<Rightarrow> chatid_t \<Rightarrow> userid_t \<Rightarrow> bool" where
  "is_banned d c u \<longleftrightarrow> (bind_u32 c, bind_u32 u) \<in> set (Chats_has_BannedUsers d)"

lemma filter_pair:
  "distinct xs \<Longrightarrow>
   filter (\<lambda>m. fst m = a \<and> snd m = b) xs = (if (a, b) \<in> set xs then [(a, b)] else [])"
  by (induction xs) auto

lemma filter_pair':
  "distinct xs \<Longrightarrow>
   filter (\<lambda>m. snd m = b \<and> fst m = a) xs = (if (a, b) \<in> set xs then [(a, b)] else [])"
  using filter_pair [of xs a b] by (simp add: conj_commute)

lemma concat_select: "concat (map (\<lambda>x. if P x then [x] else []) xs) = filter P xs"
  by (induction xs) auto

text \<open>The JOIN of \<open>findMembersByChat\<close> and of \<open>findChatsByUser\<close>.\<close>

lemma members_join:
  assumes "distinct (Users_has_Chats d)"
  shows "concat (map (\<lambda>u. map (\<lambda>_. u)
           (filter (\<lambda>m. fst m = ur_Id u \<and> snd m = c) (Users_has_Chats d))) (Users d)) =
         filter (\<lambda>u. (ur_Id u, c) \<in> set (Users_has_Chats d)) (Users d)"
  unfolding filter_pair [OF assms]
  by (subst concat_select [symmetric]) (rule arg_cong [where f = concat], rule map_cong, auto)

lemma chats_join:
  assumes "distinct (Users_has_Chats d)"
  shows "concat (map (\<lambda>c. map (\<lambda>_. c)
           (filter (\<lambda>m. snd m = chr_Id c \<and> fst m = u) (Users_has_Chats d))) (Chats d)) =
         filter (\<lambda>c. (u, chr_Id c) \<in> set (Users_has_Chats d)) (Chats d)"
  unfolding filter_pair' [OF assms]
  by (subst concat_select [symmetric]) (rule arg_cong [where f = concat], rule map_cong, auto)

lemma mset_eq_map_distinct: "mset xs = mset ys \<Longrightarrow> distinct (map f xs) \<longleftrightarrow> distinct (map f ys)"
  by (metis mset_eq_imp_distinct_iff mset_map)

lemma distinct_getUInt:
  assumes "distinct (map f xs)" and "\<forall>x\<in>set xs. 1 \<le> f x \<and> f x \<le> k" and "k < 2 ^ 32"
  shows "distinct (map (\<lambda>x. getUInt (f x)) xs)"
proof -
  have "inj_on getUInt (f ` set xs)"
    by (rule inj_on_inverseI [where g = bind_u32]) (use assms in \<open>auto intro!: bind_getUInt\<close>)
  with assms(1) have "distinct (map getUInt (map f xs))"
    by (simp add: distinct_map comp_inj_on)
  then show ?thesis by (simp add: comp_def)
qed

lemma findMembersByChat_spec:
  assumes E: "DbEnv_ok E" and ok: "Db_ok d" and small: "ids_small d"
    and run: "findMembersByChat E c d = (Inr ms, d')"
  shows "d' = d" and "distinct (map ui_Id ms)" and "ui_Id ` set ms = {u. is_member d u (ci_Id c)}"
proof -
  let ?rows = "filter (\<lambda>u. (ur_Id u, bind_u32 (ci_Id c)) \<in> set (Users_has_Chats d)) (Users d)"
  have D: "distinct (Users_has_Chats d)" using ok by (simp add: Db_ok_def members_ok_def)
  have ms: "ms = map row_Member (order_members E ?rows)" and "d' = d"
    using run unfolding findMembersByChat_def getsM_def members_join [OF D] by auto
  then show "d' = d" by simp
  have ord: "mset (order_members E ?rows) = mset ?rows" using E by (simp add: DbEnv_ok_def)
  have u: "distinct (map ur_Id (Users d))" "\<forall>r\<in>set (Users d). 1 \<le> ur_Id r \<and> ur_Id r \<le> Users_seq d"
    "Users_seq d < 2 ^ 32"
    using ok small by (auto simp: Db_ok_def users_ok_def ids_small_def)
  have "distinct (map (\<lambda>x. getUInt (ur_Id x)) ?rows)"
    by (rule distinct_getUInt) (use u in \<open>auto simp: distinct_map_filter\<close>)
  then show "distinct (map ui_Id ms)"
    unfolding ms using mset_eq_map_distinct [OF ord, of "\<lambda>x. getUInt (ur_Id x)"]
    by (simp add: comp_def row_Member_def)
  have rt: "bind_u32 (getUInt (ur_Id r)) = ur_Id r" if "r \<in> set (Users d)" for r
    using u that by (intro bind_getUInt) fastforce+
  have ex: "\<exists>r\<in>set (Users d). ur_Id r = bind_u32 u" if "is_member d u (ci_Id c)" for u
    using ok that by (fastforce simp: Db_ok_def members_ok_def user_exists_def is_member_def)
  have "ui_Id ` set ms = (\<lambda>r. getUInt (ur_Id r)) ` set ?rows"
    unfolding ms using mset_eq_setD [OF ord] by (simp add: image_image row_Member_def)
  also have "\<dots> = {u. is_member d u (ci_Id c)}"
    using rt ex by (force simp: is_member_def image_iff)
  finally show "ui_Id ` set ms = {u. is_member d u (ci_Id c)}" .
qed

lemma findUserById_Some:
  "findUserById (Some u) d = (Inr (Some ui), d') \<Longrightarrow>
   d' = d \<and> ui_Id ui = u \<and> user_exists d (bind_u32 u)"
  by (auto simp: findUserById_def getsM_def row_UserInfo_def user_exists_def dest!: find_SomeD
      intro: rev_image_eqI)

lemma findUserById_None:
  "findUserById (Some u) d = (Inr None, d') \<longleftrightarrow> d' = d \<and> \<not> user_exists d (bind_u32 u)"
  by (force simp: findUserById_def getsM_def user_exists_def find_None_iff)

lemma findChatById_Some:
  "findChatById (Some c) d = (Inr (Some ci), d') \<Longrightarrow>
   d' = d \<and> ci_Id ci = c \<and> chat_exists d (bind_u32 c)"
  by (auto simp: findChatById_def getsM_def row_ChatInfo_def chat_exists_def dest!: find_SomeD
      intro: rev_image_eqI)

text \<open>The owner of the chat as its row has it.\<close>

lemma findChatById_row:
  "Db_ok d \<Longrightarrow> r \<in> set (Chats d) \<Longrightarrow> chr_Id r = bind_u32 c \<Longrightarrow>
   findChatById (Some c) d = (Inr (Some (row_ChatInfo r)), d)"
  using find_only [of chr_Id "Chats d" r]
  by (simp add: findChatById_def getsM_def Db_ok_def chats_ok_def)

lemma findUserByName_row:
  "Db_ok d \<Longrightarrow> r \<in> set (Users d) \<Longrightarrow> ur_Name r = c_str n \<Longrightarrow>
   findUserByName n d = (Inr (Some (row_UserInfo r)), d)"
  using find_only [of ur_Name "Users d" r]
  by (simp add: findUserByName_def getsM_def Db_ok_def users_ok_def)

lemma findUserById_row:
  "Db_ok d \<Longrightarrow> r \<in> set (Users d) \<Longrightarrow> ur_Id r = bind_u32 u \<Longrightarrow>
   findUserById (Some u) d = (Inr (Some (row_UserInfo r)), d)"
  using find_only [of ur_Id "Users d" r]
  by (simp add: findUserById_def getsM_def Db_ok_def users_ok_def)

section \<open>What the changes do\<close>

lemma createUser_run:
  "createUser E n p d =
     (if c_str n \<in> ur_Name ` set (Users d) then (Inl (unique_failed ''Users.Name''), d)
      else if Users_seq d \<ge> sqlite_max then (Inl disk_full, d)
      else (Inr \<lparr>ui_Id = getUInt (Users_seq d + 1), ui_Name = n,
                ui_PasswordHash = hashPassword E (passwordSalt E) (c_str p)\<rparr>,
            d\<lparr>Users := Users d @ [\<lparr>ur_Id = Users_seq d + 1, ur_Name = c_str n,
                ur_PasswordHash = bind_i64 (hashPassword E (passwordSalt E) (c_str p))\<rparr>],
              Users_seq := Users_seq d + 1\<rparr>))"
  by (simp add: createUser_def transaction_def insert_Users_def monad_defs Let_def)

lemma is_member_upd [simp]:
  "is_member (d\<lparr>Users := us, Users_seq := k\<rparr>) u c = is_member d u c"
  "is_member (d\<lparr>Messages := ms, Messages_seq := k\<rparr>) u c = is_member d u c"
  "is_member (d\<lparr>Chats_has_BannedUsers := bs\<rparr>) u c = is_member d u c"
  "is_member (d\<lparr>Chats := cs\<rparr>) u c = is_member d u c"
  "is_banned (d\<lparr>Users := us, Users_seq := k\<rparr>) c u = is_banned d c u"
  "is_banned (d\<lparr>Messages := ms, Messages_seq := k\<rparr>) c u = is_banned d c u"
  "is_banned (d\<lparr>Users_has_Chats := hs\<rparr>) c u = is_banned d c u"
  "is_banned (d\<lparr>Chats := cs\<rparr>) c u = is_banned d c u"
  by (simp_all add: is_member_def is_banned_def)

text \<open>
  C4. Registration and login agree: the account \<open>createUser\<close> made is the one
  \<open>findUserByName\<close> finds under that name, with the id that was returned, and the password it was
  registered with, and every password with the same hash, verifies; no other account changes.
\<close>

theorem created_user_can_log_in:
  assumes "Db_ok d" and "createUser E username password d = (Inr u, d')"
    and "fs_wf CHATNAME_MAXLENGTH username" and "fs_terminated username"
  shows "\<exists>v. findUserByName username d' = (Inr (Some v), d') \<and> ui_Id v = ui_Id u \<and>
           fs_eq (ui_Name v) username \<and> verifyPassword E (c_str password) (ui_PasswordHash v) \<and>
           (\<forall>i. i \<noteq> ui_Id u \<longrightarrow> fst (findUserById (Some i) d') = fst (findUserById (Some i) d))"
proof -
  let ?r = "\<lparr>ur_Id = Users_seq d + 1, ur_Name = c_str username,
     ur_PasswordHash = bind_i64 (hashPassword E (passwordSalt E) (c_str password))\<rparr>"
  have d': "d' = d\<lparr>Users := Users d @ [?r], Users_seq := Users_seq d + 1\<rparr>"
    and u: "ui_Id u = getUInt (Users_seq d + 1)"
    using assms(2) by (auto simp: createUser_run split: if_splits)
  have "Db_ok d'" using preservesD [OF createUser_ok assms(1)] assms(2) by (metis snd_conv)
  then have "findUserByName username d' = (Inr (Some (row_UserInfo ?r)), d')"
    by (rule findUserByName_row) (simp_all add: d')
  moreover have "fs_eq (ui_Name (row_UserInfo ?r)) username"
    using assms(3,4) by (simp add: row_UserInfo_def fs_eq_def take_c_str_buf)
  moreover have "fst (findUserById (Some i) d') = fst (findUserById (Some i) d)" if "i \<noteq> ui_Id u" for i
  proof -
    have "Users_seq d + 1 \<noteq> bind_u32 i" using that u by (metis getUInt_bind)
    then show ?thesis by (simp add: findUserById_def getsM_def d' find_append split: option.splits)
  qed
  ultimately show ?thesis
    by (intro exI [of _ "row_UserInfo ?r"]) (simp add: u row_UserInfo_def verifyPassword_def)
qed

text \<open>Rows in the order of their keys, no machine identity: a concrete environment.\<close>

definition DbEnv_plain :: DbEnv where
  "DbEnv_plain = \<lparr>first_line = (\<lambda>_. None), std_hash = (\<lambda>s. of_nat (length s)),
     order_chats_by_name = id, order_chats = id, order_members = id, order_messages = id\<rparr>"

lemma DbEnv_plain_ok: "DbEnv_ok DbEnv_plain"
  by (simp add: DbEnv_ok_def DbEnv_plain_def)

definition Db_fresh :: Db where
  "Db_fresh = snd (Init Db_empty)"

lemma Db_fresh_ok: "Db_ok Db_fresh"
  unfolding Db_fresh_def by (rule preservesD [OF Init_ok Db_ok_empty])

lemma Db_fresh_tables:
  "Db_fresh = Db_empty\<lparr>Users := [\<lparr>ur_Id = 1, ur_Name = ''SYSTEM'', ur_PasswordHash = 0\<rparr>], Users_seq := 1\<rparr>"
  by (simp add: Db_fresh_def Init_def findUserById_def Db_empty_def transaction_def insert_Users_def
      sqlite_max_def monad_defs)

theorem created_user_can_log_in_witness:
  "\<exists>v. findUserByName (fs_of CHATNAME_MAXLENGTH ''ann'')
          (snd (createUser DbEnv_plain (fs_of CHATNAME_MAXLENGTH ''ann'') (fs_of PASSWORD_MAXLENGTH ''pw'') Db_fresh)) =
        (Inr (Some v), snd (createUser DbEnv_plain (fs_of CHATNAME_MAXLENGTH ''ann'')
           (fs_of PASSWORD_MAXLENGTH ''pw'') Db_fresh)) \<and> ui_Id v = 2"
proof -
  let ?n = "fs_of CHATNAME_MAXLENGTH ''ann''" and ?p = "fs_of PASSWORD_MAXLENGTH ''pw''"
  let ?r = "createUser DbEnv_plain ?n ?p Db_fresh"
  have n: "c_str ?n = ''ann''"
    unfolding c_str_fs_of by (simp add: c_str_def NUL_def CHATNAME_MAXLENGTH_def)
  have "\<exists>u. fst ?r = Inr u \<and> ui_Id u = 2"
    by (simp add: createUser_run n Db_fresh_tables Db_empty_def sqlite_max_def getUInt_def
        del: c_str_fs_of)
  then obtain u where u: "fst ?r = Inr u" "ui_Id u = 2" by blast
  then have run: "?r = (Inr u, snd ?r)" by (metis prod.collapse)
  have t: "fs_terminated ?n" by (simp add: fs_of_def)
  show ?thesis
    using created_user_can_log_in [OF Db_fresh_ok run fs_wf_of t] u(2) by auto
qed

lemma ids_bound:
  "Db_ok d \<Longrightarrow> (i, c) \<in> set (Users_has_Chats d) \<Longrightarrow> c \<le> Chats_seq d"
  "Db_ok d \<Longrightarrow> (c, i) \<in> set (Chats_has_BannedUsers d) \<Longrightarrow> c \<le> Chats_seq d"
  "Db_ok d \<Longrightarrow> r \<in> set (DirectChats d) \<Longrightarrow> dr_ChatId r \<le> Chats_seq d"
  by (fastforce simp: Db_ok_def members_ok_def bans_ok_def direct_ok_def chat_exists_def chats_ok_def)+

text \<open>\<open>createGroupChat\<close> adds the chat and its owner's membership, or nothing.\<close>

lemma createGroupChat_run:
  assumes ok: "Db_ok d" and small: "Chats_seq d + 1 < 2 ^ 32"
  shows "createGroupChat w n d =
    (if user_exists d (bind_u32 (ui_Id w))
     then (Inr \<lparr>ci_Id = getUInt (Chats_seq d + 1), ci_Name = n, ci_OwnerId = ui_Id w\<rparr>,
           d\<lparr>Chats := Chats d @ [\<lparr>chr_Id = Chats_seq d + 1, chr_OwnerId = bind_u32 (ui_Id w),
               chr_Name = c_str n\<rparr>], Chats_seq := Chats_seq d + 1,
             Users_has_Chats := Users_has_Chats d @ [(bind_u32 (ui_Id w), Chats_seq d + 1)]\<rparr>)
     else (Inl fk_failed, d))"
proof -
  have pos: "0 \<le> Chats_seq d" using ok by (simp add: Db_ok_def chats_ok_def)
  have i: "bind_u32 (getUInt (Chats_seq d + 1)) = Chats_seq d + 1"
    using pos small by (intro bind_getUInt) auto
  have "(bind_u32 (ui_Id w), Chats_seq d + 1) \<notin> set (Users_has_Chats d)"
    using ids_bound(1) [OF ok] by force
  then show ?thesis
    using small by (simp add: createGroupChat_def transaction_def insert_Chats_def
        insert_Users_has_Chats_def monad_defs Let_def i sqlite_max_def)
qed

text \<open>The tables after the first of the two transactions of \<open>createDirectChat\<close>.\<close>

definition with_direct_chat :: "cstring \<Rightarrow> Db \<Rightarrow> Db" where
  "with_direct_chat n d = d\<lparr>Chats := Chats d @ [\<lparr>chr_Id = Chats_seq d + 1, chr_OwnerId = 1, chr_Name = n\<rparr>],
     Chats_seq := Chats_seq d + 1, Users_has_Chats := Users_has_Chats d @ [(1, Chats_seq d + 1)]\<rparr>"

lemma bind_SYSTEM [simp]: "bind_u32 SYSTEM_FROMID = 1"
  by (simp add: bind_u32_def SYSTEM_FROMID_def)

lemma createDirectChat_group:
  assumes "Db_ok d" and "Chats_seq d + 1 < 2 ^ 32" and "user_exists d 1"
  shows "createGroupChat \<lparr>ui_Id = SYSTEM_FROMID, ui_Name = fs_default CHATNAME_MAXLENGTH, ui_PasswordHash = 0\<rparr> n d =
    (Inr \<lparr>ci_Id = getUInt (Chats_seq d + 1), ci_Name = n, ci_OwnerId = SYSTEM_FROMID\<rparr>,
     with_direct_chat (c_str n) d)"
    and "bind_u32 (getUInt (Chats_seq d + 1)) = Chats_seq d + 1"
    and "(u, Chats_seq d + 1) \<in> set (Users_has_Chats (with_direct_chat m d)) \<longleftrightarrow> u = 1"
    and "Chats_seq d + 1 \<notin> dr_ChatId ` set (DirectChats d)"
proof -
  have pos: "0 \<le> Chats_seq d" using assms by (simp add: Db_ok_def chats_ok_def)
  then show "bind_u32 (getUInt (Chats_seq d + 1)) = Chats_seq d + 1"
    using assms by (intro bind_getUInt) auto
  show "createGroupChat \<lparr>ui_Id = SYSTEM_FROMID, ui_Name = fs_default CHATNAME_MAXLENGTH, ui_PasswordHash = 0\<rparr> n d =
    (Inr \<lparr>ci_Id = getUInt (Chats_seq d + 1), ci_Name = n, ci_OwnerId = SYSTEM_FROMID\<rparr>,
     with_direct_chat (c_str n) d)"
    using createGroupChat_run [OF assms(1,2)] assms(3) by (simp add: with_direct_chat_def)
  show "(u, Chats_seq d + 1) \<in> set (Users_has_Chats (with_direct_chat m d)) \<longleftrightarrow> u = 1"
    using ids_bound(1) [OF assms(1)] by (force simp: with_direct_chat_def)
  show "Chats_seq d + 1 \<notin> dr_ChatId ` set (DirectChats d)"
    using ids_bound(3) [OF assms(1)] by force
qed

lemma with_direct_chat_simps [simp]:
  "Users (with_direct_chat n d) = Users d" "DirectChats (with_direct_chat n d) = DirectChats d"
  "Chats_has_BannedUsers (with_direct_chat n d) = Chats_has_BannedUsers d"
  "Messages (with_direct_chat n d) = Messages d"
  "user_exists (with_direct_chat n d) u = user_exists d u"
  "chat_exists (with_direct_chat n d) c \<longleftrightarrow> chat_exists d c \<or> c = Chats_seq d + 1"
  by (auto simp: with_direct_chat_def user_exists_def chat_exists_def)

lemma bind_u32_1 [simp]: "bind_u32 u = 1 \<longleftrightarrow> u = SYSTEM_FROMID"
  by (metis bind_SYSTEM bind_u32_eq_iff)

lemma bind_min_max:
  "bind_u32 (min a b) = min (bind_u32 a) (bind_u32 b)" "bind_u32 (max a b) = max (bind_u32 a) (bind_u32 b)"
  by (auto simp: min_def max_def bind_u32_def word_le_def)

lemma createDirectChat_run:
  assumes "Db_ok d" and "Chats_seq d + 1 < 2 ^ 32" and "user_exists d 1"
    and "user_exists d (bind_u32 (ui_Id u1))" and "user_exists d (bind_u32 (ui_Id u2))"
    and "ui_Id u1 \<noteq> ui_Id u2" and "ui_Id u1 \<noteq> SYSTEM_FROMID" and "ui_Id u2 \<noteq> SYSTEM_FROMID"
    and "findDirectChat (ui_Id u1) (ui_Id u2) d = (Inr None, d)"
  shows "createDirectChat u1 u2 d =
    (Inr \<lparr>ci_Id = getUInt (Chats_seq d + 1), ci_Name = direct_chat_name u1 u2,
        ci_OwnerId = SYSTEM_FROMID, dc_User1Id = ui_Id u1, dc_User2Id = ui_Id u2\<rparr>,
     (with_direct_chat (c_str (direct_chat_name u1 u2)) d)\<lparr>
        Users_has_Chats := Users_has_Chats d @ [(1, Chats_seq d + 1),
          (bind_u32 (ui_Id u1), Chats_seq d + 1), (bind_u32 (ui_Id u2), Chats_seq d + 1)],
        DirectChats := DirectChats d @ [\<lparr>dr_ChatId = Chats_seq d + 1,
          dr_User1Id = bind_u32 (min (ui_Id u1) (ui_Id u2)),
          dr_User2Id = bind_u32 (max (ui_Id u1) (ui_Id u2))\<rparr>]\<rparr>)"
proof -
  note g = createDirectChat_group [OF assms(1-3)]
  have nd: "(bind_u32 (min (ui_Id u1) (ui_Id u2)), bind_u32 (max (ui_Id u1) (ui_Id u2))) \<notin>
      (\<lambda>r. (dr_User1Id r, dr_User2Id r)) ` set (DirectChats d)"
    using assms(9) by (force simp: findDirectChat_def getsM_def find_None_iff)
  have ex: "user_exists d (bind_u32 (min (ui_Id u1) (ui_Id u2)))"
    "user_exists d (bind_u32 (max (ui_Id u1) (ui_Id u2)))"
    using assms(4,5) by (auto simp: min_def max_def)
  show ?thesis
    using g(3,4) nd ex assms(4-8)
    by (simp add: createDirectChat_def bindM_def g(1,2) transaction_def insert_Users_has_Chats_def
        insert_DirectChats_def thenM_def ret_def) (simp add: with_direct_chat_def)
qed

text \<open>
  C5. Opening a direct chat between two registered users: it is created with the two of them and
  SYSTEM as its only members, it is found again whichever of the two asks, and each of them sees
  the other as its peer.
\<close>

theorem direct_chat_between:
  assumes "Db_ok d" and "Chats_seq d + 1 < 2 ^ 32" and "user_exists d 1"
    and "r1 \<in> set (Users d)" and "ur_Id r1 = bind_u32 (ui_Id u1)"
    and "r2 \<in> set (Users d)" and "ur_Id r2 = bind_u32 (ui_Id u2)"
    and "ui_Id u1 \<noteq> ui_Id u2" and "ui_Id u1 \<noteq> SYSTEM_FROMID" and "ui_Id u2 \<noteq> SYSTEM_FROMID"
    and "findDirectChat (ui_Id u1) (ui_Id u2) d = (Inr None, d)"
  shows "\<exists>c d' f. createDirectChat u1 u2 d = (Inr c, d') \<and>
     findDirectChat (ui_Id u1) (ui_Id u2) d' = (Inr (Some f), d') \<and>
     findDirectChat (ui_Id u2) (ui_Id u1) d' = (Inr (Some f), d') \<and> ci_Id f = ci_Id c \<and>
     findDirectChatPeer (ci_Id c) (ui_Id u1) d' = (Inr (Some (row_UserInfo r2)), d') \<and>
     findDirectChatPeer (ci_Id c) (ui_Id u2) d' = (Inr (Some (row_UserInfo r1)), d') \<and>
     (\<forall>v. is_member d' v (ci_Id c) \<longleftrightarrow> v \<in> {SYSTEM_FROMID, ui_Id u1, ui_Id u2})"
proof -
  let ?i = "Chats_seq d + 1" and ?a = "min (ui_Id u1) (ui_Id u2)" and ?b = "max (ui_Id u1) (ui_Id u2)"
  have ex: "user_exists d (bind_u32 (ui_Id u1))" "user_exists d (bind_u32 (ui_Id u2))"
    using assms(4-7) by (auto simp: user_exists_def intro: rev_image_eqI)
  define d' where "d' = snd (createDirectChat u1 u2 d)"
  note run = createDirectChat_run [OF assms(1-3) ex assms(8-11)]
  note g = createDirectChat_group [OF assms(1-3)]
  have U: "Users d' = Users d" and D: "DirectChats d' = DirectChats d @
      [\<lparr>dr_ChatId = ?i, dr_User1Id = bind_u32 ?a, dr_User2Id = bind_u32 ?b\<rparr>]"
    and H: "Users_has_Chats d' = Users_has_Chats d @
      [(1, ?i), (bind_u32 (ui_Id u1), ?i), (bind_u32 (ui_Id u2), ?i)]"
    by (simp_all add: d'_def run)
  have ok': "Db_ok d'" unfolding d'_def by (rule preservesD [OF createDirectChat_ok assms(1)])
  have none: "List.find (\<lambda>r. dr_User1Id r = bind_u32 ?a \<and> dr_User2Id r = bind_u32 ?b) (DirectChats d) = None"
    using assms(11) by (auto simp: findDirectChat_def getsM_def)
  have nochat: "List.find (\<lambda>r. dr_ChatId r = ?i) (DirectChats d) = None"
    using g(4) by (force simp: find_None_iff)
  have peer: "findDirectChatPeer (getUInt ?i) v d' =
      (if v \<noteq> ?a \<and> v \<noteq> ?b then (Inr None, d') else findUserById (Some (if v = ?a then ?b else ?a)) d')" for v
    by (simp add: findDirectChatPeer_def monad_defs D g(2) find_append nochat Let_def)
  have "findDirectChatPeer (getUInt ?i) (ui_Id u1) d' = findUserById (Some (ui_Id u2)) d'"
    and "findDirectChatPeer (getUInt ?i) (ui_Id u2) d' = findUserById (Some (ui_Id u1)) d'"
    using assms(8) unfolding peer by (auto simp: min_def max_def)
  moreover have "findUserById (Some (ui_Id u2)) d' = (Inr (Some (row_UserInfo r2)), d')"
    "findUserById (Some (ui_Id u1)) d' = (Inr (Some (row_UserInfo r1)), d')"
    using assms(4-7) U by (auto intro!: findUserById_row [OF ok'])
  moreover have "is_member d' v (getUInt ?i) \<longleftrightarrow> v \<in> {SYSTEM_FROMID, ui_Id u1, ui_Id u2}" for v
    using g(3) [of "bind_u32 v" undefined]
    by (auto simp: is_member_def H g(2) with_direct_chat_def)
  moreover obtain c where "createDirectChat u1 u2 d = (Inr c, d')" "ci_Id c = getUInt ?i"
    using run by (simp add: d'_def)
  moreover obtain f where "findDirectChat (ui_Id u1) (ui_Id u2) d' = (Inr (Some f), d')"
      "findDirectChat (ui_Id u2) (ui_Id u1) d' = (Inr (Some f), d')" "ci_Id f = getUInt ?i"
    by (simp add: findDirectChat_def getsM_def D find_append none
        min.commute [of "ui_Id u2"] max.commute [of "ui_Id u2"])
  ultimately show ?thesis by auto
qed

text \<open>
  A direct chat with oneself, or with SYSTEM, cannot be opened, and the attempt is not atomic:
  the error leaves behind a chat nobody but SYSTEM is in, because the chat row was committed by a
  transaction of its own. Each further attempt leaves another one.
\<close>

theorem direct_chat_orphan:
  assumes "Db_ok d" and "Chats_seq d + 1 < 2 ^ 32" and "user_exists d 1"
    and "user_exists d (bind_u32 (ui_Id u1))"
    and "ui_Id u2 = ui_Id u1 \<or> ui_Id u2 = SYSTEM_FROMID"
  shows "(\<exists>e. fst (createDirectChat u1 u2 d) = Inl e) \<and>
     (\<exists>n. Chats (snd (createDirectChat u1 u2 d)) =
        Chats d @ [\<lparr>chr_Id = Chats_seq d + 1, chr_OwnerId = 1, chr_Name = n\<rparr>]) \<and>
     Users_has_Chats (snd (createDirectChat u1 u2 d)) = Users_has_Chats d @ [(1, Chats_seq d + 1)] \<and>
     DirectChats (snd (createDirectChat u1 u2 d)) = DirectChats d"
proof -
  note g = createDirectChat_group [OF assms(1-3)]
  have "createDirectChat u1 u2 d =
     (Inl (unique_failed ''Users_has_Chats.UserId, Users_has_Chats.ChatId''),
      with_direct_chat (c_str (direct_chat_name u1 u2)) d)"
    using g(3) assms(4,5)
    by (cases "ui_Id u1 = SYSTEM_FROMID")
      (auto simp add: createDirectChat_def bindM_def g(1,2) transaction_def
        insert_Users_has_Chats_def thenM_def)
  then show ?thesis by (auto simp: with_direct_chat_def)
qed

text \<open>A small database: SYSTEM, ann and bob, and ann's group chat.\<close>

definition ann :: UserInfo where
  "ann = \<lparr>ui_Id = 2, ui_Name = fs_of CHATNAME_MAXLENGTH ''ann'', ui_PasswordHash = 44\<rparr>"

definition bob :: UserInfo where
  "bob = \<lparr>ui_Id = 3, ui_Name = fs_of CHATNAME_MAXLENGTH ''bob'', ui_PasswordHash = 43\<rparr>"

definition Db_demo :: Db where
  "Db_demo = \<lparr>Users = [\<lparr>ur_Id = 1, ur_Name = ''SYSTEM'', ur_PasswordHash = 0\<rparr>,
       \<lparr>ur_Id = 2, ur_Name = ''ann'', ur_PasswordHash = 44\<rparr>,
       \<lparr>ur_Id = 3, ur_Name = ''bob'', ur_PasswordHash = 43\<rparr>],
     Users_seq = 3, Chats = [\<lparr>chr_Id = 1, chr_OwnerId = 2, chr_Name = ''club''\<rparr>], Chats_seq = 1,
     DirectChats = [], Messages = [], Messages_seq = 0, Users_has_Chats = [(2, 1), (3, 1)],
     Chats_has_BannedUsers = []\<rparr>"

lemma Db_demo_ok: "Db_ok Db_demo" and Db_demo_small: "ids_small Db_demo"
  by (simp_all add: Db_ok_def table_ok_defs Db_demo_def user_exists_def chat_exists_def ids_small_def)

theorem direct_chat_between_witness:
  "\<exists>c d'. createDirectChat ann bob Db_demo = (Inr c, d') \<and>
     findDirectChatPeer (ci_Id c) 3 d' = (Inr (Some (row_UserInfo (Users Db_demo ! 1))), d')"
proof -
  have p: "Chats_seq Db_demo + 1 < 2 ^ 32" "user_exists Db_demo 1"
    "findDirectChat (ui_Id ann) (ui_Id bob) Db_demo = (Inr None, Db_demo)"
    "Users Db_demo ! 1 \<in> set (Users Db_demo)" "ur_Id (Users Db_demo ! 1) = bind_u32 (ui_Id ann)"
    "Users Db_demo ! 2 \<in> set (Users Db_demo)" "ur_Id (Users Db_demo ! 2) = bind_u32 (ui_Id bob)"
    "ui_Id ann \<noteq> ui_Id bob" "ui_Id ann \<noteq> SYSTEM_FROMID" "ui_Id bob \<noteq> SYSTEM_FROMID"
    by (simp_all add: Db_demo_def user_exists_def findDirectChat_def getsM_def ann_def bob_def
        SYSTEM_FROMID_def bind_u32_def)
  have "ui_Id bob = 3" by (simp add: bob_def)
  then show ?thesis
    using direct_chat_between [OF Db_demo_ok p(1,2,4-10,3)] by metis
qed

theorem direct_chat_orphan_witness:
  "length (Chats (snd (createDirectChat ann ann Db_demo))) = 2 \<and>
   DirectChats (snd (createDirectChat ann ann Db_demo)) = []"
proof -
  have p: "Chats_seq Db_demo + 1 < 2 ^ 32" "user_exists Db_demo 1"
    "user_exists Db_demo (bind_u32 (ui_Id ann))"
    by (simp_all add: Db_demo_def user_exists_def ann_def bind_u32_def)
  have "length (Chats Db_demo) = 1" "DirectChats Db_demo = []" by (simp_all add: Db_demo_def)
  then show ?thesis
    using direct_chat_orphan [OF Db_demo_ok p disjI1 [OF refl]] by auto
qed

section \<open>The membership interface\<close>

text \<open>
  What the server relies on when it moderates a chat: four operations on the members and the bans
  of chats, and what a query answers after each of them.
\<close>

locale membership_store =
  fixes known :: "'s \<Rightarrow> 'c \<Rightarrow> 'u \<Rightarrow> bool"
    and member :: "'s \<Rightarrow> 'c \<Rightarrow> 'u \<Rightarrow> bool"
    and banned :: "'s \<Rightarrow> 'c \<Rightarrow> 'u \<Rightarrow> bool"
    and join :: "'c \<Rightarrow> 'u \<Rightarrow> 's \<Rightarrow> 's"
    and leave :: "'c \<Rightarrow> 'u \<Rightarrow> 's \<Rightarrow> 's"
    and ban :: "'c \<Rightarrow> 'u \<Rightarrow> 's \<Rightarrow> 's"
    and unban :: "'c \<Rightarrow> 'u \<Rightarrow> 's \<Rightarrow> 's"
  assumes join_member: "member (join c u s) c' u' \<longleftrightarrow> member s c' u' \<or> (known s c u \<and> c' = c \<and> u' = u)"
    and join_banned: "banned (join c u s) c' u' \<longleftrightarrow> banned s c' u'"
    and leave_member: "member (leave c u s) c' u' \<longleftrightarrow> member s c' u' \<and> \<not> (c' = c \<and> u' = u)"
    and leave_banned: "banned (leave c u s) c' u' \<longleftrightarrow> banned s c' u'"
    and ban_member: "member (ban c u s) c' u' \<longleftrightarrow> member s c' u'"
    and ban_banned: "banned (ban c u s) c' u' \<longleftrightarrow> banned s c' u' \<or> (known s c u \<and> c' = c \<and> u' = u)"
    and unban_member: "member (unban c u s) c' u' \<longleftrightarrow> member s c' u'"
    and unban_banned: "banned (unban c u s) c' u' \<longleftrightarrow> banned s c' u' \<and> \<not> (c' = c \<and> u' = u)"
begin

lemmas store_simps = join_member join_banned leave_member leave_banned ban_member ban_banned
  unban_member unban_banned

lemma expel: "known s c u \<Longrightarrow> banned (leave c u (ban c u s)) c u \<and> \<not> member (leave c u (ban c u s)) c u"
  by (simp add: store_simps)

lemma excluded_kept:
  assumes "\<forall>c u. banned s c u \<longrightarrow> \<not> member s c u"
  shows "\<forall>c u. banned (leave d v (ban d v s)) c u \<longrightarrow> \<not> member (leave d v (ban d v s)) c u"
    and "\<forall>c u. banned (leave d v s) c u \<longrightarrow> \<not> member (leave d v s) c u"
    and "\<forall>c u. banned (unban d v s) c u \<longrightarrow> \<not> member (unban d v s) c u"
    and "\<not> banned s d v \<Longrightarrow> \<forall>c u. banned (join d v s) c u \<longrightarrow> \<not> member (join d v s) c u"
  using assms by (auto simp: store_simps)

end

interpretation dbm: membership_store
  "\<lambda>d c u. chat_exists d (bind_u32 c) \<and> user_exists d (bind_u32 u)"
  "\<lambda>d c u. is_member d u c" is_banned
  "\<lambda>c u d. snd (insert_ignore_Users_has_Chats (bind_u32 u) (bind_u32 c) d)"
  "\<lambda>c u d. snd (removeMemberFromChat c u d)"
  "\<lambda>c u d. snd (insert_ignore_BannedUsers (bind_u32 c) (bind_u32 u) d)"
  "\<lambda>c u d. snd (unbanUserInChat c u d)"
  by unfold_locales
    (auto simp: is_member_def is_banned_def insert_ignore_Users_has_Chats_def modifyM_def
      removeMemberFromChat_def insert_ignore_BannedUsers_def unbanUserInChat_def)

text \<open>
  C7. Banning, as the server does it (\<open>banUserInChat\<close>, then \<open>removeMemberFromChat\<close>): the user is
  banned and no longer a member, nobody else's membership or ban changes, in this or another chat,
  and unbanning lifts the ban without giving the membership back.
\<close>

theorem ban_expels:
  assumes "chat_exists d (bind_u32 (ci_Id chat))" and "user_exists d (bind_u32 (ui_Id target))"
    and "d' = snd (removeMemberFromChat (ci_Id chat) (ui_Id target) (snd (banUserInChat chat target d)))"
  shows "is_banned d' (ci_Id chat) (ui_Id target) \<and> \<not> is_member d' (ui_Id target) (ci_Id chat) \<and>
     (\<forall>c u. (c, u) \<noteq> (ci_Id chat, ui_Id target) \<longrightarrow>
        is_member d' u c = is_member d u c \<and> is_banned d' c u = is_banned d c u) \<and>
     (\<forall>c u. is_banned (snd (unbanUserInChat (ci_Id chat) (ui_Id target) d')) c u \<longleftrightarrow>
        is_banned d c u \<and> (c, u) \<noteq> (ci_Id chat, ui_Id target)) \<and>
     \<not> is_member (snd (unbanUserInChat (ci_Id chat) (ui_Id target) d')) (ui_Id target) (ci_Id chat)"
  using assms by (auto simp: banUserInChat_def dbm.store_simps)

theorem ban_expels_witness:
  "is_member Db_demo 3 1 \<and>
   is_banned (snd (removeMemberFromChat 1 3 (snd (banUserInChat
     \<lparr>ci_Id = 1, ci_Name = [], ci_OwnerId = 2\<rparr> bob Db_demo)))) 1 3"
  using ban_expels [of Db_demo "\<lparr>ci_Id = 1, ci_Name = [], ci_OwnerId = 2\<rparr>" bob, OF _ _ refl]
  by (simp add: is_member_def Db_demo_def chat_exists_def user_exists_def bind_u32_def bob_def)

section \<open>Messages\<close>

text \<open>A row as a message of the chat: what \<open>findMessagesByChat\<close> makes of it.\<close>

definition message_of :: "Db \<Rightarrow> ChatInfo \<Rightarrow> MessageRow \<Rightarrow> Message" where
  "message_of d chat r = \<lparr>msg_Id = ucast (getUInt (mr_Id r)),
     msg_DestChat = \<lparr>chat_Id = ci_Id chat, chat_Name = ci_Name chat, chat_Type = ChatType_Group\<rparr>,
     msg_From = \<lparr>user_Id = getUInt (mr_SenderId r), user_Name =
       (case List.find (\<lambda>u. ur_Id u = mr_SenderId r) (Users d) of None \<Rightarrow> fs_default CHATNAME_MAXLENGTH
        | Some u \<Rightarrow> fs_of CHATNAME_MAXLENGTH (ur_Name u))\<rparr>,
     msg_Timestamp = ucast (getUInt (mr_Timestamp r)),
     msg_Text = fs_of MESSAGETEXT_MAXLENGTH (mr_Text r)\<rparr>"

lemma row_Messages_run:
  assumes "Db_ok d" and "ids_small d" and "set rs \<subseteq> set (Messages d)"
  shows "row_Messages chat rs d = (Inr (map (message_of d chat) rs), d)"
  using assms(3)
proof (induction rs)
  case (Cons r rs)
  have "user_exists d (mr_SenderId r)"
    using assms(1) Cons.prems by (auto simp: Db_ok_def messages_ok_def)
  then obtain u where u: "u \<in> set (Users d)" "ur_Id u = mr_SenderId r"
    by (auto simp: user_exists_def)
  then have id: "bind_u32 (getUInt (mr_SenderId r)) = mr_SenderId r"
    using assms(1,2) by (intro bind_getUInt) (force simp: Db_ok_def users_ok_def ids_small_def)+
  have f: "List.find (\<lambda>x. ur_Id x = mr_SenderId r) (Users d) = Some u"
    using find_only [of ur_Id "Users d" u] u assms(1) by (simp add: Db_ok_def users_ok_def)
  have "findUserById (Some (getUInt (mr_SenderId r))) d = (Inr (Some (row_UserInfo u)), d)"
    using u id by (intro findUserById_row [OF assms(1)]) auto
  then show ?case
    using Cons u f by (simp add: bindM_def row_Message_def ret_def message_of_def row_UserInfo_def)
qed (simp add: ret_def)

lemma findMessagesByChat_run:
  assumes "Db_ok d" and "ids_small d" and "DbEnv_ok E"
  shows "findMessagesByChat E chat d = (Inr (map (message_of d chat) (order_messages E
     (filter (\<lambda>r. mr_ChatId r = bind_u32 (ci_Id chat)) (Messages d)))), d)"
proof -
  let ?rs = "filter (\<lambda>r. mr_ChatId r = bind_u32 (ci_Id chat)) (Messages d)"
  have "set (order_messages E ?rs) = set ?rs"
    using assms(3) unfolding DbEnv_ok_def by (metis mset_eq_setD)
  then show ?thesis
    using row_Messages_run [OF assms(1,2), of "order_messages E ?rs" chat]
    by (auto simp: findMessagesByChat_def bindM_def getsM_def)
qed

lemma insert_Messages_run:
  "chat_exists d c \<Longrightarrow> user_exists d u \<Longrightarrow> Messages_seq d < sqlite_max \<Longrightarrow>
   insert_Messages ts t c u d = (Inr (Messages_seq d + 1),
     d\<lparr>Messages := Messages d @ [\<lparr>mr_Id = Messages_seq d + 1, mr_ChatId = c, mr_SenderId = u,
       mr_Timestamp = ts, mr_Text = t\<rparr>], Messages_seq := Messages_seq d + 1\<rparr>)"
  by (simp add: insert_Messages_def Let_def)

definition msg_view :: "Message \<Rightarrow> msgid_t \<times> chatid_t \<times> userid_t \<times> timestamp_t \<times> cstring" where
  "msg_view m = (msg_Id m, chat_Id (msg_DestChat m), user_Id (msg_From m), msg_Timestamp m, c_str (msg_Text m))"

lemma commitMessage_run:
  assumes "Db_ok d" and "cr \<in> set (Chats d)" and "chr_Id cr = bind_u32 (cm_ToChat req)"
    and "ur \<in> set (Users d)" and "ur_Id ur = bind_u32 (ui_Id sender)" and "Messages_seq d < sqlite_max"
  shows "commitMessage sender req d =
    (Inr \<lparr>msg_Id = getInt64 (Messages_seq d + 1),
        msg_DestChat = \<lparr>chat_Id = cm_ToChat req, chat_Name = fs_of CHATNAME_MAXLENGTH (chr_Name cr),
          chat_Type = ChatType_Group\<rparr>,
        msg_From = \<lparr>user_Id = ui_Id sender, user_Name = fs_of CHATNAME_MAXLENGTH (ur_Name ur)\<rparr>,
        msg_Timestamp = cm_Timestamp req, msg_Text = cm_Content req\<rparr>,
     d\<lparr>Messages := Messages d @ [\<lparr>mr_Id = Messages_seq d + 1, mr_ChatId = bind_u32 (cm_ToChat req),
         mr_SenderId = bind_u32 (ui_Id sender), mr_Timestamp = bind_i64 (cm_Timestamp req),
         mr_Text = c_str (cm_Content req)\<rparr>], Messages_seq := Messages_seq d + 1\<rparr>)"
proof -
  have "chat_exists d (bind_u32 (cm_ToChat req))" "user_exists d (bind_u32 (ui_Id sender))"
    using assms(2-5) by (auto simp: chat_exists_def user_exists_def intro: rev_image_eqI)
  then show ?thesis
    by (simp add: commitMessage_def bindM_def findChatById_row [OF assms(1-3)] transaction_def
        findUserById_row [OF assms(1,4,5)] insert_Messages_run [OF _ _ assms(6)] ret_def
        row_ChatInfo_def row_UserInfo_def assms(3,5))
qed

lemma bind_i64_small: "uint w < 2 ^ 63 \<Longrightarrow> bind_i64 w = uint w"
proof -
  assume lt: "uint w < 2 ^ 63"
  have "- (2 ^ 63) \<le> uint w" by (rule order_trans [of _ 0]) simp_all
  with lt show ?thesis unfolding bind_i64_def sint_uint by (intro signed_take_bit_int_eq_self) simp_all
qed

lemma ucast_getUInt_small:
  assumes "0 \<le> i" and "i < 2 ^ 32"
  shows "ucast (getUInt i) = (word_of_int i :: u64)"
  by (rule word_uint_eqI) (use assms in \<open>simp add: getUInt_def uint_word_of_int unsigned_ucast_eq
      take_bit_int_eq_self\<close>)

text \<open>
  C8. A committed message is part of the history: the history of its chat gains exactly that message,
  with its id, its sender, its time and its text, and the history of no other chat changes (while
  message ids and times are below \<open>2^32\<close>: the history reads both with 32 bits).
\<close>

theorem committed_message_in_history:
  assumes "Db_ok d" and "ids_small d" and "DbEnv_ok E"
    and "cr \<in> set (Chats d)" and "chr_Id cr = bind_u32 (cm_ToChat req)"
    and "ur \<in> set (Users d)" and "ur_Id ur = bind_u32 (ui_Id sender)"
    and "Messages_seq d + 1 < 2 ^ 32" and "uint (cm_Timestamp req) < 2 ^ 32"
    and "fs_wf MESSAGETEXT_MAXLENGTH (cm_Content req)" and "fs_terminated (cm_Content req)"
  shows "\<exists>m d'. commitMessage sender req d = (Inr m, d') \<and>
     (\<forall>chat. \<exists>old new. findMessagesByChat E chat d = (Inr old, d) \<and>
        findMessagesByChat E chat d' = (Inr new, d') \<and>
        mset (map msg_view new) = mset (map msg_view old) +
          (if ci_Id chat = cm_ToChat req then {#msg_view m#} else {#}))"
proof -
  let ?row = "\<lparr>mr_Id = Messages_seq d + 1, mr_ChatId = bind_u32 (cm_ToChat req),
     mr_SenderId = bind_u32 (ui_Id sender), mr_Timestamp = bind_i64 (cm_Timestamp req),
     mr_Text = c_str (cm_Content req)\<rparr>"
  have seq: "0 \<le> Messages_seq d" using assms(1) by (simp add: Db_ok_def messages_ok_def)
  have "Messages_seq d < sqlite_max" using assms(8) by (simp add: sqlite_max_def)
  note run = commitMessage_run [OF assms(1,4-7) this]
  define m where "m = (case fst (commitMessage sender req d) of Inr m \<Rightarrow> m | Inl _ \<Rightarrow> Message_default)"
  define d' where "d' = snd (commitMessage sender req d)"
  have R: "commitMessage sender req d = (Inr m, d')" by (simp add: m_def d'_def run)
  have M: "Messages d' = Messages d @ [?row]" and U: "Users d' = Users d" by (simp_all add: d'_def run)
  have ok': "Db_ok d'" unfolding d'_def by (rule preservesD [OF commits_ok(1) assms(1)])
  have small': "ids_small d'" using assms(2) by (simp add: d'_def run ids_small_def)
  have ts: "word_of_int (bind_i64 (cm_Timestamp req)) = cm_Timestamp req"
    "bind_i64 (cm_Timestamp req) = uint (cm_Timestamp req)"
    using assms(9) by (simp_all add: bind_i64_small)
  have v: "msg_view (message_of d' chat ?row) = msg_view m" if "ci_Id chat = cm_ToChat req" for chat
    using that seq assms(8,9) ts
    by (simp add: msg_view_def message_of_def m_def run ucast_getUInt_small getInt64_def
        take_c_str_buf [OF assms(10,11)])
  have E: "mset (map (\<lambda>r. msg_view (message_of x chat r)) (order_messages E rs)) =
      mset (map (\<lambda>r. msg_view (message_of x chat r)) rs)" for x chat rs
    using assms(3) by (simp add: DbEnv_ok_def)
  have same: "message_of d' chat = message_of d chat" for chat
    by (simp add: fun_eq_iff message_of_def U)
  show ?thesis
    using R v [unfolded same]
    by (intro exI [of _ m] exI [of _ d'])
      (auto simp: findMessagesByChat_run [OF assms(1,2,3)] findMessagesByChat_run [OF ok' small' assms(3)]
        M E [unfolded comp_def] comp_def same simp flip: mset_map)
qed

theorem committed_message_in_history_witness:
  "\<exists>m d' new. commitMessage ann \<lparr>cm_UserToken = 9, cm_Timestamp = 5,
        cm_Content = fs_of MESSAGETEXT_MAXLENGTH ''hi'', cm_ToChat = 1\<rparr> Db_demo = (Inr m, d') \<and>
     findMessagesByChat DbEnv_plain \<lparr>ci_Id = 1, ci_Name = [], ci_OwnerId = 2\<rparr> d' = (Inr new, d') \<and>
     mset (map msg_view new) = {#msg_view m#}"
proof -
  let ?req = "\<lparr>cm_UserToken = 9, cm_Timestamp = 5, cm_Content = fs_of MESSAGETEXT_MAXLENGTH ''hi'', cm_ToChat = 1\<rparr>"
  let ?c = "\<lparr>ci_Id = 1, ci_Name = [], ci_OwnerId = 2\<rparr>"
  have p: "Chats Db_demo ! 0 \<in> set (Chats Db_demo)" "chr_Id (Chats Db_demo ! 0) = bind_u32 (cm_ToChat ?req)"
    "Users Db_demo ! 1 \<in> set (Users Db_demo)" "ur_Id (Users Db_demo ! 1) = bind_u32 (ui_Id ann)"
    "Messages_seq Db_demo + 1 < 2 ^ 32" "uint (cm_Timestamp ?req) < 2 ^ 32"
    "fs_wf MESSAGETEXT_MAXLENGTH (cm_Content ?req)" "fs_terminated (cm_Content ?req)"
    by (simp_all add: Db_demo_def ann_def bind_u32_def) (simp add: fs_of_def)
  have "findMessagesByChat DbEnv_plain ?c Db_demo = (Inr [], Db_demo)"
    by (simp add: findMessagesByChat_run [OF Db_demo_ok Db_demo_small DbEnv_plain_ok])
      (simp add: Db_demo_def DbEnv_plain_def)
  then show ?thesis
    using committed_message_in_history [OF Db_demo_ok Db_demo_small DbEnv_plain_ok p]
    by (force dest: spec [of _ ?c])
qed

section \<open>Predicates every change keeps\<close>

text \<open>
  The server changes the tables through these operations only: what each of them keeps, the whole
  server keeps, whatever clients and addons do.
\<close>

locale table_invariant =
  fixes I :: "Db \<Rightarrow> bool"
  assumes createUser_inv: "preserves I (createUser E n p)"
    and createGroupChat_inv: "preserves I (createGroupChat w n)"
    and createDirectChat_inv: "preserves I (createDirectChat u v)"
    and joinChatMember_inv: "preserves I (joinChatMember c u)"
    and commitMessage_inv: "preserves I (commitMessage u m)"
    and commitSystemMessage_inv: "preserves I (commitSystemMessage c ts t)"
    and banUserInChat_inv: "preserves I (banUserInChat c u)"
    and unbanUserInChat_inv: "preserves I (unbanUserInChat ch ui)"
    and removeMemberFromChat_inv: "preserves I (removeMemberFromChat ch ui)"
    and renameChat_inv: "preserves I (renameChat c n)"
begin

lemmas changes_inv = createUser_inv createGroupChat_inv createDirectChat_inv joinChatMember_inv
  commitMessage_inv commitSystemMessage_inv banUserInChat_inv unbanUserInChat_inv
  removeMemberFromChat_inv renameChat_inv

end

interpretation tables: table_invariant Db_ok
  by unfold_locales (rule pres)+

text \<open>Messages are appended to, never changed or deleted; accounts stay.\<close>

definition log_extends :: "MessageRow list \<Rightarrow> UserRow list \<Rightarrow> Db \<Rightarrow> bool" where
  "log_extends ms us d \<longleftrightarrow> prefix ms (Messages d) \<and> prefix us (Users d)"

lemma statements_extend:
  "preserves (log_extends ms us) (insert_Users n h)" "preserves (log_extends ms us) (insert_Chats n w)"
  "preserves (log_extends ms us) (insert_Messages ts t c u)"
  "preserves (log_extends ms us) (insert_Users_has_Chats c u)"
  "preserves (log_extends ms us) (insert_DirectChats c u v)"
  "preserves (log_extends ms us) (insert_ignore_Users_has_Chats u c)"
  "preserves (log_extends ms us) (insert_ignore_BannedUsers c u)"
  by (auto simp: preserves_def log_extends_def insert_Users_def insert_Chats_def insert_Messages_def
      insert_Users_has_Chats_def insert_DirectChats_def insert_ignore_Users_has_Chats_def
      insert_ignore_BannedUsers_def Let_def)

interpretation log: table_invariant "log_extends ms us" for ms us
  by unfold_locales
    (unfold createUser_def createGroupChat_def createDirectChat_def joinChatMember_def
      commitMessage_def commitSystemMessage_def banUserInChat_def unbanUserInChat_def
      removeMemberFromChat_def renameChat_def Let_def,
      (intro pres statements_extend preserves_modifyM; simp add: log_extends_def)+)

end
