(* ===== verification/Responces.thy ===== *)
theory Responces
  imports Wire
begin

text \<open>
  \<open>Responce.ixx\<close> and \<open>Responce.cpp\<close>: the response structs, their packed layout, the factories.
  A remaining-counter is the \<open>int32_t\<close> bit pattern; \<open>-1\<close> says that the list is empty.
\<close>

section \<open>The structs\<close>

record ErrorResponce =
  er_Code :: ErrorCode
  er_Message :: fixed_string

record HandshakeResponce =
  hsp_Flag :: connflag_t
  hsp_Token :: token_t
  hsp_SecureMode :: byte
  hsp_Reserved :: "byte list"
  hsp_IntegrityTag :: u64
  hsp_ServerPublicKey :: "byte list"

datatype Responce =
    Error ErrorResponce
  | HandshakeSuccessfull HandshakeResponce
  | LoginSuccessfull User
  | RespUpdates u32 Update
  | RespChatInfo Chat
  | RespChatMembers u32 User
  | RespChatHistory u32 Message
  | RespChatList u32 Chat
  | RespAddonCommands u32 fixed_string
  | RespCreateChat Chat
  | RespJoinChat Chat
  | RespCommitMessage Message
  | ResponceOther u32 "byte list"

section \<open>Layout\<close>

definition RESPONCE_UNION :: nat where "RESPONCE_UNION = 680"
definition RESPONCE_SIZE :: nat where "RESPONCE_SIZE = 684"

fun resp_tag :: "Responce \<Rightarrow> u32" where
  "resp_tag (Error _) = 0"
| "resp_tag (HandshakeSuccessfull _) = 1"
| "resp_tag (LoginSuccessfull _) = 2"
| "resp_tag (RespUpdates _ _) = 3"
| "resp_tag (RespChatInfo _) = 4"
| "resp_tag (RespChatMembers _ _) = 5"
| "resp_tag (RespChatHistory _ _) = 6"
| "resp_tag (RespChatList _ _) = 7"
| "resp_tag (RespAddonCommands _ _) = 8"
| "resp_tag (RespCreateChat _) = 9"
| "resp_tag (RespJoinChat _) = 10"
| "resp_tag (RespCommitMessage _) = 11"
| "resp_tag (ResponceOther t _) = t"

definition enc_ErrorResponce :: "ErrorResponce \<Rightarrow> byte list" where
  "enc_ErrorResponce e = enc_u32 (er_Code e) @ bytes_of (er_Message e)"

definition dec_ErrorResponce :: "byte list \<Rightarrow> ErrorResponce" where
  "dec_ErrorResponce bs = \<lparr>er_Code = dec_u32 (sub 0 4 bs), er_Message = chars_of (sub 4 513 bs)\<rparr>"

definition enc_HandshakeResponce :: "HandshakeResponce \<Rightarrow> byte list" where
  "enc_HandshakeResponce h = enc_u16 (hsp_Flag h) @ enc_u32 (hsp_Token h) @ [hsp_SecureMode h] @
     hsp_Reserved h @ enc_u64 (hsp_IntegrityTag h) @ hsp_ServerPublicKey h"

definition dec_HandshakeResponce :: "byte list \<Rightarrow> HandshakeResponce" where
  "dec_HandshakeResponce bs = \<lparr>hsp_Flag = dec_u16 (sub 0 2 bs), hsp_Token = dec_u32 (sub 2 4 bs),
     hsp_SecureMode = bs ! 6, hsp_Reserved = sub 7 3 bs, hsp_IntegrityTag = dec_u64 (sub 10 8 bs),
     hsp_ServerPublicKey = sub 18 32 bs\<rparr>"

fun resp_union :: "Responce \<Rightarrow> byte list" where
  "resp_union (Error e) = enc_ErrorResponce e"
| "resp_union (HandshakeSuccessfull h) = enc_HandshakeResponce h"
| "resp_union (LoginSuccessfull u) = enc_User u"
| "resp_union (RespUpdates n u) = enc_u32 n @ enc_Update u"
| "resp_union (RespChatInfo c) = enc_Chat c"
| "resp_union (RespChatMembers n u) = enc_u32 n @ enc_User u"
| "resp_union (RespChatHistory n m) = enc_u32 n @ enc_Message m"
| "resp_union (RespChatList n c) = enc_u32 n @ enc_Chat c"
| "resp_union (RespAddonCommands n s) = enc_u32 n @ bytes_of s"
| "resp_union (RespCreateChat c) = enc_Chat c"
| "resp_union (RespJoinChat c) = enc_Chat c"
| "resp_union (RespCommitMessage m) = enc_Message m"
| "resp_union (ResponceOther _ bs) = bs"

definition enc_Responce :: "byte list \<Rightarrow> Responce \<Rightarrow> byte list" where
  "enc_Responce u r = enc_u32 (resp_tag r) @ overlay (resp_union r) u"

definition dec_ResponceUnion :: "u32 \<Rightarrow> byte list \<Rightarrow> Responce" where
  "dec_ResponceUnion t bs =
     (if t = 0 then Error (dec_ErrorResponce bs)
      else if t = 1 then HandshakeSuccessfull (dec_HandshakeResponce bs)
      else if t = 2 then LoginSuccessfull (dec_User bs)
      else if t = 3 then RespUpdates (dec_u32 (sub 0 4 bs)) (dec_Update (sub 4 676 bs))
      else if t = 4 then RespChatInfo (dec_Chat bs)
      else if t = 5 then RespChatMembers (dec_u32 (sub 0 4 bs)) (dec_User (sub 4 69 bs))
      else if t = 6 then RespChatHistory (dec_u32 (sub 0 4 bs)) (dec_Message (sub 4 668 bs))
      else if t = 7 then RespChatList (dec_u32 (sub 0 4 bs)) (dec_Chat (sub 4 70 bs))
      else if t = 8 then RespAddonCommands (dec_u32 (sub 0 4 bs)) (chars_of (sub 4 65 bs))
      else if t = 9 then RespCreateChat (dec_Chat bs)
      else if t = 10 then RespJoinChat (dec_Chat bs)
      else if t = 11 then RespCommitMessage (dec_Message (sub 0 668 bs))
      else ResponceOther t bs)"

definition dec_Responce :: "byte list \<Rightarrow> Responce" where
  "dec_Responce bs = dec_ResponceUnion (dec_u32 (sub 0 4 bs)) (sub 4 RESPONCE_UNION bs)"

fun Responce_wf :: "Responce \<Rightarrow> bool" where
  "Responce_wf (Error e) = fs_wf ERRORMESSAGE_MAXLENGTH (er_Message e)"
| "Responce_wf (HandshakeSuccessfull h) =
     (length (hsp_Reserved h) = 3 \<and> length (hsp_ServerPublicKey h) = 32)"
| "Responce_wf (LoginSuccessfull u) = User_wf u"
| "Responce_wf (RespUpdates _ u) = Update_wf u"
| "Responce_wf (RespChatInfo c) = Chat_wf c"
| "Responce_wf (RespChatMembers _ u) = User_wf u"
| "Responce_wf (RespChatHistory _ m) = Message_wf m"
| "Responce_wf (RespChatList _ c) = Chat_wf c"
| "Responce_wf (RespAddonCommands _ s) = fs_wf CHATNAME_MAXLENGTH s"
| "Responce_wf (RespCreateChat c) = Chat_wf c"
| "Responce_wf (RespJoinChat c) = Chat_wf c"
| "Responce_wf (RespCommitMessage m) = Message_wf m"
| "Responce_wf (ResponceOther t bs) = (11 < t \<and> length bs = RESPONCE_UNION)"

lemma length_resp_union: "Responce_wf r \<Longrightarrow> length (resp_union r) \<le> RESPONCE_UNION"
  by (cases r) (simp_all add: wire_simps enc_ErrorResponce_def enc_HandshakeResponce_def fs_wf_def
      maxlength_defs RESPONCE_UNION_def)

lemma length_enc_Responce:
  "Responce_wf r \<Longrightarrow> length u = RESPONCE_UNION \<Longrightarrow> length (enc_Responce u r) = RESPONCE_SIZE"
  using length_resp_union [of r]
  by (simp add: enc_Responce_def wire_simps RESPONCE_SIZE_def RESPONCE_UNION_def)

lemma dec_ErrorResponce_enc:
  "fs_wf ERRORMESSAGE_MAXLENGTH (er_Message e) \<Longrightarrow> dec_ErrorResponce (enc_ErrorResponce e @ r) = e"
  by (simp add: enc_ErrorResponce_def dec_ErrorResponce_def wire_simps fs_wf_def maxlength_defs)

lemma dec_HandshakeResponce_enc:
  "length (hsp_Reserved h) = 3 \<Longrightarrow> length (hsp_ServerPublicKey h) = 32 \<Longrightarrow>
   dec_HandshakeResponce (enc_HandshakeResponce h @ r) = h"
  by (simp add: enc_HandshakeResponce_def dec_HandshakeResponce_def wire_simps nth_append sub_def)

lemma dec_Chat_enc: "Chat_wf c \<Longrightarrow> dec_Chat (enc_Chat c @ r) = c"
  by (simp add: dec_Chat_append wire_simps)

lemma dec_User_enc: "User_wf c \<Longrightarrow> dec_User (enc_User c @ r) = c"
  by (simp add: dec_User_append wire_simps)

lemmas dec_enc_responces = dec_ErrorResponce_enc dec_HandshakeResponce_enc dec_Chat_enc dec_User_enc

lemma dec_ResponceUnion_enc:
  assumes "Responce_wf r" and "length u = RESPONCE_UNION"
  shows "dec_ResponceUnion (resp_tag r) (overlay (resp_union r) u) = r"
proof (cases r)
  case (ResponceOther t bs)
  with assms show ?thesis by (auto simp: dec_ResponceUnion_def overlay_def)
qed (use assms in \<open>simp_all add: dec_ResponceUnion_def overlay_def dec_enc_responces wire_simps
      fs_wf_def maxlength_defs\<close>)

lemma dec_enc_Responce:
  assumes "Responce_wf r" and "length u = RESPONCE_UNION"
  shows "dec_Responce (enc_Responce u r) = r"
proof -
  have "length (overlay (resp_union r) u) = RESPONCE_UNION"
    using length_resp_union [OF assms(1)] assms(2) by (simp add: wire_simps)
  then have "dec_Responce (enc_Responce u r) =
      dec_ResponceUnion (resp_tag r) (overlay (resp_union r) u)"
    by (simp add: dec_Responce_def enc_Responce_def wire_simps)
  then show ?thesis using dec_ResponceUnion_enc [OF assms] by simp
qed



section \<open>The factories\<close>

text \<open>The image of the union after \<open>Responce{}\<close>: the handshake zeroed, the rest unspecified.\<close>

definition Responce_image :: "byte list \<Rightarrow> bool" where
  "Responce_image u \<longleftrightarrow> length u = RESPONCE_UNION \<and> take 50 u = zeros 50"

definition CreateError :: "byte list \<Rightarrow> cstring \<Rightarrow> ErrorCode \<Rightarrow> Responce" where
  "CreateError u message errorCode = Error \<lparr>er_Code = errorCode,
     er_Message = fs_assign ERRORMESSAGE_MAXLENGTH (chars_of (sub 4 513 u)) message\<rparr>"

definition CreateHandshakeResponce :: "connflag_t \<Rightarrow> token_t \<Rightarrow> Responce" where
  "CreateHandshakeResponce flag token = HandshakeSuccessfull \<lparr>hsp_Flag = flag, hsp_Token = token,
     hsp_SecureMode = 0, hsp_Reserved = [0, 0, 0], hsp_IntegrityTag = 0,
     hsp_ServerPublicKey = zeros 32\<rparr>"

definition CreateHandshakeSecureResponce ::
    "connflag_t \<Rightarrow> token_t \<Rightarrow> u64 \<Rightarrow> byte list \<Rightarrow> Responce" where
  "CreateHandshakeSecureResponce flag token integrityTag serverPublicKey =
     HandshakeSuccessfull \<lparr>hsp_Flag = flag, hsp_Token = token, hsp_SecureMode = 1,
       hsp_Reserved = [0, 0, 0], hsp_IntegrityTag = integrityTag,
       hsp_ServerPublicKey = take 32 serverPublicKey\<rparr>"

definition CreateLoginResponce :: "User \<Rightarrow> Responce" where
  "CreateLoginResponce user = LoginSuccessfull user"

definition CreateGetChatInfoResponce :: "Chat \<Rightarrow> Responce" where
  "CreateGetChatInfoResponce chat = RespChatInfo chat"

definition CreateGetChatMembersResponce :: "User \<Rightarrow> u32 \<Rightarrow> Responce" where
  "CreateGetChatMembersResponce user remainingUsers = RespChatMembers remainingUsers user"

definition CreateGetChatListResponce :: "Chat \<Rightarrow> u32 \<Rightarrow> Responce" where
  "CreateGetChatListResponce chat remainingChats = RespChatList remainingChats chat"

definition CreateGetAddonCommand :: "byte list \<Rightarrow> cstring \<Rightarrow> u32 \<Rightarrow> Responce" where
  "CreateGetAddonCommand u command remainingCommands = RespAddonCommands remainingCommands
     (fs_assign CHATNAME_MAXLENGTH (chars_of (sub 4 65 u)) command)"

definition CreateCreateChat :: "Chat \<Rightarrow> Responce" where
  "CreateCreateChat chat = RespCreateChat chat"

definition CreateJoinChat :: "Chat \<Rightarrow> Responce" where
  "CreateJoinChat chat = RespJoinChat chat"

definition CreateCommitMessageResponce :: "Message \<Rightarrow> Responce" where
  "CreateCommitMessageResponce message = RespCommitMessage message"

lemmas responce_factories = CreateError_def CreateHandshakeResponce_def
  CreateHandshakeSecureResponce_def CreateLoginResponce_def CreateGetChatInfoResponce_def
  CreateGetChatMembersResponce_def CreateGetChatListResponce_def CreateGetAddonCommand_def
  CreateCreateChat_def CreateJoinChat_def CreateCommitMessageResponce_def

lemma CreateError_wf: "Responce_image u \<Longrightarrow> Responce_wf (CreateError u msg code)"
proof -
  assume "Responce_image u"
  then have "fs_wf 512 (chars_of (sub 4 513 u))"
    by (simp add: fs_wf_def Responce_image_def RESPONCE_UNION_def length_sub)
  then show ?thesis by (simp add: CreateError_def maxlength_defs)
qed

end
