(* ===== verification/Logging.thy ===== *)
theory Logging
  imports Prelude
begin

text \<open>
  \<open>TeleCrap.Shared/Log.cpp\<close>: what a call of the logger writes to the terminal. The local time is a
  parameter. A text without line breaks makes one line, from which facility and text can be read
  back; a text with them can carry the image of further entries.
\<close>

section \<open>One entry\<close>

datatype LogLevel = LevelError | LevelInfo | LevelTrace

record tm =
  tm_hour :: nat
  tm_min :: nat
  tm_sec :: nat

fun levelName :: "LogLevel \<Rightarrow> cstring" where
  "levelName LevelError = ''ERROR''"
| "levelName LevelInfo = ''INFO ''"
| "levelName LevelTrace = ''TRACE''"

fun levelColor :: "LogLevel \<Rightarrow> cstring" where
  "levelColor LevelError = CHR 0x1B # ''[31m''"
| "levelColor LevelInfo = CHR 0x1B # ''[32m''"
| "levelColor LevelTrace = CHR 0x1B # ''[90m''"

text \<open>\<open>std::setw(2)\<close> with the fill \<open>'0'\<close>.\<close>

definition setw2 :: "nat \<Rightarrow> cstring" where
  "setw2 n = (let s = to_string n in replicate (2 - length s) CHR ''0'' @ s)"

definition nowHHMMSS :: "tm \<Rightarrow> cstring" where
  "nowHHMMSS t = setw2 (tm_hour t) @ '':'' @ setw2 (tm_min t) @ '':'' @ setw2 (tm_sec t)"

definition Log_write :: "tm \<Rightarrow> LogLevel \<Rightarrow> cstring \<Rightarrow> cstring \<Rightarrow> cstring" where
  "Log_write t level facility message =
     CHR 0x1B # ''[0m'' @ CHR 0x0D # CHR 0x1B # ''[2K'' @ ''['' @ nowHHMMSS t @ ''] '' @
     levelColor level @ levelName level @ CHR 0x1B # ''[0m'' @ '' ['' @ facility @ ''] '' @ message @ [CHR 0x0A]"

definition Log_Error :: "tm \<Rightarrow> cstring \<Rightarrow> cstring \<Rightarrow> cstring" where
  "Log_Error t facility message = Log_write t LevelError facility message"

definition Log_Info :: "tm \<Rightarrow> cstring \<Rightarrow> cstring \<Rightarrow> cstring" where
  "Log_Info t facility message = Log_write t LevelInfo facility message"

definition Log_Trace :: "tm \<Rightarrow> cstring \<Rightarrow> cstring \<Rightarrow> cstring" where
  "Log_Trace t facility message = Log_write t LevelTrace facility message"

section \<open>Reading entries\<close>

definition tm_ok :: "tm \<Rightarrow> bool" where
  "tm_ok t \<longleftrightarrow> tm_hour t < 24 \<and> tm_min t < 60 \<and> tm_sec t \<le> 60"

lemma length_setw2: "n < 100 \<Longrightarrow> length (setw2 n) = 2"
  using less_mult_imp_div_less [of n 10 10] by (simp add: setw2_def Let_def to_string.simps [of n] to_string.simps [of "n div 10"])

lemma length_nowHHMMSS: "tm_ok t \<Longrightarrow> length (nowHHMMSS t) = 8"
  by (simp add: nowHHMMSS_def length_setw2 tm_ok_def)

lemma length_level: "length (levelName l) = 5" "length (levelColor l) = 5"
  by (cases l; simp)+

lemma levelName_inject: "levelName l = levelName l' \<longleftrightarrow> l = l'"
  by (cases l; cases l'; simp)

lemma bracket_inject:
  "CHR '']'' \<notin> set f \<Longrightarrow> CHR '']'' \<notin> set f' \<Longrightarrow> f @ CHR '']'' # m = f' @ CHR '']'' # m' \<longleftrightarrow> f = f' \<and> m = m'"
  by (auto simp: append_eq_append_conv2 append_eq_Cons_conv Cons_eq_append_conv)

text \<open>From what is written the level, the facility and the text can be told.\<close>

theorem log_entry_readable:
  assumes "tm_ok t" and "tm_ok t'" and "CHR '']'' \<notin> set facility" and "CHR '']'' \<notin> set facility'"
    and "Log_write t level facility message = Log_write t' level' facility' message'"
  shows "nowHHMMSS t = nowHHMMSS t' \<and> level = level' \<and> facility = facility' \<and> message = message'"
  using assms length_level [of level] length_level [of level']
  by (simp add: Log_write_def length_nowHHMMSS levelName_inject bracket_inject)

text \<open>
  A text with a line break is written as it is: after the break it can hold the whole image of
  another entry, of any level and facility, and the terminal shows two.
\<close>

theorem log_entry_forged:
  "Log_write t level facility (message @ CHR 0x0A # butlast (Log_write t' level' facility' message')) =
   Log_write t level facility message @ Log_write t' level' facility' message'"
proof -
  have "Log_write t' level' facility' message' = butlast (Log_write t' level' facility' message') @ [CHR 0x0A]"
    using append_butlast_last_id [of "Log_write t' level' facility' message'"] by (simp add: Log_write_def)
  then show ?thesis by (subst (1 3) Log_write_def) simp
qed

end
