(* ===== verification/ServerState.thy ===== *)
theory ServerState
  imports Database_Laws Responces Logging "HOL-Library.List_Lexorder" "HOL-Library.Char_ord"
begin

text \<open>
  The state the server keeps while it runs: the file-level variables of
  \<open>TeleCrap.Server/src/Backend.cpp\<close> and \<open>AddonManager.cpp\<close>, the \<open>Transport\<close> objects they point to,
  the database, and the responces handed to the network. The session table and the update queues,
  with their operations, are here; the request handlers are in \<open>Backend\<close>.
\<close>

section \<open>State and environment\<close>

text \<open>
  A \<open>Transport*\<close> is an address. Of the object the handlers read the socket, the token the
  handshake gave out, and the peer.
\<close>

type_synonym transport = nat
type_synonym sockhandle = nat

definition INVALID_SOCKET :: sockhandle where "INVALID_SOCKET = 2 ^ 64 - 1"

record TransportInfo =
  TransportSocket :: sockhandle
  AccessToken :: token_t
  PeerPort :: u16
  PeerAddress :: cstring

text \<open>
  A Lua value that an addon stores; the objects Lua keeps behind a reference are their reference.
\<close>

datatype lua_object = LuaNil | LuaBool bool | LuaInteger int | LuaString cstring | LuaRef nat

text \<open>
  The context an addon's handler is called with. Lua gets a copy whose members it may assign, and
  may keep it: an API call names the context it is made on.
\<close>

record CommandContext =
  ctx_Socket :: transport
  ctx_Request :: CommitMessageRequest
  ctx_Requestor :: UserInfo
  ctx_Chat :: ChatInfo
  ctx_Cmd :: cstring
  ctx_Args :: cstring

text \<open>
  An addon's handler is Lua code: what it does is the calls it makes of the API, each with a
  continuation for the value or the error that comes back (\<open>pcall\<close> may catch it), until it returns
  or raises. \<open>api_call\<close> are the functions \<open>AddonManager::Init\<close> gives to Lua that read or change
  the state of the server.
\<close>

datatype api_call =
    CtxSendSystemMessage CommandContext cstring
  | CtxIsDirectChat CommandContext
  | CtxIsRequestorOwner CommandContext
  | CtxIsRequestorMember CommandContext
  | CtxGetMembers CommandContext
  | CtxGetMessages CommandContext
  | CtxIsUserBanned CommandContext userid_t
  | CtxKickUser CommandContext userid_t
  | CtxBanUser CommandContext userid_t
  | CtxUnbanUser CommandContext userid_t
  | CtxRenameChat CommandContext cstring
  | CtxIsChatOwner CommandContext userid_t
  | CtxIsChatMember CommandContext userid_t
  | CtxSendSystemMessageToChatId CommandContext chatid_t cstring
  | ApiFindUserById userid_t
  | ApiFindUserByName cstring
  | ApiFindChatById chatid_t
  | ApiFindChatByName cstring
  | ApiGetMembersByChatId chatid_t
  | ApiGetMessagesByChatId chatid_t
  | ApiGetChatsByUserId userid_t
  | ApiIsUserBannedFromChat chatid_t userid_t
  | ApiCommitSystemMessage chatid_t timestamp_t cstring
  | ApiCreateGroupChatUnsafe userid_t cstring
  | ApiJoinChatMemberUnsafe chatid_t userid_t
  | ApiBanUserInChatUnsafe chatid_t userid_t
  | ApiUnbanUserInChatUnsafe chatid_t userid_t
  | ApiRemoveMemberFromChatUnsafe chatid_t userid_t
  | ApiRenameChatUnsafe chatid_t cstring
  | StateSet cstring lua_object
  | StateGet cstring
  | StateHas cstring
  | StateDel cstring
  | StateClear
  | StateKeys
  | HttpGet cstring
  | HttpPostJson cstring cstring
  | HttpDownloadToFile cstring cstring
  | ApiLogInfo cstring cstring
  | ApiLogWarn cstring cstring
  | ApiLogError cstring cstring
  | ApiLogTrace cstring cstring
  | ApiUnixTimeMs

datatype api_result =
    RNone
  | RBool bool
  | RUser UserInfo
  | RChat ChatInfo
  | RMessage Message
  | RUsers "UserInfo list"
  | RChats "ChatInfo list"
  | RMessages "Message list"
  | RObject lua_object
  | RKeys "cstring list"
  | RString cstring
  | RTime timestamp_t

datatype addon =
    Return
  | Raise
  | Call api_call "exn + api_result \<Rightarrow> addon"
  | RegisterCommand cstring "CommandContext \<Rightarrow> addon" addon

record Server =
  IsActive :: bool
  ClientSockets :: "transport list"
  ClientUsers :: "(transport \<times> userid_t) list"
  UpdatesCache :: "userid_t \<Rightarrow> Update list"
  transports :: "transport \<Rightarrow> TransportInfo"
  db :: Db
  commands :: "(cstring \<times> (CommandContext \<Rightarrow> addon)) list"
  addonState :: "(cstring \<times> lua_object) list"
  outbox :: "(transport \<times> Responce) list"
  nsent :: nat
  closed :: "sockhandle list"
  addonLog :: "(LogLevel \<times> cstring \<times> cstring) list"
  addonFiles :: "cstring \<rightharpoonup> cstring"
  clockReads :: nat

text \<open>
  The environment: the database's, the two error codes no header of the repository defines, the
  bytes of a fresh \<open>Responce\<close>, what becomes of the \<open>n\<close>-th responce given to the network
  (\<open>None\<close>: sent; otherwise the exception \<open>SendResponce\<close> throws), the order Lua iterates a table
  in, the output of a shell command, what becomes of a text written to a file (\<open>None\<close>: it cannot be
  opened; otherwise what the file holds then and whether the stream is still good), and the clock.
\<close>

record ServerEnv =
  dbenv :: DbEnv
  ERR_EXPIRED :: ErrorCode
  ERR_UNAUTHORIZED :: ErrorCode
  fresh_union :: "byte list"
  send_result :: "nat \<Rightarrow> exn option"
  lua_order :: "cstring list \<Rightarrow> cstring list"
  popen_output :: "cstring \<Rightarrow> cstring option"
  ofstream_write :: "cstring \<Rightarrow> cstring \<Rightarrow> (cstring \<times> bool) option"
  system_clock :: "nat \<Rightarrow> timestamp_t"

type_synonym 'a srvM = "(Server, exn, 'a) sem"

definition liftdb :: "'a dbM \<Rightarrow> 'a srvM" where
  "liftdb m s = (case m (db s) of (r, d) \<Rightarrow> (r, s\<lparr>db := d\<rparr>))"

definition SendResponce :: "ServerEnv \<Rightarrow> transport \<Rightarrow> Responce \<Rightarrow> unit srvM" where
  "SendResponce E t r s =
     (case send_result E (nsent s) of
        None \<Rightarrow> (Inr (), s\<lparr>outbox := outbox s @ [(t, r)], nsent := Suc (nsent s)\<rparr>)
      | Some e \<Rightarrow> (Inl e, s\<lparr>nsent := Suc (nsent s)\<rparr>))"

definition SendError :: "ServerEnv \<Rightarrow> transport \<Rightarrow> cstring \<Rightarrow> ErrorCode \<Rightarrow> unit srvM" where
  "SendError E t message code = SendResponce E t (CreateError (fresh_union E) message code)"

section \<open>Sessions\<close>

definition start :: "unit srvM" where
  "start = modifyM (\<lambda>s. s\<lparr>IsActive := True\<rparr>)"

definition stop :: "unit srvM" where
  "stop = modifyM (\<lambda>s. s\<lparr>IsActive := False\<rparr>)"

definition isActive :: "bool srvM" where
  "isActive = getsM IsActive"

definition addClientSocket :: "transport \<Rightarrow> unit srvM" where
  "addClientSocket t = modifyM (\<lambda>s. s\<lparr>ClientSockets := ClientSockets s @ [t]\<rparr>)"

definition removeClientSocket :: "transport \<Rightarrow> unit srvM" where
  "removeClientSocket t = modifyM (\<lambda>s. s\<lparr>ClientSockets := filter (\<lambda>x. x \<noteq> t) (ClientSockets s),
     ClientUsers := omap_erase t (ClientUsers s)\<rparr>)"

definition assignUserInfo :: "transport \<Rightarrow> userid_t \<Rightarrow> unit srvM" where
  "assignUserInfo t u = modifyM (\<lambda>s. s\<lparr>ClientUsers := omap_put t u (ClientUsers s)\<rparr>)"

definition designUserInfo :: "transport \<Rightarrow> unit srvM" where
  "designUserInfo t = modifyM (\<lambda>s. s\<lparr>ClientUsers := omap_erase t (ClientUsers s)\<rparr>)"

definition findUserBySocket :: "transport \<Rightarrow> userid_t option srvM" where
  "findUserBySocket t = getsM (\<lambda>s. map_option snd (List.find (\<lambda>e. fst e = t) (ClientUsers s)))"

definition findSocketByUser :: "userid_t \<Rightarrow> transport option srvM" where
  "findSocketByUser u = getsM (\<lambda>s. map_option fst (List.find (\<lambda>e. snd e = u) (ClientUsers s)))"

section \<open>Updates waiting for a user\<close>

definition pushUpdateToUser :: "userid_t \<Rightarrow> Update \<Rightarrow> unit srvM" where
  "pushUpdateToUser userId update = modifyM (\<lambda>s. s\<lparr>UpdatesCache :=
     (UpdatesCache s)(userId := UpdatesCache s userId @ [update])\<rparr>)"

definition clearUpdates :: "userid_t \<Rightarrow> unit srvM" where
  "clearUpdates userId = modifyM (\<lambda>s. s\<lparr>UpdatesCache := (UpdatesCache s)(userId := [])\<rparr>)"

definition pushMessageToChatMembersExcept ::
    "ServerEnv \<Rightarrow> ChatInfo \<Rightarrow> Update \<Rightarrow> userid_t \<Rightarrow> unit srvM" where
  "pushMessageToChatMembersExcept E chat update exceptUserId =
     bindM (liftdb (findMembersByChat (dbenv E) chat)) (forEach (\<lambda>member.
       if ui_Id member = exceptUserId then ret () else pushUpdateToUser (ui_Id member) update))"

definition pushUpdateToChatMembersAll :: "ServerEnv \<Rightarrow> ChatInfo \<Rightarrow> Update \<Rightarrow> unit srvM" where
  "pushUpdateToChatMembersAll E chat update =
     bindM (liftdb (findMembersByChat (dbenv E) chat)) (forEach (\<lambda>member.
       pushUpdateToUser (ui_Id member) update))"

section \<open>What the console asks for\<close>

record OnlineClientInfo =
  oc_AccessToken :: token_t
  oc_PeerPort :: u16
  oc_PeerAddress :: cstring
  oc_HasUser :: bool
  oc_UserId :: userid_t

definition listOnlineClients :: "OnlineClientInfo list srvM" where
  "listOnlineClients = getsM (\<lambda>s. map (\<lambda>t. let info = transports s t in
     \<lparr>oc_AccessToken = AccessToken info, oc_PeerPort = PeerPort info, oc_PeerAddress = PeerAddress info,
      oc_HasUser = (map_of (ClientUsers s) t \<noteq> None),
      oc_UserId = (case map_of (ClientUsers s) t of None \<Rightarrow> 0 | Some u \<Rightarrow> u)\<rparr>) (ClientSockets s))"

definition dropConnectionByPeerPort :: "u16 \<Rightarrow> bool srvM" where
  "dropConnectionByPeerPort peerPort =
     bindM (getsM (\<lambda>s. map_option (\<lambda>t. TransportSocket (transports s t))
       (List.find (\<lambda>t. PeerPort (transports s t) = peerPort) (ClientSockets s)))) (\<lambda>found.
     case found of None \<Rightarrow> ret False
     | Some sock \<Rightarrow>
         (if sock = 0 \<or> sock = INVALID_SOCKET then ret False
          else thenM (modifyM (\<lambda>s. s\<lparr>closed := closed s @ [sock]\<rparr>)) (ret True)))"

definition global_alert :: "timestamp_t \<Rightarrow> cstring \<Rightarrow> Update" where
  "global_alert now text = \<lparr>upd_Id = 0, upd_body = MessageSent \<lparr>msg_Id = 0,
     msg_DestChat = \<lparr>chat_Id = 0, chat_Name = fs_of CHATNAME_MAXLENGTH ''server_alert'',
       chat_Type = ChatType_Group\<rparr>,
     msg_From = \<lparr>user_Id = SYSTEM_FROMID, user_Name = fs_of CHATNAME_MAXLENGTH ''SERVER''\<rparr>,
     msg_Timestamp = now, msg_Text = fs_of MESSAGETEXT_MAXLENGTH text\<rparr>\<rparr>"

definition pushGlobalAlert :: "timestamp_t \<Rightarrow> cstring \<Rightarrow> nat srvM" where
  "pushGlobalAlert now text =
     bindM (getsM ClientUsers) (\<lambda>users.
       thenM (forEach (\<lambda>e. pushUpdateToUser (snd e) (global_alert now text)) users)
         (ret (length users)))"

section \<open>What each operation leaves alone\<close>

lemma liftdb_preserves [pres]: "preserves I m \<Longrightarrow> preserves (\<lambda>s. I (db s)) (liftdb m)"
  by (simp add: preserves_def liftdb_def split_beta)

lemma liftdb_readonly: "readonly m \<Longrightarrow> readonly (liftdb m)"
  by (simp add: readonly_def liftdb_def split_beta)

lemma liftdb_run: "liftdb m s = (fst (m (db s)), s\<lparr>db := snd (m (db s))\<rparr>)"
  by (simp add: liftdb_def split: prod.splits)

lemmas liftdb_lookups = db_readonly [THEN liftdb_readonly]

lemma liftdb_keeps [frames]:
  "keeps IsActive (liftdb m)" "keeps ClientSockets (liftdb m)" "keeps ClientUsers (liftdb m)"
  "keeps UpdatesCache (liftdb m)" "keeps transports (liftdb m)" "keeps outbox (liftdb m)"
  "keeps nsent (liftdb m)" "keeps commands (liftdb m)"
  by (simp_all add: keeps_def liftdb_run)

lemma SendResponce_keeps [frames]:
  "keeps db (SendResponce E t r)" "keeps ClientUsers (SendResponce E t r)"
  "keeps ClientSockets (SendResponce E t r)" "keeps UpdatesCache (SendResponce E t r)"
  "keeps transports (SendResponce E t r)" "keeps commands (SendResponce E t r)"
  by (simp_all add: keeps_def SendResponce_def split: option.splits)

lemma SendError_keeps [frames]:
  "keeps db (SendError E t m c)" "keeps ClientUsers (SendError E t m c)"
  "keeps ClientSockets (SendError E t m c)" "keeps UpdatesCache (SendError E t m c)"
  "keeps transports (SendError E t m c)" "keeps commands (SendError E t m c)"
  unfolding SendError_def by (rule SendResponce_keeps)+

lemma session_keeps [frames]:
  "keeps db (assignUserInfo t u)" "keeps db (designUserInfo t)" "keeps db (pushUpdateToUser v x)"
  "keeps db (clearUpdates v)" "keeps db (removeClientSocket t)" "keeps db (addClientSocket t)"
  "keeps ClientUsers (pushUpdateToUser v x)" "keeps ClientUsers (clearUpdates v)"
  "keeps UpdatesCache (assignUserInfo t u)" "keeps UpdatesCache (designUserInfo t)"
  "keeps transports (assignUserInfo t u)" "keeps transports (designUserInfo t)"
  "keeps transports (pushUpdateToUser v x)" "keeps transports (clearUpdates v)"
  "keeps outbox (assignUserInfo t u)" "keeps outbox (designUserInfo t)"
  "keeps outbox (pushUpdateToUser v x)" "keeps outbox (clearUpdates v)"
  "keeps nsent (pushUpdateToUser v x)" "keeps nsent (clearUpdates v)"
  "keeps commands (pushUpdateToUser v x)" "keeps commands (clearUpdates v)"
  "keeps commands (assignUserInfo t u)" "keeps commands (designUserInfo t)"
  unfolding assignUserInfo_def designUserInfo_def pushUpdateToUser_def clearUpdates_def
    removeClientSocket_def addClientSocket_def
  by (rule keeps_modifyM, simp)+

lemma find_keeps [frames]: "keeps f (findUserBySocket t)" "keeps f (findSocketByUser u)"
  unfolding findUserBySocket_def findSocketByUser_def by (rule frames)+

lemma push_keeps [frames]:
  "keeps outbox (pushUpdateToChatMembersAll E c u)" "keeps ClientUsers (pushUpdateToChatMembersAll E c u)"
  "keeps transports (pushUpdateToChatMembersAll E c u)" "keeps nsent (pushUpdateToChatMembersAll E c u)"
  "keeps commands (pushUpdateToChatMembersAll E c u)" "keeps commands (pushMessageToChatMembersExcept E c u x)"
  unfolding pushUpdateToChatMembersAll_def pushMessageToChatMembersExcept_def by (intro frames)+

text \<open>An invariant of the tables is kept by whatever leaves the tables alone.\<close>

lemma push_db [frames]:
  "keeps db (pushUpdateToChatMembersAll E c u)" "keeps db (pushMessageToChatMembersExcept E c u x)"
  unfolding pushUpdateToChatMembersAll_def pushMessageToChatMembersExcept_def
  by (intro frames readonly_keeps [OF liftdb_lookups(7)])+

lemmas db_frames_pres [pres] = SendResponce_keeps(1) [THEN keeps_preserves]
  SendError_keeps(1) [THEN keeps_preserves] session_keeps(1-6) [THEN keeps_preserves]
  find_keeps [THEN keeps_preserves] push_db [THEN keeps_preserves]

section \<open>The update queues as an interface\<close>

locale update_queues =
  fixes pending :: "'s \<Rightarrow> 'u \<Rightarrow> 'm list"
    and push :: "'u \<Rightarrow> 'm \<Rightarrow> 's \<Rightarrow> 's"
    and clear :: "'u \<Rightarrow> 's \<Rightarrow> 's"
  assumes pending_push: "pending (push u m s) v = (if v = u then pending s u @ [m] else pending s v)"
    and pending_clear: "pending (clear u s) v = (if v = u then [] else pending s v)"
begin

lemma pending_broadcast:
  "pending (fold (\<lambda>u. push u m) us s) v = pending s v @ replicate (count_list us v) m"
proof (induction us arbitrary: s)
  case (Cons u us)
  then show ?case
    by (cases "u = v") (auto simp: pending_push replicate_append_same [symmetric])
qed simp

lemma broadcast_once:
  "distinct us \<Longrightarrow> pending (fold (\<lambda>u. push u m) us s) v = pending s v @ (if v \<in> set us then [m] else [])"
  by (simp add: pending_broadcast count_list_distinct)

end

interpretation uq: update_queues UpdatesCache
  "\<lambda>u x s. snd (pushUpdateToUser u x s)" "\<lambda>u s. snd (clearUpdates u s)"
  by unfold_locales (auto simp: pushUpdateToUser_def clearUpdates_def modifyM_def)

text \<open>A loop that pushes one update to a list of users, leaving some out.\<close>

lemma forEach_push:
  "forEach (\<lambda>m. if g m = x then ret () else pushUpdateToUser (g m) upd) ms s =
     (Inr (), fold (\<lambda>u s. snd (pushUpdateToUser u upd s)) (filter (\<lambda>u. u \<noteq> x) (map g ms)) s)"
  by (induction ms arbitrary: s) (auto simp: monad_defs pushUpdateToUser_def)

lemma forEach_push_all:
  "forEach (\<lambda>m. pushUpdateToUser (g m) upd) ms s =
     (Inr (), fold (\<lambda>u s. snd (pushUpdateToUser u upd s)) (map g ms) s)"
  by (induction ms arbitrary: s) (auto simp: monad_defs pushUpdateToUser_def)

lemma fold_push_fields:
  "db (fold (\<lambda>u s. snd (pushUpdateToUser u x s)) us s) = db s"
  "outbox (fold (\<lambda>u s. snd (pushUpdateToUser u x s)) us s) = outbox s"
  "ClientUsers (fold (\<lambda>u s. snd (pushUpdateToUser u x s)) us s) = ClientUsers s"
  "nsent (fold (\<lambda>u s. snd (pushUpdateToUser u x s)) us s) = nsent s"
  "transports (fold (\<lambda>u s. snd (pushUpdateToUser u x s)) us s) = transports s"
  "commands (fold (\<lambda>u s. snd (pushUpdateToUser u x s)) us s) = commands s"
  by (induction us arbitrary: s) (simp_all add: pushUpdateToUser_def modifyM_def)

text \<open>
  Delivery: after a broadcast to the members of a chat every member but the excepted one has the
  update once, at the end of the queue, and nobody else's queue changes.
\<close>

lemma pushMessageToChatMembersExcept_run:
  assumes "DbEnv_ok (dbenv E)" and "Db_ok (db s)" and "ids_small (db s)"
  shows "\<exists>s'. pushMessageToChatMembersExcept E chat upd x s = (Inr (), s') \<and> db s' = db s \<and>
     outbox s' = outbox s \<and> ClientUsers s' = ClientUsers s \<and>
     UpdatesCache s' = (\<lambda>v. UpdatesCache s v @
       (if is_member (db s) v (ci_Id chat) \<and> v \<noteq> x then [upd] else []))"
proof -
  obtain ms where ms: "findMembersByChat (dbenv E) chat (db s) = (Inr ms, db s)"
    by (simp add: findMembersByChat_def getsM_def)
  note spec = findMembersByChat_spec [OF assms ms]
  let ?us = "filter (\<lambda>u. u \<noteq> x) (map ui_Id ms)"
  have "set ?us = {u. is_member (db s) u (ci_Id chat) \<and> u \<noteq> x}"
    using spec(3) by auto
  moreover have "distinct ?us" using spec(2) by simp
  ultimately show ?thesis
    using uq.broadcast_once [of ?us upd s]
    by (simp add: pushMessageToChatMembersExcept_def bindM_def liftdb_run ms forEach_push
        fold_push_fields fun_eq_iff)
qed

section \<open>The session table as an interface\<close>

locale session_table =
  fixes inv :: "'s \<Rightarrow> bool"
    and user_of :: "'s \<Rightarrow> 't \<Rightarrow> 'u option"
    and assign :: "'t \<Rightarrow> 'u \<Rightarrow> 's \<Rightarrow> 's"
    and drop_session :: "'t \<Rightarrow> 's \<Rightarrow> 's"
  assumes inv_assign: "inv s \<Longrightarrow> inv (assign t u s)"
    and inv_drop: "inv s \<Longrightarrow> inv (drop_session t s)"
    and user_of_assign: "inv s \<Longrightarrow> user_of (assign t u s) = (user_of s)(t \<mapsto> u)"
    and user_of_drop: "inv s \<Longrightarrow> user_of (drop_session t s) = (user_of s)(t := None)"
begin

lemma single_session_assign:
  assumes "inv s" and "inj_on (user_of s) (dom (user_of s))"
    and "\<forall>t'. user_of s t' = Some u \<longrightarrow> t' = t"
  shows "inj_on (user_of (assign t u s)) (dom (user_of (assign t u s)))"
  using assms unfolding inj_on_def by (auto simp: user_of_assign)

lemma single_session_drop:
  "inv s \<Longrightarrow> inj_on (user_of s) (dom (user_of s)) \<Longrightarrow>
   inj_on (user_of (drop_session t s)) (dom (user_of (drop_session t s)))"
  unfolding inj_on_def by (auto simp: user_of_drop)

end

interpretation st: session_table "\<lambda>s. omap_ok (ClientUsers s)" "\<lambda>s. map_of (ClientUsers s)"
  "\<lambda>t u s. snd (assignUserInfo t u s)" "\<lambda>t s. snd (designUserInfo t s)"
  by unfold_locales (auto simp: assignUserInfo_def designUserInfo_def modifyM_def map_of_omap_put
      map_of_omap_erase)

lemma findUserBySocket_run: "findUserBySocket t s = (Inr (map_of (ClientUsers s) t), s)"
proof -
  have "map_option snd (List.find (\<lambda>e. fst e = t) xs) = map_of xs t" for xs :: "(transport \<times> userid_t) list"
    by (induction xs) auto
  then show ?thesis by (simp add: findUserBySocket_def getsM_def)
qed

lemma findSocketByUser_None:
  "findSocketByUser u s = (Inr None, s) \<longleftrightarrow> u \<notin> snd ` set (ClientUsers s)"
  by (force simp: findSocketByUser_def getsM_def find_None_iff)

lemma findSocketByUser_Some:
  "findSocketByUser u s = (Inr (Some t), s') \<Longrightarrow> s' = s \<and> (t, u) \<in> set (ClientUsers s)"
  by (force simp: findSocketByUser_def getsM_def dest: find_SomeD)

section \<open>The server's invariant of the database\<close>

definition srv_ok :: "Server \<Rightarrow> bool" where
  "srv_ok s \<longleftrightarrow> Db_ok (db s) \<and> ids_small (db s)"

lemma liftdb_safe:
  assumes "preserves Db_ok m" and "keeps Users_seq m" and "noUB m"
  shows "safe srv_ok (liftdb m)"
  using assms by (simp add: safe_def srv_ok_def liftdb_run preserves_def keeps_def noUB_def ids_small_def)

lemma liftdb_safe_readonly: "readonly m \<Longrightarrow> noUB m \<Longrightarrow> safe srv_ok (liftdb m)"
  by (simp add: readonly_preserves readonly_keeps liftdb_safe)

lemmas liftdb_safes [safes] =
  lookups_readonly(1) [THEN liftdb_safe_readonly, OF operations_noUB(1)]
  lookups_readonly(2) [THEN liftdb_safe_readonly, OF operations_noUB(2)]
  lookups_readonly(3) [THEN liftdb_safe_readonly, OF operations_noUB(3)]
  lookups_readonly(4) [THEN liftdb_safe_readonly, OF operations_noUB(4)]
  lookups_readonly(5) [THEN liftdb_safe_readonly, OF operations_noUB(5)]
  findDirectChatPeer_readonly [THEN liftdb_safe_readonly, OF operations_noUB(6)]
  lookups_readonly(6) [THEN liftdb_safe_readonly, OF operations_noUB(7)]
  lookups_readonly(7) [THEN liftdb_safe_readonly, OF operations_noUB(8)]
  lookups_readonly(8) [THEN liftdb_safe_readonly, OF operations_noUB(9)]
  liftdb_safe [OF createGroupChat_ok operations_keep_Users(1) operations_noUB(11)]
  liftdb_safe [OF createDirectChat_ok operations_keep_Users(2) operations_noUB(12)]
  liftdb_safe [OF member_ops_ok(1) operations_keep_Users(3) operations_noUB(13)]
  liftdb_safe [OF commits_ok(1) operations_keep_Users(4) operations_noUB(14)]
  liftdb_safe [OF commits_ok(2) operations_keep_Users(5) operations_noUB(15)]
  liftdb_safe [OF member_ops_ok(2) operations_keep_Users(6) operations_noUB(16)]
  liftdb_safe [OF unban_ok operations_keep_Users(7) operations_noUB(17)]
  liftdb_safe [OF removeMember_ok operations_keep_Users(8) operations_noUB(18)]
  liftdb_safe [OF renameChat_ok operations_keep_Users(9) operations_noUB(19)]

lemma findMessagesByChat_safe [safes]:
  "DbEnv_ok (dbenv E) \<Longrightarrow> safe srv_ok (liftdb (findMessagesByChat (dbenv E) c))"
  by (simp add: safe_def srv_ok_def liftdb_run findMessagesByChat_run)

lemma keeps_db_safe: "keeps db m \<Longrightarrow> noUB m \<Longrightarrow> safe srv_ok m"
  by (simp add: safe_def srv_ok_def keeps_def noUB_def)

lemma session_noUB [noub]:
  "noUB (assignUserInfo t u)" "noUB (designUserInfo t)" "noUB (pushUpdateToUser v x)"
  "noUB (clearUpdates v)" "noUB (findUserBySocket t)" "noUB (findSocketByUser u)"
  unfolding assignUserInfo_def designUserInfo_def pushUpdateToUser_def clearUpdates_def
    findUserBySocket_def findSocketByUser_def by (rule noub)+

lemma liftdb_noUB [noub]: "noUB m \<Longrightarrow> noUB (liftdb m)"
  by (simp add: noUB_def liftdb_run)

lemma push_noUB [noub]:
  "noUB (pushUpdateToChatMembersAll E c u)" "noUB (pushMessageToChatMembersExcept E c u x)"
  unfolding pushUpdateToChatMembersAll_def pushMessageToChatMembersExcept_def by (intro noub)+

lemmas session_safes [safes] =
  keeps_db_safe [OF session_keeps(1) session_noUB(1)] keeps_db_safe [OF session_keeps(2) session_noUB(2)]
  keeps_db_safe [OF session_keeps(3) session_noUB(3)] keeps_db_safe [OF session_keeps(4) session_noUB(4)]
  keeps_db_safe [OF find_keeps(1) session_noUB(5)] keeps_db_safe [OF find_keeps(2) session_noUB(6)]
  keeps_db_safe [OF push_db(1) push_noUB(1)] keeps_db_safe [OF push_db(2) push_noUB(2)]

text \<open>What \<open>SendResponce\<close> throws are the exceptions of the protocol.\<close>

definition net_ok :: "ServerEnv \<Rightarrow> bool" where
  "net_ok E \<longleftrightarrow> (\<forall>n e. send_result E n = Some e \<longrightarrow> is_runtime_error e)"

lemma SendResponce_safe [safes]: "net_ok E \<Longrightarrow> safe srv_ok (SendResponce E t r)"
  by (rule keeps_db_safe [OF SendResponce_keeps(1)])
    (force simp: noUB_def SendResponce_def net_ok_def split: option.splits)

lemma SendError_safe [safes]: "net_ok E \<Longrightarrow> safe srv_ok (SendError E t m c)"
  unfolding SendError_def by (rule SendResponce_safe)

section \<open>A small server\<close>

text \<open>Ann is logged in on transport 10, transport 20 is connected, the network always sends.\<close>

definition Env_plain :: ServerEnv where
  "Env_plain = \<lparr>dbenv = DbEnv_plain, ERR_EXPIRED = 1, ERR_UNAUTHORIZED = 2,
     fresh_union = replicate RESPONCE_UNION 0, send_result = (\<lambda>_. None), lua_order = id,
     popen_output = (\<lambda>_. None), ofstream_write = (\<lambda>_ content. Some (content, True)), system_clock = (\<lambda>_. 0)\<rparr>"

definition Server_demo :: Server where
  "Server_demo = \<lparr>IsActive = True, ClientSockets = [10, 20], ClientUsers = [(10, 2)],
     UpdatesCache = (\<lambda>_. []),
     transports = (\<lambda>t. \<lparr>TransportSocket = t, AccessToken = of_nat (7 * t), PeerPort = of_nat t, PeerAddress = ''::1''\<rparr>),
     db = Db_demo, commands = [(''out'', \<lambda>ctx. Call (CtxBanUser ctx 3) (\<lambda>_. Return))],
     addonState = [], outbox = [], nsent = 0, closed = [], addonLog = [], addonFiles = Map.empty, clockReads = 0\<rparr>"

lemma Server_demo_simps [simp]:
  "ClientUsers Server_demo = [(10, 2)]" "db Server_demo = Db_demo" "nsent Server_demo = 0"
  "outbox Server_demo = []" "UpdatesCache Server_demo u = []"
  "AccessToken (transports Server_demo t) = of_nat (7 * t)" "TransportSocket (transports Server_demo t) = t"
  "map fst (commands Server_demo) = [''out'']"
  by (simp_all add: Server_demo_def)

lemma demo_ok: "srv_ok Server_demo" "DbEnv_ok (dbenv Env_plain)" "net_ok Env_plain"
  using Db_demo_ok Db_demo_small DbEnv_plain_ok by (simp_all add: srv_ok_def Env_plain_def net_ok_def)

end
