(* ===== verification/AddonManager.thy ===== *)
theory AddonManager
  imports ServerState
begin

text \<open>
  \<open>TeleCrap.Server/src/AddonManager.cpp\<close>: the API that addons get, one definition per function of
  \<open>CommandContext\<close> and per function registered with Lua, the execution of a handler, and the table of
  commands. No exception leaves \<open>ExecuteCommand\<close>, and nothing an addon does breaks the invariant
  of the tables.
\<close>

section \<open>Helpers\<close>

definition isDirectChatInfo :: "ChatInfo \<Rightarrow> bool" where
  "isDirectChatInfo chat \<longleftrightarrow> ci_OwnerId chat = SYSTEM_FROMID"

definition asChatModel :: "ChatInfo \<Rightarrow> Chat" where
  "asChatModel chat = \<lparr>chat_Id = ci_Id chat, chat_Name = ci_Name chat,
     chat_Type = (if isDirectChatInfo chat then ChatType_Direct else ChatType_Group)\<rparr>"

definition asUserModel :: "UserInfo \<Rightarrow> User" where
  "asUserModel user = \<lparr>user_Id = ui_Id user, user_Name = ui_Name user\<rparr>"

text \<open>\<open>catch (...)\<close>: any exception, and nothing that is not one.\<close>

definition catchAll :: "'a srvM \<Rightarrow> 'a \<Rightarrow> 'a srvM" where
  "catchAll m x = tryM m (\<lambda>e. if e = undefined_behaviour then throw e else ret x)"

definition hasMember :: "ServerEnv \<Rightarrow> ChatInfo \<Rightarrow> userid_t \<Rightarrow> bool srvM" where
  "hasMember E chat u = bindM (liftdb (findMembersByChat (dbenv E) chat)) (\<lambda>members.
     ret (\<exists>m\<in>set members. ui_Id m = u))"

fun shellEscape :: "cstring \<Rightarrow> cstring" where
  "shellEscape [] = []"
| "shellEscape (c # input) = (if c = CHR 0x22 then CHR 0x5C # CHR 0x22 # shellEscape input
     else c # shellEscape input)"

definition execCaptureUnsafe :: "ServerEnv \<Rightarrow> cstring \<Rightarrow> cstring" where
  "execCaptureUnsafe E command = (case popen_output E command of None \<Rightarrow> [] | Some out \<Rightarrow> out)"

text \<open>\<open>writeFileUnsafe\<close>: the file is truncated as it is opened; the stream is asked before it is closed.\<close>

definition writeFileUnsafe :: "ServerEnv \<Rightarrow> cstring \<Rightarrow> cstring \<Rightarrow> bool srvM" where
  "writeFileUnsafe E path content =
     (case ofstream_write E path content of
        None \<Rightarrow> ret False
      | Some (stored, good) \<Rightarrow> thenM (modifyM (\<lambda>s. s\<lparr>addonFiles := (addonFiles s)(path \<mapsto> stored)\<rparr>)) (ret good))"

section \<open>The methods of \<open>CommandContext\<close>\<close>

definition ctxSendSystemMessage :: "ServerEnv \<Rightarrow> CommandContext \<Rightarrow> cstring \<Rightarrow> unit srvM" where
  "ctxSendSystemMessage E ctx text = catchAll
     (bindM (liftdb (commitSystemMessage (ctx_Chat ctx) (cm_Timestamp (ctx_Request ctx)) text)) (\<lambda>message.
        pushUpdateToChatMembersAll E (ctx_Chat ctx) \<lparr>upd_Id = 0, upd_body = MessageSent message\<rparr>)) ()"

definition ctxKickUser :: "CommandContext \<Rightarrow> userid_t \<Rightarrow> bool srvM" where
  "ctxKickUser ctx userId =
     (if isDirectChatInfo (ctx_Chat ctx) then ret False
      else if userId = ci_OwnerId (ctx_Chat ctx) then ret False
      else thenM (liftdb (removeMemberFromChat (ci_Id (ctx_Chat ctx)) userId)) (ret True))"

definition ctxBanUser :: "CommandContext \<Rightarrow> userid_t \<Rightarrow> bool srvM" where
  "ctxBanUser ctx userId =
     (if isDirectChatInfo (ctx_Chat ctx) then ret False
      else bindM (liftdb (findUserById (Some userId))) (\<lambda>target.
        case target of None \<Rightarrow> ret False
        | Some u \<Rightarrow>
            (if ui_Id u = ci_OwnerId (ctx_Chat ctx) then ret False
             else thenM (liftdb (banUserInChat (ctx_Chat ctx) u))
                 (thenM (liftdb (removeMemberFromChat (ci_Id (ctx_Chat ctx)) (ui_Id u))) (ret True)))))"

definition ctxUnbanUser :: "CommandContext \<Rightarrow> userid_t \<Rightarrow> bool srvM" where
  "ctxUnbanUser ctx userId =
     (if isDirectChatInfo (ctx_Chat ctx) then ret False
      else thenM (liftdb (unbanUserInChat (ci_Id (ctx_Chat ctx)) userId)) (ret True))"

definition ctxRenameChat :: "CommandContext \<Rightarrow> cstring \<Rightarrow> bool srvM" where
  "ctxRenameChat ctx newName =
     (if isDirectChatInfo (ctx_Chat ctx) \<or> newName = [] then ret False
      else thenM (liftdb (renameChat (ctx_Chat ctx) (fs_of CHATNAME_MAXLENGTH newName))) (ret True))"

definition ctxSendSystemMessageToChatId ::
    "CommandContext \<Rightarrow> chatid_t \<Rightarrow> cstring \<Rightarrow> Message option srvM" where
  "ctxSendSystemMessageToChatId ctx chatId text =
     bindM (liftdb (findChatById (Some chatId))) (\<lambda>target.
       case target of None \<Rightarrow> ret None
       | Some c \<Rightarrow> bindM (liftdb (commitSystemMessage c (cm_Timestamp (ctx_Request ctx)) text))
           (\<lambda>m. ret (Some m)))"

section \<open>The functions registered with Lua\<close>

definition apiFindUserById :: "userid_t \<Rightarrow> UserInfo option srvM" where
  "apiFindUserById userId = liftdb (findUserById (Some userId))"

definition apiFindUserByName :: "cstring \<Rightarrow> UserInfo option srvM" where
  "apiFindUserByName username = liftdb (findUserByName (fs_of CHATNAME_MAXLENGTH username))"

definition apiFindChatById :: "chatid_t \<Rightarrow> ChatInfo option srvM" where
  "apiFindChatById chatId = liftdb (findChatById (Some chatId))"

definition apiFindChatByName :: "ServerEnv \<Rightarrow> cstring \<Rightarrow> ChatInfo option srvM" where
  "apiFindChatByName E chatName = liftdb (findChatByName (dbenv E) (fs_of CHATNAME_MAXLENGTH chatName))"

definition apiIsUserBannedFromChat :: "chatid_t \<Rightarrow> userid_t \<Rightarrow> bool srvM" where
  "apiIsUserBannedFromChat chatId userId = liftdb (isUserBannedFromChat chatId userId)"

definition apiUnbanUserInChatUnsafe :: "chatid_t \<Rightarrow> userid_t \<Rightarrow> bool srvM" where
  "apiUnbanUserInChatUnsafe chatId userId = thenM (liftdb (unbanUserInChat chatId userId)) (ret True)"

definition apiRemoveMemberFromChatUnsafe :: "chatid_t \<Rightarrow> userid_t \<Rightarrow> bool srvM" where
  "apiRemoveMemberFromChatUnsafe chatId userId = thenM (liftdb (removeMemberFromChat chatId userId)) (ret True)"

definition apiMembersByChatId :: "ServerEnv \<Rightarrow> chatid_t \<Rightarrow> UserInfo list srvM" where
  "apiMembersByChatId E chatId = bindM (liftdb (findChatById (Some chatId))) (\<lambda>chat.
     case chat of None \<Rightarrow> ret [] | Some c \<Rightarrow> liftdb (findMembersByChat (dbenv E) c))"

definition apiMessagesByChatId :: "ServerEnv \<Rightarrow> chatid_t \<Rightarrow> Message list srvM" where
  "apiMessagesByChatId E chatId = bindM (liftdb (findChatById (Some chatId))) (\<lambda>chat.
     case chat of None \<Rightarrow> ret [] | Some c \<Rightarrow> liftdb (findMessagesByChat (dbenv E) c))"

definition apiChatsByUserId :: "ServerEnv \<Rightarrow> userid_t \<Rightarrow> ChatInfo list srvM" where
  "apiChatsByUserId E userId = bindM (liftdb (findUserById (Some userId))) (\<lambda>user.
     case user of None \<Rightarrow> ret [] | Some u \<Rightarrow> liftdb (findChatsByUser (dbenv E) u))"

definition apiCommitSystemMessage :: "chatid_t \<Rightarrow> timestamp_t \<Rightarrow> cstring \<Rightarrow> Message option srvM" where
  "apiCommitSystemMessage chatId ts text = bindM (liftdb (findChatById (Some chatId))) (\<lambda>chat.
     case chat of None \<Rightarrow> ret None
     | Some c \<Rightarrow> bindM (liftdb (commitSystemMessage c ts text)) (\<lambda>m. ret (Some m)))"

definition apiCreateGroupChatUnsafe :: "userid_t \<Rightarrow> cstring \<Rightarrow> ChatInfo option srvM" where
  "apiCreateGroupChatUnsafe ownerUserId chatName = bindM (liftdb (findUserById (Some ownerUserId))) (\<lambda>owner.
     case owner of None \<Rightarrow> ret None
     | Some w \<Rightarrow> (if chatName = [] then ret None
         else bindM (liftdb (createGroupChat w (fs_of CHATNAME_MAXLENGTH chatName))) (\<lambda>c. ret (Some c))))"

definition apiJoinChatMemberUnsafe :: "chatid_t \<Rightarrow> userid_t \<Rightarrow> bool srvM" where
  "apiJoinChatMemberUnsafe chatId userId = bindM (liftdb (findChatById (Some chatId))) (\<lambda>chat.
     bindM (liftdb (findUserById (Some userId))) (\<lambda>user.
       case (chat, user) of
         (Some c, Some u) \<Rightarrow> thenM (liftdb (joinChatMember c u)) (ret True)
       | _ \<Rightarrow> ret False))"

definition apiBanUserInChatUnsafe :: "chatid_t \<Rightarrow> userid_t \<Rightarrow> bool srvM" where
  "apiBanUserInChatUnsafe chatId userId = bindM (liftdb (findChatById (Some chatId))) (\<lambda>chat.
     bindM (liftdb (findUserById (Some userId))) (\<lambda>user.
       case (chat, user) of
         (Some c, Some u) \<Rightarrow> thenM (liftdb (banUserInChat c u)) (ret True)
       | _ \<Rightarrow> ret False))"

definition apiRenameChatUnsafe :: "chatid_t \<Rightarrow> cstring \<Rightarrow> bool srvM" where
  "apiRenameChatUnsafe chatId newName = bindM (liftdb (findChatById (Some chatId))) (\<lambda>chat.
     case chat of None \<Rightarrow> ret False
     | Some c \<Rightarrow> (if newName = [] then ret False
         else thenM (liftdb (renameChat c (fs_of CHATNAME_MAXLENGTH newName))) (ret True)))"

text \<open>The module \<open>state\<close>: a Lua table, in which a nil is an absent entry.\<close>

definition stateSet :: "cstring \<Rightarrow> lua_object \<Rightarrow> unit srvM" where
  "stateSet key value = modifyM (\<lambda>s. s\<lparr>addonState :=
     (if value = LuaNil then omap_erase key (addonState s) else omap_put key value (addonState s))\<rparr>)"

definition stateGet :: "cstring \<Rightarrow> lua_object srvM" where
  "stateGet key = getsM (\<lambda>s. case map_of (addonState s) key of None \<Rightarrow> LuaNil | Some v \<Rightarrow> v)"

definition stateHas :: "cstring \<Rightarrow> bool srvM" where
  "stateHas key = bindM (stateGet key) (\<lambda>v. ret (v \<noteq> LuaNil))"

definition stateDel :: "cstring \<Rightarrow> unit srvM" where
  "stateDel key = modifyM (\<lambda>s. s\<lparr>addonState := omap_erase key (addonState s)\<rparr>)"

definition stateClear :: "unit srvM" where
  "stateClear = modifyM (\<lambda>s. s\<lparr>addonState := []\<rparr>)"

definition stateKeys :: "ServerEnv \<Rightarrow> cstring list srvM" where
  "stateKeys E = getsM (\<lambda>s. lua_order E (map fst (addonState s)))"

text \<open>The module \<open>http\<close> (the branch for systems that are not Windows).\<close>

definition http_get_command :: "cstring \<Rightarrow> cstring" where
  "http_get_command url = ''curl -fsSL '' @ [CHR 0x22] @ shellEscape url @ [CHR 0x22]"

definition http_post_command :: "cstring \<Rightarrow> cstring \<Rightarrow> cstring" where
  "http_post_command url jsonBody = ''curl -fsSL -X POST -H '' @ [CHR 0x22] @
     ''Content-Type: application/json'' @ [CHR 0x22] @ '' --data '' @ [CHR 0x22] @ shellEscape jsonBody @
     [CHR 0x22] @ '' '' @ [CHR 0x22] @ shellEscape url @ [CHR 0x22]"

definition httpDownloadToFile :: "ServerEnv \<Rightarrow> cstring \<Rightarrow> cstring \<Rightarrow> bool srvM" where
  "httpDownloadToFile E url filePath =
     (let content = execCaptureUnsafe E (http_get_command url) in
      if content = [] then ret False else writeFileUnsafe E filePath content)"

text \<open>The log functions, and the clock.\<close>

definition addon_log :: "LogLevel \<Rightarrow> cstring \<Rightarrow> cstring \<Rightarrow> unit srvM" where
  "addon_log level facility message = modifyM (\<lambda>s. s\<lparr>addonLog := addonLog s @ [(level, facility, message)]\<rparr>)"

definition apiLogInfo :: "cstring \<Rightarrow> cstring \<Rightarrow> unit srvM" where
  "apiLogInfo tag message = addon_log LevelInfo (''Lua: '' @ tag) message"

definition apiLogWarn :: "cstring \<Rightarrow> cstring \<Rightarrow> unit srvM" where
  "apiLogWarn tag message = addon_log LevelInfo (''Lua/WARN: '' @ tag) message"

definition apiLogError :: "cstring \<Rightarrow> cstring \<Rightarrow> unit srvM" where
  "apiLogError tag message = addon_log LevelError (''Lua: '' @ tag) message"

definition apiLogTrace :: "cstring \<Rightarrow> cstring \<Rightarrow> unit srvM" where
  "apiLogTrace tag message = addon_log LevelTrace (''Lua: '' @ tag) message"

definition apiUnixTimeMs :: "ServerEnv \<Rightarrow> timestamp_t srvM" where
  "apiUnixTimeMs E = bindM (getsM clockReads) (\<lambda>n.
     thenM (modifyM (\<lambda>s. s\<lparr>clockReads := Suc n\<rparr>)) (ret (system_clock E n)))"

definition apiRegisterCommand :: "cstring \<Rightarrow> (CommandContext \<Rightarrow> addon) \<Rightarrow> unit srvM" where
  "apiRegisterCommand name callback = modifyM (\<lambda>s. s\<lparr>commands := omap_put name callback (commands s)\<rparr>)"

section \<open>Running a handler\<close>

definition opt_result :: "('a \<Rightarrow> api_result) \<Rightarrow> 'a option \<Rightarrow> api_result" where
  "opt_result f x = (case x of None \<Rightarrow> RNone | Some y \<Rightarrow> f y)"

definition mapM :: "('a \<Rightarrow> 'b) \<Rightarrow> 'a srvM \<Rightarrow> 'b srvM" where
  "mapM f m = bindM m (\<lambda>x. ret (f x))"

fun api :: "ServerEnv \<Rightarrow> api_call \<Rightarrow> api_result srvM" where
  "api E (CtxSendSystemMessage ctx text) = mapM (\<lambda>_. RNone) (ctxSendSystemMessage E ctx text)"
| "api E (CtxIsDirectChat ctx) = ret (RBool (isDirectChatInfo (ctx_Chat ctx)))"
| "api E (CtxIsRequestorOwner ctx) = ret (RBool (ci_OwnerId (ctx_Chat ctx) = ui_Id (ctx_Requestor ctx)))"
| "api E (CtxIsRequestorMember ctx) = mapM RBool (hasMember E (ctx_Chat ctx) (ui_Id (ctx_Requestor ctx)))"
| "api E (CtxGetMembers ctx) = mapM RUsers (liftdb (findMembersByChat (dbenv E) (ctx_Chat ctx)))"
| "api E (CtxGetMessages ctx) = mapM RMessages (liftdb (findMessagesByChat (dbenv E) (ctx_Chat ctx)))"
| "api E (CtxIsUserBanned ctx u) = mapM RBool (liftdb (isUserBannedFromChat (ci_Id (ctx_Chat ctx)) u))"
| "api E (CtxKickUser ctx u) = mapM RBool (ctxKickUser ctx u)"
| "api E (CtxBanUser ctx u) = mapM RBool (ctxBanUser ctx u)"
| "api E (CtxUnbanUser ctx u) = mapM RBool (ctxUnbanUser ctx u)"
| "api E (CtxRenameChat ctx n) = mapM RBool (ctxRenameChat ctx n)"
| "api E (CtxIsChatOwner ctx u) = ret (RBool (ci_OwnerId (ctx_Chat ctx) = u))"
| "api E (CtxIsChatMember ctx u) = mapM RBool (hasMember E (ctx_Chat ctx) u)"
| "api E (CtxSendSystemMessageToChatId ctx c text) =
     mapM (opt_result RMessage) (ctxSendSystemMessageToChatId ctx c text)"
| "api E (ApiFindUserById u) = mapM (opt_result RUser) (apiFindUserById u)"
| "api E (ApiFindUserByName n) = mapM (opt_result RUser) (apiFindUserByName n)"
| "api E (ApiFindChatById c) = mapM (opt_result RChat) (apiFindChatById c)"
| "api E (ApiFindChatByName n) = mapM (opt_result RChat) (apiFindChatByName E n)"
| "api E (ApiGetMembersByChatId c) = mapM RUsers (apiMembersByChatId E c)"
| "api E (ApiGetMessagesByChatId c) = mapM RMessages (apiMessagesByChatId E c)"
| "api E (ApiGetChatsByUserId u) = mapM RChats (apiChatsByUserId E u)"
| "api E (ApiIsUserBannedFromChat c u) = mapM RBool (apiIsUserBannedFromChat c u)"
| "api E (ApiCommitSystemMessage c ts text) = mapM (opt_result RMessage) (apiCommitSystemMessage c ts text)"
| "api E (ApiCreateGroupChatUnsafe u n) = mapM (opt_result RChat) (apiCreateGroupChatUnsafe u n)"
| "api E (ApiJoinChatMemberUnsafe c u) = mapM RBool (apiJoinChatMemberUnsafe c u)"
| "api E (ApiBanUserInChatUnsafe c u) = mapM RBool (apiBanUserInChatUnsafe c u)"
| "api E (ApiUnbanUserInChatUnsafe c u) = mapM RBool (apiUnbanUserInChatUnsafe c u)"
| "api E (ApiRemoveMemberFromChatUnsafe c u) = mapM RBool (apiRemoveMemberFromChatUnsafe c u)"
| "api E (ApiRenameChatUnsafe c n) = mapM RBool (apiRenameChatUnsafe c n)"
| "api E (StateSet k v) = mapM (\<lambda>_. RNone) (stateSet k v)"
| "api E (StateGet k) = mapM RObject (stateGet k)"
| "api E (StateHas k) = mapM RBool (stateHas k)"
| "api E (StateDel k) = mapM (\<lambda>_. RNone) (stateDel k)"
| "api E StateClear = mapM (\<lambda>_. RNone) stateClear"
| "api E StateKeys = mapM RKeys (stateKeys E)"
| "api E (HttpGet url) = ret (RString (execCaptureUnsafe E (http_get_command url)))"
| "api E (HttpPostJson url body) = ret (RString (execCaptureUnsafe E (http_post_command url body)))"
| "api E (HttpDownloadToFile url path) = mapM RBool (httpDownloadToFile E url path)"
| "api E (ApiLogInfo tag msg) = mapM (\<lambda>_. RNone) (apiLogInfo tag msg)"
| "api E (ApiLogWarn tag msg) = mapM (\<lambda>_. RNone) (apiLogWarn tag msg)"
| "api E (ApiLogError tag msg) = mapM (\<lambda>_. RNone) (apiLogError tag msg)"
| "api E (ApiLogTrace tag msg) = mapM (\<lambda>_. RNone) (apiLogTrace tag msg)"
| "api E ApiUnixTimeMs = mapM RTime (apiUnixTimeMs E)"

text \<open>
  The value is whether the handler returned; an error of an API call goes to the handler, which may
  catch it; only undefined behaviour ends the program.
\<close>

primrec run_addon :: "ServerEnv \<Rightarrow> addon \<Rightarrow> bool srvM" where
  "run_addon E Return = ret True"
| "run_addon E Raise = ret False"
| "run_addon E (Call c k) = (\<lambda>s. case api E c s of
     (Inl e, s') \<Rightarrow> (if e = undefined_behaviour then (Inl e, s') else run_addon E (k (Inl e)) s')
   | (Inr v, s') \<Rightarrow> run_addon E (k (Inr v)) s')"
| "run_addon E (RegisterCommand name callback rest) =
     thenM (apiRegisterCommand name callback) (run_addon E rest)"

definition ExecuteCommand :: "ServerEnv \<Rightarrow> cstring \<Rightarrow> cstring \<Rightarrow> transport \<Rightarrow> CommitMessageRequest \<Rightarrow>
    UserInfo \<Rightarrow> ChatInfo \<Rightarrow> bool srvM" where
  "ExecuteCommand E cmd args t request requestor chat =
     bindM (getsM commands) (\<lambda>cs.
       case map_of cs cmd of None \<Rightarrow> ret False
       | Some func \<Rightarrow> thenM (run_addon E (func \<lparr>ctx_Socket = t, ctx_Request = request,
             ctx_Requestor = requestor, ctx_Chat = chat, ctx_Cmd = cmd, ctx_Args = args\<rparr>)) (ret True))"

definition ListRegisteredCommands :: "cstring list srvM" where
  "ListRegisteredCommands = getsM (\<lambda>s. remdups_adj (sort (map fst (commands s))))"

text \<open>\<open>AddonManager::Init\<close>, with the scripts of the directory in the order they are found.\<close>

definition AddonInit :: "ServerEnv \<Rightarrow> addon list \<Rightarrow> unit srvM" where
  "AddonInit E scripts = thenM (modifyM (\<lambda>s. s\<lparr>commands := [], addonState := []\<rparr>))
     (forEach (\<lambda>script. thenM (run_addon E script) (ret ())) scripts)"

section \<open>What addons cannot do\<close>

lemma mapM_pres [pres]: "preserves I m \<Longrightarrow> preserves I (mapM f m)"
  unfolding mapM_def by (intro pres)

lemma mapM_keeps [frames]: "keeps g m \<Longrightarrow> keeps g (mapM f m)"
  unfolding mapM_def by (intro frames)

lemma catchAll_pres [pres]: "preserves I m \<Longrightarrow> preserves I (catchAll m x)"
  unfolding catchAll_def by (intro pres)

lemma pair_option_pres [pres]:
  "(\<And>a b. x = Some a \<Longrightarrow> y = Some b \<Longrightarrow> preserves I (f a b)) \<Longrightarrow> preserves I g \<Longrightarrow>
   preserves I (case (x, y) of (Some a, Some b) \<Rightarrow> f a b | _ \<Rightarrow> g)"
  by (auto split: option.splits)

lemmas api_plain_defs = apiFindUserById_def apiFindUserByName_def apiFindChatById_def apiFindChatByName_def
  apiIsUserBannedFromChat_def apiUnbanUserInChatUnsafe_def apiRemoveMemberFromChatUnsafe_def httpDownloadToFile_def Let_def

lemmas api_defs = ctxSendSystemMessage_def ctxKickUser_def ctxBanUser_def ctxUnbanUser_def
  ctxRenameChat_def ctxSendSystemMessageToChatId_def apiMembersByChatId_def apiMessagesByChatId_def
  apiChatsByUserId_def apiCommitSystemMessage_def apiCreateGroupChatUnsafe_def
  apiJoinChatMemberUnsafe_def apiBanUserInChatUnsafe_def apiRenameChatUnsafe_def hasMember_def
  api_plain_defs

lemma state_module_db:
  "keeps db (stateSet k v)" "keeps db (stateGet k)" "keeps db (stateHas k)" "keeps db (stateDel k)"
  "keeps db stateClear" "keeps db (stateKeys E)"
  unfolding stateSet_def stateGet_def stateHas_def stateDel_def stateClear_def stateKeys_def
  by (intro frames keeps_modifyM; simp)+

lemmas state_module_pres [pres] = state_module_db [THEN keeps_preserves]

lemmas addon_own_defs = writeFileUnsafe_def apiLogInfo_def apiLogWarn_def apiLogError_def apiLogTrace_def
  addon_log_def apiUnixTimeMs_def

text \<open>The log, the files and the clock are the addons' own: they touch nothing else.\<close>

lemma addon_own_keeps:
  assumes "\<And>s l. f (s\<lparr>addonLog := l\<rparr>) = f s" and "\<And>s l. f (s\<lparr>addonFiles := l\<rparr>) = f s" and "\<And>s l. f (s\<lparr>clockReads := l\<rparr>) = f s"
  shows "keeps f (writeFileUnsafe E p x)" "keeps f (apiLogInfo a b)" "keeps f (apiLogWarn a b)" "keeps f (apiLogError a b)"
    "keeps f (apiLogTrace a b)" "keeps f (apiUnixTimeMs E)"
  unfolding addon_own_defs using assms by (auto intro!: frames keeps_modifyM split: option.splits)

lemmas addon_own_db = addon_own_keeps [where f = db, simplified]
lemmas addon_own_pres [pres] = addon_own_db [THEN keeps_preserves]
lemmas addon_own_frames [frames] = addon_own_keeps [where f = outbox, simplified] addon_own_keeps [where f = ClientUsers, simplified]
  addon_own_keeps [where f = transports, simplified] addon_own_keeps [where f = nsent, simplified]
  addon_own_keeps [where f = commands, simplified] addon_own_keeps [where f = ClientSockets, simplified]

lemma run_addon_pres:
  assumes "\<And>c. preserves I (api E c)" and "\<And>s cs. I s \<Longrightarrow> I (s\<lparr>commands := cs\<rparr>)"
  shows "preserves I (run_addon E a)"
proof (induction a)
  case (Call c k)
  then show ?case using assms(1) [of c]
    by (fastforce simp: preserves_def split: prod.splits sum.splits)
next
  case (RegisterCommand n f a)
  then show ?case using assms(2) by (auto simp: apiRegisterCommand_def intro!: pres preserves_modifyM)
qed (simp_all add: pres)

context table_invariant
begin

lemma api_inv: "preserves (\<lambda>s. I (db s)) (api E c)"
  by (cases c; simp only: api.simps api_defs; intro pres changes_inv)

end

section \<open>What comes out of a handler\<close>

lemma catchAll_safe [safes]: "safe I m \<Longrightarrow> safe I (catchAll m x)"
  unfolding catchAll_def by (intro safes) simp_all

lemma mapM_safe [safes]: "safe I m \<Longrightarrow> safe I (mapM f m)"
  unfolding mapM_def by (intro safes)

lemma state_module_noUB [noub]:
  "noUB (stateSet k v)" "noUB (stateGet k)" "noUB (stateHas k)" "noUB (stateDel k)"
  "noUB stateClear" "noUB (stateKeys E)"
  unfolding stateSet_def stateGet_def stateHas_def stateDel_def stateClear_def stateKeys_def
  by (intro noub)+

lemmas state_module_safe [safes] =
  keeps_db_safe [OF state_module_db(1) state_module_noUB(1)] keeps_db_safe [OF state_module_db(2) state_module_noUB(2)]
  keeps_db_safe [OF state_module_db(3) state_module_noUB(3)] keeps_db_safe [OF state_module_db(4) state_module_noUB(4)]
  keeps_db_safe [OF state_module_db(5) state_module_noUB(5)] keeps_db_safe [OF state_module_db(6) state_module_noUB(6)]

lemma addon_own_noUB [noub]:
  "noUB (writeFileUnsafe E p x)" "noUB (apiLogInfo a b)" "noUB (apiLogWarn a b)" "noUB (apiLogError a b)"
  "noUB (apiLogTrace a b)" "noUB (apiUnixTimeMs E)"
  unfolding addon_own_defs by (auto intro!: noub split: option.splits)

lemmas addon_own_safe [safes] =
  keeps_db_safe [OF addon_own_db(1) addon_own_noUB(1)] keeps_db_safe [OF addon_own_db(2) addon_own_noUB(2)]
  keeps_db_safe [OF addon_own_db(3) addon_own_noUB(3)] keeps_db_safe [OF addon_own_db(4) addon_own_noUB(4)]
  keeps_db_safe [OF addon_own_db(5) addon_own_noUB(5)] keeps_db_safe [OF addon_own_db(6) addon_own_noUB(6)]

lemma pair_option_safe [safes]:
  "(\<And>a b. x = Some a \<Longrightarrow> y = Some b \<Longrightarrow> safe I (f a b)) \<Longrightarrow> safe I g \<Longrightarrow>
   safe I (case (x, y) of (Some a, Some b) \<Rightarrow> f a b | _ \<Rightarrow> g)"
  by (auto split: option.splits)

lemma api_safe [safes]: "DbEnv_ok (dbenv E) \<Longrightarrow> safe srv_ok (api E c)"
  by (cases c; simp only: api.simps api_defs; intro safes; assumption?)

text \<open>A handler ends without an exception, whatever it does.\<close>

lemma run_addon_total:
  assumes "DbEnv_ok (dbenv E)" and "srv_ok s"
  shows "\<exists>b s'. run_addon E a s = (Inr b, s') \<and> srv_ok s'"
  using assms(2)
proof (induction a arbitrary: s)
  case (Call c k)
  have "srv_ok (snd (api E c s)) \<and> fst (api E c s) \<noteq> Inl undefined_behaviour"
    using api_safe [OF assms(1), of c] Call.prems by (simp add: safe_def)
  then show ?case using Call.IH by (auto split: prod.splits sum.splits)
next
  case (RegisterCommand n f a)
  have "srv_ok (s\<lparr>commands := omap_put n f (commands s)\<rparr>)"
    using RegisterCommand.prems by (simp add: srv_ok_def)
  then show ?case using RegisterCommand.IH(2) by (simp add: thenM_def bindM_def modifyM_def apiRegisterCommand_def)
qed (force simp: ret_def)+

lemma ExecuteCommand_total:
  assumes "DbEnv_ok (dbenv E)" and "srv_ok s"
  shows "\<exists>s'. ExecuteCommand E cmd args t req u c s = (Inr (map_of (commands s) cmd \<noteq> None), s') \<and> srv_ok s'"
proof (cases "map_of (commands s) cmd")
  case (Some f)
  let ?a = "f \<lparr>ctx_Socket = t, ctx_Request = req, ctx_Requestor = u, ctx_Chat = c, ctx_Cmd = cmd, ctx_Args = args\<rparr>"
  show ?thesis using Some run_addon_total [OF assms, of ?a]
    by (auto simp: ExecuteCommand_def monad_defs)
qed (use assms in \<open>simp add: ExecuteCommand_def monad_defs\<close>)

lemma catchAll_keeps [frames]: "keeps f m \<Longrightarrow> keeps f (catchAll m x)"
  unfolding catchAll_def by (intro frames)

lemma pair_option_keeps [frames]:
  "(\<And>a b. x = Some a \<Longrightarrow> y = Some b \<Longrightarrow> keeps h (f a b)) \<Longrightarrow> keeps h g \<Longrightarrow>
   keeps h (case (x, y) of (Some a, Some b) \<Rightarrow> f a b | _ \<Rightarrow> g)"
  by (auto split: option.splits)

lemma state_module_keeps [frames]:
  "keeps outbox (stateSet k v)" "keeps outbox (stateGet k)" "keeps outbox (stateHas k)"
  "keeps outbox (stateDel k)" "keeps outbox stateClear" "keeps outbox (stateKeys E)"
  "keeps ClientUsers (stateSet k v)" "keeps ClientUsers (stateGet k)" "keeps ClientUsers (stateHas k)"
  "keeps ClientUsers (stateDel k)" "keeps ClientUsers stateClear" "keeps ClientUsers (stateKeys E)"
  "keeps transports (stateSet k v)" "keeps transports (stateGet k)" "keeps transports (stateHas k)"
  "keeps transports (stateDel k)" "keeps transports stateClear" "keeps transports (stateKeys E)"
  "keeps nsent (stateSet k v)" "keeps nsent (stateGet k)" "keeps nsent (stateHas k)"
  "keeps nsent (stateDel k)" "keeps nsent stateClear" "keeps nsent (stateKeys E)"
  "keeps commands (stateSet k v)" "keeps commands (stateGet k)" "keeps commands (stateHas k)"
  "keeps commands (stateDel k)" "keeps commands stateClear" "keeps commands (stateKeys E)"
  unfolding stateSet_def stateGet_def stateHas_def stateDel_def stateClear_def stateKeys_def
  by (intro frames keeps_modifyM; simp)+

lemma api_keeps [frames]:
  "keeps commands (api E c)" "keeps outbox (api E c)" "keeps ClientUsers (api E c)" "keeps transports (api E c)" "keeps nsent (api E c)"
  by (cases c; simp only: api.simps api_defs; intro frames)+

lemma run_addon_keeps:
  assumes "\<And>c. keeps f (api E c)" and "\<And>s cs. f (s\<lparr>commands := cs\<rparr>) = f s"
  shows "keeps f (run_addon E a)"
proof -
  have "preserves (\<lambda>s. f s = x) (run_addon E a)" for x
    by (rule run_addon_pres) (use assms in \<open>auto simp: preserves_def keeps_def\<close>)
  then show ?thesis by (simp add: preserves_def keeps_def)
qed

lemma ExecuteCommand_keeps [frames]:
  "keeps outbox (ExecuteCommand E cmd args t r u c)" "keeps ClientUsers (ExecuteCommand E cmd args t r u c)"
  "keeps transports (ExecuteCommand E cmd args t r u c)" "keeps nsent (ExecuteCommand E cmd args t r u c)"
  unfolding ExecuteCommand_def by (intro frames run_addon_keeps; simp add: frames)+

text \<open>Handlers that make only calls allowed by \<open>P\<close>, and register only such handlers.\<close>

primrec only :: "(api_call \<Rightarrow> bool) \<Rightarrow> addon \<Rightarrow> bool" where
  "only P Return = True"
| "only P Raise = True"
| "only P (Call c k) = (P c \<and> (\<forall>r. only P (k r)))"
| "only P (RegisterCommand n f a) = ((\<forall>ctx. only P (f ctx)) \<and> only P a)"

definition addons_only :: "(api_call \<Rightarrow> bool) \<Rightarrow> Server \<Rightarrow> bool" where
  "addons_only P s \<longleftrightarrow> (\<forall>(n, f)\<in>set (commands s). \<forall>ctx. only P (f ctx))"

lemma only_True: "only (\<lambda>_. True) a"
  by (induction a) auto

lemma addons_only_True: "addons_only (\<lambda>_. True) s"
  by (simp add: addons_only_def only_True split: prod.splits)

lemma addons_only_put:
  "addons_only P s \<Longrightarrow> (\<And>ctx. only P (f ctx)) \<Longrightarrow> addons_only P (s\<lparr>commands := omap_put n f (commands s)\<rparr>)"
proof -
  have "set (omap_put n f cs) \<subseteq> insert (n, f) (set cs)" for cs
    by (induction n f cs rule: omap_put.induct) auto
  then show "addons_only P s \<Longrightarrow> (\<And>ctx. only P (f ctx)) \<Longrightarrow> ?thesis"
    by (fastforce simp: addons_only_def)
qed

text \<open>
  An invariant that the allowed calls keep is kept by every such handler.
\<close>

lemma run_addon_only:
  assumes "\<And>c. P c \<Longrightarrow> preserves (\<lambda>s. I (db s)) (api E c)"
  shows "only P a \<Longrightarrow> preserves (\<lambda>s. I (db s) \<and> addons_only P s) (run_addon E a)"
proof (induction a)
  case (Call c k)
  have "preserves (\<lambda>s. I (db s) \<and> addons_only P s) (api E c)"
    using assms [of c] Call.prems keepsD [OF api_keeps(1)] by (simp add: preserves_def addons_only_def)
  then show ?case using Call by (fastforce simp: preserves_def split: prod.splits sum.splits)
next
  case (RegisterCommand n f a)
  then show ?case by (auto simp: apiRegisterCommand_def intro!: pres preserves_modifyM addons_only_put)
qed (simp_all add: pres)

lemma ExecuteCommand_only:
  assumes "\<And>c. P c \<Longrightarrow> preserves (\<lambda>s. I (db s)) (api E c)"
  shows "preserves (\<lambda>s. I (db s) \<and> addons_only P s) (ExecuteCommand E cmd args t r u ch)"
proof (rule preservesI)
  fix s assume J: "I (db s) \<and> addons_only P s"
  show "I (db (snd (ExecuteCommand E cmd args t r u ch s))) \<and> addons_only P (snd (ExecuteCommand E cmd args t r u ch s))"
  proof (cases "map_of (commands s) cmd")
    case (Some f)
    let ?a = "f \<lparr>ctx_Socket = t, ctx_Request = r, ctx_Requestor = u, ctx_Chat = ch, ctx_Cmd = cmd, ctx_Args = args\<rparr>"
    have "only P ?a" using J map_of_SomeD [OF Some] by (auto simp: addons_only_def)
    then show ?thesis
      using preservesD [OF run_addon_only [OF assms] J, of ?a] Some
      by (auto simp: ExecuteCommand_def monad_defs split: prod.splits sum.splits)
  qed (use J in \<open>simp add: ExecuteCommand_def monad_defs\<close>)
qed

text \<open>
  C9. An addon is contained. Whatever calls its handler makes, in whatever order and whether or not
  it catches their errors: \<open>ExecuteCommand\<close> returns whether the command is registered and throws
  nothing, no \<open>optional\<close> without a value is dereferenced, the tables keep their invariant, no responce
  goes to the network and nobody is logged in or out.
\<close>

theorem addon_contained:
  assumes "DbEnv_ok (dbenv E)" and "srv_ok s"
  shows "\<exists>s'. ExecuteCommand E cmd args t req u c s = (Inr (cmd \<in> fst ` set (commands s)), s') \<and>
     srv_ok s' \<and> outbox s' = outbox s \<and> ClientUsers s' = ClientUsers s"
proof -
  obtain s' where s': "ExecuteCommand E cmd args t req u c s = (Inr (map_of (commands s) cmd \<noteq> None), s')"
    "srv_ok s'"
    using ExecuteCommand_total [OF assms] by blast
  moreover have "outbox s' = outbox s" "ClientUsers s' = ClientUsers s"
    using keepsD [OF ExecuteCommand_keeps(1), of E cmd args t req u c s]
      keepsD [OF ExecuteCommand_keeps(2), of E cmd args t req u c s] s'(1) by simp_all
  moreover have "(map_of (commands s) cmd \<noteq> None) = (cmd \<in> fst ` set (commands s))"
    by (simp add: map_of_eq_None_iff)
  ultimately show ?thesis by simp
qed

theorem addon_contained_witness:
  "\<exists>s'. ExecuteCommand Env_plain ''out'' [] 10 \<lparr>cm_UserToken = 70, cm_Timestamp = 5,
        cm_Content = fs_of MESSAGETEXT_MAXLENGTH ''/out'', cm_ToChat = 1\<rparr> ann
        \<lparr>ci_Id = 1, ci_Name = fs_of CHATNAME_MAXLENGTH ''club'', ci_OwnerId = 2\<rparr> Server_demo = (Inr True, s')"
proof -
  have "''out'' \<in> fst ` set (commands Server_demo)" by (simp add: Server_demo_def)
  then show ?thesis using addon_contained [OF demo_ok(2,1)] by metis
qed

lemma sorted_remdups_adj_distinct: "sorted xs \<Longrightarrow> distinct (remdups_adj xs)"
proof (induction xs rule: remdups_adj.induct)
  case (3 x y xs)
  then show ?case by (cases "x = y") auto
qed simp_all

text \<open>
  The list of commands a client gets: the names of the registered commands, each once, in
  order.
\<close>

theorem registered_commands_listed:
  "\<exists>names. ListRegisteredCommands s = (Inr names, s) \<and> sorted names \<and> distinct names \<and>
     set names = fst ` set (commands s)"
  by (simp add: ListRegisteredCommands_def getsM_def sorted_remdups_adj_distinct)

end
