(* ===== verification/Backend.thy ===== *)
theory Backend
  imports AddonManager
begin

text \<open>
  \<open>TeleCrap.Server/src/Backend.cpp\<close>: the request handlers, one definition per case of
  \<open>processRequest\<close>, the slash commands of a chat's owner, and the resolution of users and chats.
\<close>

section \<open>Texts\<close>

text \<open>The texts in Russian are the bytes of their UTF-8 encoding.\<close>

definition utf8 :: "nat list \<Rightarrow> cstring" where
  "utf8 bs = map char_of bs"

definition ru_direct :: cstring where
  "ru_direct = utf8 [208, 189, 208, 181, 208, 178, 208, 190, 208, 183, 208, 188, 208, 190, 208, 182, 208, 189, 208, 190,
     32, 208, 178, 209, 139, 208, 191, 208, 190, 208, 187, 208, 189, 208, 184, 209, 130, 209, 140, 32,
     209, 129, 208, 187, 209, 131, 208, 182, 208, 181, 208, 177, 208, 189, 209, 131, 209, 142, 32, 208,
     186, 208, 190, 208, 188, 208, 176, 208, 189, 208, 180, 209, 131, 32, 208, 178, 32, 208, 187, 208,
     184, 209, 135, 208, 189, 208, 190, 208, 188, 32, 209, 135, 208, 176, 209, 130, 208, 181]"

definition ru_owner_only :: cstring where
  "ru_owner_only = utf8 [209, 130, 208, 190, 208, 187, 209, 140, 208, 186, 208, 190, 32, 208, 178, 208, 187, 208, 176, 208,
     180, 208, 181, 208, 187, 208, 181, 209, 134, 32, 208, 188, 208, 190, 208, 182, 208, 181, 209, 130,
     32, 208, 178, 209, 139, 208, 191, 208, 190, 208, 187, 208, 189, 208, 184, 209, 130, 209, 140, 32,
     209, 141, 209, 130, 209, 131, 32, 208, 186, 208, 190, 208, 188, 208, 176, 208, 189, 208, 180, 209,
     131]"

definition ru_rename_failed :: cstring where
  "ru_rename_failed = utf8 [208, 189, 208, 181, 32, 209, 131, 208, 180, 208, 176, 208, 187, 208, 190, 209, 129, 209, 140, 32,
     208, 191, 208, 181, 209, 128, 208, 181, 208, 184, 208, 188, 208, 181, 208, 189, 208, 190, 208, 178,
     208, 176, 209, 130, 209, 140]"

definition ru_renamed_to :: cstring where
  "ru_renamed_to = utf8 [208, 184, 208, 188, 209, 143, 32, 209, 135, 208, 176, 209, 130, 208, 176, 32, 208, 184, 208, 183,
     208, 188, 208, 181, 208, 189, 208, 181, 208, 189, 208, 190, 32, 208, 189, 208, 176, 32, 34]"

definition ru_enter_target :: cstring where
  "ru_enter_target = utf8 [208, 178, 208, 178, 208, 181, 208, 180, 208, 184, 209, 130, 208, 181, 32, 64, 208, 184, 208, 188,
     209, 143, 32, 208, 184, 208, 187, 208, 184, 32, 36, 105, 100]"

definition ru_enter_id :: cstring where
  "ru_enter_id = utf8 [208, 178, 208, 178, 208, 181, 208, 180, 208, 184, 209, 130, 208, 181, 32, 36, 105, 100]"

definition ru_user_not_found :: cstring where
  "ru_user_not_found = utf8 [208, 191, 208, 190, 208, 187, 209, 140, 208, 183, 208, 190, 208, 178, 208, 176, 209, 130, 208, 181,
     208, 187, 209, 140, 32, 208, 189, 208, 181, 32, 208, 189, 208, 176, 208, 185, 208, 180, 208, 181,
     208, 189]"

definition ru_sorcerer :: cstring where
  "ru_sorcerer = utf8 [209, 130, 209, 139, 32, 208, 186, 208, 176, 208, 186, 32, 209, 129, 209, 142, 208, 180, 208, 176,
     32, 208, 191, 208, 190, 208, 191, 208, 176, 208, 187, 32, 208, 178, 208, 190, 208, 190, 208, 177,
     209, 137, 208, 181, 44, 32, 208, 186, 208, 190, 208, 187, 208, 180, 209, 131, 208, 189, 63]"

definition ru_not_banned :: cstring where
  "ru_not_banned = utf8 [208, 191, 208, 190, 208, 187, 209, 140, 208, 183, 208, 190, 208, 178, 208, 176, 209, 130, 208, 181,
     208, 187, 209, 140, 32, 208, 189, 208, 181, 32, 208, 183, 208, 176, 208, 177, 208, 176, 208, 189,
     208, 181, 208, 189]"

definition ru_unbanned :: cstring where
  "ru_unbanned = utf8 [32, 209, 128, 208, 176, 208, 183, 208, 177, 208, 176, 208, 189, 208, 181, 208, 189]"

definition ru_not_member :: cstring where
  "ru_not_member = utf8 [208, 191, 208, 190, 208, 187, 209, 140, 208, 183, 208, 190, 208, 178, 208, 176, 209, 130, 208, 181,
     208, 187, 209, 140, 32, 208, 189, 208, 181, 32, 209, 131, 209, 135, 208, 176, 209, 129, 208, 189,
     208, 184, 208, 186, 32, 209, 141, 209, 130, 208, 190, 208, 179, 208, 190, 32, 209, 135, 208, 176,
     209, 130, 208, 176]"

definition ru_kicked :: cstring where
  "ru_kicked = utf8 [32, 208, 184, 209, 129, 208, 186, 208, 187, 209, 142, 209, 135, 208, 181, 208, 189, 32, 208, 184,
     208, 183, 32, 209, 135, 208, 176, 209, 130, 208, 176]"

definition ru_banned :: cstring where
  "ru_banned = utf8 [32, 208, 183, 208, 176, 208, 177, 208, 176, 208, 189, 208, 181, 208, 189]"

section \<open>Parsing\<close>

definition isDirectChat :: "ChatInfo option \<Rightarrow> bool" where
  "isDirectChat chatInfo = (case chatInfo of None \<Rightarrow> False | Some c \<Rightarrow> ci_OwnerId c = SYSTEM_FROMID)"

definition isUserInChat :: "ServerEnv \<Rightarrow> UserInfo \<Rightarrow> ChatInfo \<Rightarrow> bool srvM" where
  "isUserInChat E user chat = bindM (liftdb (findMembersByChat (dbenv E) chat)) (\<lambda>members.
     ret (\<exists>m\<in>set members. ui_Id m = ui_Id user))"

definition trimView :: "cstring \<Rightarrow> cstring" where
  "trimView sv = strip isspace sv"

text \<open>
  \<open>std::stoul\<close> with base 10 and a 64-bit \<open>unsigned long\<close>: leading white space, a sign, digits; what
  follows them is ignored, and a minus negates modulo \<open>2^64\<close>.
\<close>

definition isdigit :: "char \<Rightarrow> bool" where
  "isdigit c \<longleftrightarrow> 48 \<le> (of_char c :: nat) \<and> (of_char c :: nat) \<le> 57"

definition digits_value :: "cstring \<Rightarrow> nat" where
  "digits_value ds = foldl (\<lambda>a c. 10 * a + (of_char c - 48)) 0 ds"

definition stoul :: "cstring \<Rightarrow> exn + u64" where
  "stoul str =
     (let s = dropWhile isspace str;
          neg = (s \<noteq> [] \<and> hd s = CHR ''-'');
          s = (if s \<noteq> [] \<and> (hd s = CHR ''-'' \<or> hd s = CHR ''+'') then tl s else s);
          ds = takeWhile isdigit s;
          v = digits_value ds
      in if ds = [] then Inl invalid_argument
         else if v \<ge> 2 ^ 64 then Inl out_of_range
         else Inr (if neg then - of_nat v else of_nat v))"

definition stoulM :: "cstring \<Rightarrow> u64 srvM" where
  "stoulM str = (case stoul str of Inl e \<Rightarrow> throw e | Inr v \<Rightarrow> ret v)"

definition resolveUserToken :: "cstring \<Rightarrow> UserInfo option srvM" where
  "resolveUserToken tok =
     (let tok = trimView tok in
      if tok = [] then ret None
      else if hd tok = CHR ''@'' then liftdb (findUserByName (fs_of CHATNAME_MAXLENGTH (tl tok)))
      else if hd tok = CHR ''$''
      then bindM (stoulM (c_str (tl tok))) (\<lambda>v. liftdb (findUserById (Some (ucast v))))
      else ret None)"

text \<open>A direct chat as the \<open>ChatInfo\<close> it is sliced to.\<close>

definition directChatAs :: "UserInfo \<Rightarrow> DirectChatInfo \<Rightarrow> ChatInfo" where
  "directChatAs peer direct = \<lparr>ci_Id = ci_Id direct, ci_Name = ui_Name peer, ci_OwnerId = ci_OwnerId direct\<rparr>"

definition openDirectChat :: "UserInfo \<Rightarrow> UserInfo \<Rightarrow> ChatInfo option srvM" where
  "openDirectChat requestor user =
     bindM (liftdb (findDirectChat (ui_Id requestor) (ui_Id user))) (\<lambda>chat.
       case chat of
         Some c \<Rightarrow> ret (Some (directChatAs user c))
       | None \<Rightarrow> bindM (liftdb (createDirectChat requestor user)) (\<lambda>c. ret (Some (directChatAs user c))))"

definition findChatByQuery :: "ServerEnv \<Rightarrow> UserInfo \<Rightarrow> fixed_string \<Rightarrow> ChatInfo option srvM" where
  "findChatByQuery E requestor chatQuery =
     (if chatQuery ! 0 = CHR ''@'' then
        bindM (liftdb (findUserByName (fs_of CHATNAME_MAXLENGTH (c_str (tl chatQuery))))) (\<lambda>user.
          case user of None \<Rightarrow> ret None | Some u \<Rightarrow> openDirectChat requestor u)
      else if chatQuery ! 0 = CHR ''$'' then
        bindM (stoulM (c_str (tl chatQuery))) (\<lambda>v.
        bindM (liftdb (findUserById (Some (ucast v)))) (\<lambda>user.
          case user of None \<Rightarrow> ret None | Some u \<Rightarrow> openDirectChat requestor u))
      else if chatQuery ! 0 = CHR ''#'' then
        bindM (stoulM (c_str (tl chatQuery))) (\<lambda>v.
        bindM (liftdb (findChatById (Some (ucast v)))) (\<lambda>chat.
          if isDirectChat chat then ret None else ret chat))
      else bindM (liftdb (findChatByName (dbenv E) chatQuery)) (\<lambda>chat.
          if isDirectChat chat then ret None else ret chat))"

section \<open>The slash commands\<close>

definition chatModelGroup :: "ChatInfo \<Rightarrow> Chat" where
  "chatModelGroup chat = \<lparr>chat_Id = ci_Id chat, chat_Name = ci_Name chat, chat_Type = ChatType_Group\<rparr>"

definition memberEvent :: "ChatInfo \<Rightarrow> UserInfo \<Rightarrow> ChatMemberEvent" where
  "memberEvent chat target = \<lparr>ev_ChatModel = chatModelGroup chat,
     ev_TargetUser = \<lparr>user_Id = ui_Id target, user_Name = ui_Name target\<rparr>\<rparr>"

text \<open>The loops that push an update to everyone listed but the requestor.\<close>

definition pushToIdsExcept :: "userid_t \<Rightarrow> Update \<Rightarrow> userid_t list \<Rightarrow> unit srvM" where
  "pushToIdsExcept requestorId update =
     forEach (\<lambda>uid. if uid = requestorId then ret () else pushUpdateToUser uid update)"

definition slashRename :: "ServerEnv \<Rightarrow> transport \<Rightarrow> UserInfo \<Rightarrow> CommitMessageRequest \<Rightarrow> ChatInfo \<Rightarrow>
    cstring \<Rightarrow> unit srvM" where
  "slashRename E t requestor request chat rest =
     (if rest = [] then SendError E t ''/rename: [new_name]'' EC_OK
      else thenM (liftdb (renameChat chat (fs_of CHATNAME_MAXLENGTH rest)))
        (bindM (liftdb (findChatById (Some (ci_Id chat)))) (\<lambda>refreshed.
          case refreshed of
            None \<Rightarrow> SendError E t ru_rename_failed EC_OK
          | Some new \<Rightarrow>
              bindM (liftdb (commitSystemMessage new (cm_Timestamp request)
                  (ru_renamed_to @ c_str (ci_Name new) @ [CHR 0x22]))) (\<lambda>ack.
              thenM (SendResponce E t (CreateCommitMessageResponce ack))
                (bindM (liftdb (findMembersByChat (dbenv E) new)) (\<lambda>members.
                  pushToIdsExcept (ui_Id requestor) \<lparr>upd_Id = 0, upd_body = ChatRenamed
                      ((chatModelGroup chat)\<lparr>chat_Name := ci_Name new\<rparr>)\<rparr> (map ui_Id members)))))))"

definition slashUnban :: "ServerEnv \<Rightarrow> transport \<Rightarrow> UserInfo \<Rightarrow> CommitMessageRequest \<Rightarrow> ChatInfo \<Rightarrow>
    UserInfo \<Rightarrow> unit srvM" where
  "slashUnban E t requestor request chat target =
     bindM (liftdb (isUserBannedFromChat (ci_Id chat) (ui_Id target))) (\<lambda>banned.
       if \<not> banned then SendError E t ru_not_banned EC_OK
       else thenM (liftdb (unbanUserInChat (ci_Id chat) (ui_Id target)))
         (bindM (liftdb (commitSystemMessage chat (cm_Timestamp request)
             (c_str (ui_Name target) @ ru_unbanned))) (\<lambda>ack.
          thenM (SendResponce E t (CreateCommitMessageResponce ack))
            (bindM (liftdb (findMembersByChat (dbenv E) chat)) (\<lambda>members.
              pushToIdsExcept (ui_Id requestor) \<lparr>upd_Id = 0, upd_body = UserUnbanned (memberEvent chat target)\<rparr>
                (remdups (map ui_Id members @ [ui_Id target])))))))"

definition slashKick :: "ServerEnv \<Rightarrow> transport \<Rightarrow> UserInfo \<Rightarrow> CommitMessageRequest \<Rightarrow> ChatInfo \<Rightarrow>
    UserInfo \<Rightarrow> unit srvM" where
  "slashKick E t requestor request chat target =
     bindM (isUserInChat E target chat) (\<lambda>inChat.
       if \<not> inChat then SendError E t ru_not_member EC_OK
       else bindM (liftdb (findMembersByChat (dbenv E) chat)) (\<lambda>members.
         thenM (liftdb (removeMemberFromChat (ci_Id chat) (ui_Id target)))
           (bindM (liftdb (commitSystemMessage chat (cm_Timestamp request)
               (c_str (ui_Name target) @ ru_kicked))) (\<lambda>ack.
            thenM (SendResponce E t (CreateCommitMessageResponce ack))
              (pushToIdsExcept (ui_Id requestor) \<lparr>upd_Id = 0, upd_body = UserKicked (memberEvent chat target)\<rparr>
                (map ui_Id members))))))"

definition slashBan :: "ServerEnv \<Rightarrow> transport \<Rightarrow> UserInfo \<Rightarrow> CommitMessageRequest \<Rightarrow> ChatInfo \<Rightarrow>
    UserInfo \<Rightarrow> unit srvM" where
  "slashBan E t requestor request chat target =
     bindM (liftdb (findMembersByChat (dbenv E) chat)) (\<lambda>members.
       thenM (liftdb (banUserInChat chat target))
       (thenM (liftdb (removeMemberFromChat (ci_Id chat) (ui_Id target)))
         (bindM (liftdb (commitSystemMessage chat (cm_Timestamp request)
             (c_str (ui_Name target) @ ru_banned))) (\<lambda>ack.
          thenM (SendResponce E t (CreateCommitMessageResponce ack))
            (pushToIdsExcept (ui_Id requestor) \<lparr>upd_Id = 0, upd_body = UserBanned (memberEvent chat target)\<rparr>
              (remdups (map ui_Id members @ [ui_Id target])))))))"

text \<open>
  The target of \<open>/kick\<close>, \<open>/ban\<close>, \<open>/unban\<close>. When the text after the command has a space in it,
  \<open>targetTok\<close> is a view of the temporary \<open>rest.substr(0, tsp)\<close>, which is gone when it is read.
\<close>

definition slashTarget :: "ServerEnv \<Rightarrow> transport \<Rightarrow> cstring \<Rightarrow> (UserInfo \<Rightarrow> unit srvM) \<Rightarrow> unit srvM" where
  "slashTarget E t rest k =
     (if CHR '' '' \<in> set rest then throw undefined_behaviour
      else if rest = [] then SendError E t ru_enter_target EC_OK
      else bindM (tryM (mapM Some (resolveUserToken rest))
          (\<lambda>e. if e = undefined_behaviour then throw e else ret None)) (\<lambda>r.
        case r of
          None \<Rightarrow> SendError E t ru_enter_id EC_OK
        | Some None \<Rightarrow> SendError E t ru_user_not_found EC_OK
        | Some (Some target) \<Rightarrow>
            (if ui_Id target = SYSTEM_FROMID then SendError E t ru_sorcerer EC_OK else k target)))"

definition tryHandleSlashCommand :: "ServerEnv \<Rightarrow> transport \<Rightarrow> UserInfo \<Rightarrow> CommitMessageRequest \<Rightarrow>
    ChatInfo \<Rightarrow> bool srvM" where
  "tryHandleSlashCommand E t requestor request chat =
     (let raw = trimView (c_str (cm_Content request)) in
      if raw = [] \<or> hd raw \<noteq> CHR ''/'' then ret False
      else
        let raw = tl raw;
            cmd = takeWhile (\<lambda>c. c \<noteq> CHR '' '') raw;
            rest = trimView (tl (dropWhile (\<lambda>c. c \<noteq> CHR '' '') raw))
        in if cmd \<noteq> ''kick'' \<and> cmd \<noteq> ''ban'' \<and> cmd \<noteq> ''unban'' \<and> cmd \<noteq> ''rename''
           then ExecuteCommand E cmd rest t request requestor chat
           else thenM
             (if isDirectChat (Some chat) then SendError E t ru_direct EC_OK
              else if ci_OwnerId chat \<noteq> ui_Id requestor then SendError E t ru_owner_only EC_OK
              else if cmd = ''rename'' then slashRename E t requestor request chat rest
              else slashTarget E t rest (\<lambda>target.
                if cmd = ''unban'' then slashUnban E t requestor request chat target
                else if ui_Id target = ci_OwnerId chat then SendError E t ru_owner_only EC_OK
                else if cmd = ''kick'' then slashKick E t requestor request chat target
                else slashBan E t requestor request chat target))
             (ret True))"

section \<open>The request handlers\<close>

definition checkToken :: "ServerEnv \<Rightarrow> transport \<Rightarrow> token_t \<Rightarrow> ErrorCode \<Rightarrow> unit srvM \<Rightarrow> unit srvM" where
  "checkToken E t token code k = bindM (getsM (\<lambda>s. AccessToken (transports s t))) (\<lambda>accessToken.
     if token \<noteq> accessToken then SendError E t ''Invalid access token. Refresh session.'' code else k)"

definition requireUser :: "ServerEnv \<Rightarrow> transport \<Rightarrow> ErrorCode \<Rightarrow> (UserInfo \<Rightarrow> unit srvM) \<Rightarrow> unit srvM" where
  "requireUser E t code k = bindM (findUserBySocket t) (\<lambda>userId.
     bindM (liftdb (findUserById userId)) (\<lambda>requestor.
       case requestor of
         None \<Rightarrow> SendError E t ''Unauthorized. Login into account.'' code
       | Some u \<Rightarrow> k u))"

definition requireChat :: "ServerEnv \<Rightarrow> transport \<Rightarrow> chatid_t \<Rightarrow> cstring \<Rightarrow> (ChatInfo \<Rightarrow> unit srvM) \<Rightarrow> unit srvM" where
  "requireChat E t chatId message k = bindM (liftdb (findChatById (Some chatId))) (\<lambda>chat.
     case chat of None \<Rightarrow> SendError E t message EC_OK | Some c \<Rightarrow> k c)"

text \<open>
  The loops over \<open>rbegin() .. rend()\<close>: each element with the number of those still to come, the
  counter a 32-bit integer.
\<close>

primrec sendLoop :: "ServerEnv \<Rightarrow> transport \<Rightarrow> (u32 \<Rightarrow> 'a \<Rightarrow> Responce srvM) \<Rightarrow> u32 \<Rightarrow> 'a list \<Rightarrow> unit srvM" where
  "sendLoop E t mk remaining [] = ret ()"
| "sendLoop E t mk remaining (x # xs) =
     bindM (mk (remaining - 1) x) (\<lambda>responce.
       thenM (SendResponce E t responce) (sendLoop E t mk (remaining - 1) xs))"

definition sendReversed :: "ServerEnv \<Rightarrow> transport \<Rightarrow> (u32 \<Rightarrow> 'a \<Rightarrow> Responce srvM) \<Rightarrow> 'a list \<Rightarrow> unit srvM" where
  "sendReversed E t mk xs = sendLoop E t mk (of_nat (length xs)) (rev xs)"

definition handleRegister :: "ServerEnv \<Rightarrow> transport \<Rightarrow> AuthRequest \<Rightarrow> unit srvM" where
  "handleRegister E t auth =
     bindM (liftdb (findUserByName (auth_Username auth))) (\<lambda>userInfo.
       case userInfo of
         Some _ \<Rightarrow> SendError E t ''User with such name already exists'' EC_OK
       | None \<Rightarrow> bindM (liftdb (createUser (dbenv E) (auth_Username auth) (auth_Password auth))) (\<lambda>u.
           thenM (SendResponce E t (CreateLoginResponce \<lparr>user_Id = ui_Id u, user_Name = ui_Name u\<rparr>))
             (assignUserInfo t (ui_Id u))))"

definition handleLogin :: "ServerEnv \<Rightarrow> transport \<Rightarrow> AuthRequest \<Rightarrow> unit srvM" where
  "handleLogin E t auth =
     (if fs_size (auth_Username auth) = 0
      then thenM (designUserInfo t) (SendResponce E t (CreateLoginResponce User_default))
      else bindM (liftdb (findUserByName (auth_Username auth))) (\<lambda>userInfo.
        case userInfo of
          None \<Rightarrow> SendError E t ''Account not found'' EC_OK
        | Some u \<Rightarrow> bindM (findSocketByUser (ui_Id u)) (\<lambda>loggedUser.
            bindM (getsM transports) (\<lambda>tr.
            if loggedUser \<noteq> None \<and> TransportSocket (tr (the loggedUser)) \<noteq> TransportSocket (tr t)
            then SendError E t ''This account is already logged in on another client'' EC_OK
            else if \<not> verifyPassword (dbenv E) (c_str (auth_Password auth)) (ui_PasswordHash u)
            then SendError E t ''Invalid password'' EC_OK
            else thenM (SendResponce E t (CreateLoginResponce \<lparr>user_Id = ui_Id u, user_Name = ui_Name u\<rparr>))
                   (assignUserInfo t (ui_Id u))))))"

definition handleGetUpdates :: "ServerEnv \<Rightarrow> transport \<Rightarrow> GetUpdatesRequest \<Rightarrow> UserInfo \<Rightarrow> unit srvM" where
  "handleGetUpdates E t req requestor =
     (if gu_DropPending req \<noteq> 0 then clearUpdates (ui_Id requestor)
      else bindM (getsM (\<lambda>s. UpdatesCache s (ui_Id requestor))) (\<lambda>updates.
        if (of_nat (length updates) :: u32) = 0
        then SendResponce E t (RespUpdates (- 1) (dec_Update (sub 4 676 (fresh_union E))))
        else thenM (sendReversed E t (\<lambda>remaining u. ret (RespUpdates remaining u)) updates)
               (clearUpdates (ui_Id requestor))))"

definition handleGetChatInfo :: "ServerEnv \<Rightarrow> transport \<Rightarrow> NameRequest \<Rightarrow> UserInfo \<Rightarrow> unit srvM" where
  "handleGetChatInfo E t req requestor =
     bindM (findChatByQuery E requestor (nr_Name req)) (\<lambda>chat.
       case chat of
         None \<Rightarrow> SendError E t ''Chat not found'' EC_OK
       | Some c \<Rightarrow> SendResponce E t (CreateGetChatInfoResponce \<lparr>chat_Id = ci_Id c, chat_Name = ci_Name c,
           chat_Type = (if ci_OwnerId c = SYSTEM_FROMID then ChatType_Direct else ChatType_Group)\<rparr>))"

definition handleGetChatHistory :: "ServerEnv \<Rightarrow> transport \<Rightarrow> ChatIdRequest \<Rightarrow> unit srvM" where
  "handleGetChatHistory E t req =
     requireChat E t (cr_ChatId req) ''Chat not found'' (\<lambda>chat.
       bindM (liftdb (findMessagesByChat (dbenv E) chat)) (\<lambda>messages.
         if messages = []
         then SendResponce E t (RespChatHistory (- 1) (dec_Message (sub 4 668 (fresh_union E))))
         else sendReversed E t (\<lambda>remaining m. ret (RespChatHistory remaining m)) messages))"

definition handleGetChatMembers :: "ServerEnv \<Rightarrow> transport \<Rightarrow> ChatIdRequest \<Rightarrow> UserInfo \<Rightarrow> unit srvM" where
  "handleGetChatMembers E t req requestor =
     requireChat E t (cr_ChatId req) ''Chat not found'' (\<lambda>chat.
       bindM (isUserInChat E requestor chat) (\<lambda>inChat.
         if \<not> inChat then SendError E t ''You are not a member of this chat'' EC_OK
         else bindM (liftdb (findMembersByChat (dbenv E) chat)) (\<lambda>members.
           let members = filter (\<lambda>u. ui_Id u \<noteq> SYSTEM_FROMID) members in
           if members = []
           then SendResponce E t (RespChatMembers (- 1) (dec_User (sub 4 69 (fresh_union E))))
           else sendReversed E t (\<lambda>remaining u.
             ret (RespChatMembers remaining \<lparr>user_Id = ui_Id u, user_Name = ui_Name u\<rparr>)) members)))"

definition listedChat :: "UserInfo \<Rightarrow> ChatInfo \<Rightarrow> Chat srvM" where
  "listedChat requestor c =
     (if ci_OwnerId c = SYSTEM_FROMID
      then bindM (liftdb (findDirectChatPeer (ci_Id c) (ui_Id requestor))) (\<lambda>peer.
        ret \<lparr>chat_Id = ci_Id c, chat_Name = (case peer of None \<Rightarrow> ci_Name c | Some p \<Rightarrow> ui_Name p),
             chat_Type = ChatType_Direct\<rparr>)
      else ret \<lparr>chat_Id = ci_Id c, chat_Name = ci_Name c, chat_Type = ChatType_Group\<rparr>)"

definition handleGetChatList :: "ServerEnv \<Rightarrow> transport \<Rightarrow> UserInfo \<Rightarrow> unit srvM" where
  "handleGetChatList E t requestor =
     bindM (liftdb (findChatsByUser (dbenv E) requestor)) (\<lambda>chats.
       if chats = []
       then SendResponce E t (RespChatList (- 1) (dec_Chat (sub 4 70 (fresh_union E))))
       else sendReversed E t (\<lambda>remaining c. mapM (RespChatList remaining) (listedChat requestor c)) chats)"

definition handleGetAddonCommands :: "ServerEnv \<Rightarrow> transport \<Rightarrow> unit srvM" where
  "handleGetAddonCommands E t =
     bindM ListRegisteredCommands (\<lambda>cmds.
       if cmds = []
       then SendResponce E t (CreateGetAddonCommand (fresh_union E) [] (- 1))
       else sendReversed E t (\<lambda>remaining c. ret (CreateGetAddonCommand (fresh_union E) c remaining)) cmds)"

definition handleSpawnGroupChat :: "ServerEnv \<Rightarrow> transport \<Rightarrow> NameRequest \<Rightarrow> UserInfo \<Rightarrow> unit srvM" where
  "handleSpawnGroupChat E t req requestor =
     (if fs_empty (nr_Name req) then SendError E t ''Chat name is required'' EC_OK
      else bindM (liftdb (findChatByName (dbenv E) (nr_Name req))) (\<lambda>existing.
        if existing \<noteq> None then SendError E t ''A chat with this name already exists'' EC_OK
        else bindM (liftdb (createGroupChat requestor (nr_Name req))) (\<lambda>created.
          SendResponce E t (CreateCreateChat \<lparr>chat_Id = ci_Id created, chat_Name = ci_Name created,
            chat_Type = ChatType_Group\<rparr>))))"

definition handleJoinGroupChat :: "ServerEnv \<Rightarrow> transport \<Rightarrow> NameRequest \<Rightarrow> UserInfo \<Rightarrow> unit srvM" where
  "handleJoinGroupChat E t req requestor =
     bindM (findChatByQuery E requestor (nr_Name req)) (\<lambda>chatOpt.
       case chatOpt of
         None \<Rightarrow> SendError E t ''Group chat not found'' EC_OK
       | Some chat \<Rightarrow>
           (if isDirectChat (Some chat)
            then SendError E t ''Use @user or $id to open a direct chat; /join is for group chats only'' EC_OK
            else bindM (liftdb (isUserBannedFromChat (ci_Id chat) (ui_Id requestor))) (\<lambda>banned.
              if banned then SendError E t ''You are banned from this chat'' EC_OK
              else bindM (isUserInChat E requestor chat) (\<lambda>inChat.
                thenM (if inChat then ret () else liftdb (joinChatMember chat requestor))
                  (requireChat E t (ci_Id chat) ''Chat not found'' (\<lambda>refreshed.
                    SendResponce E t (CreateJoinChat \<lparr>chat_Id = ci_Id refreshed,
                      chat_Name = ci_Name refreshed, chat_Type = ChatType_Group\<rparr>)))))))"

definition handleCommitMessage :: "ServerEnv \<Rightarrow> transport \<Rightarrow> CommitMessageRequest \<Rightarrow> UserInfo \<Rightarrow> unit srvM" where
  "handleCommitMessage E t req requestor =
     requireChat E t (cm_ToChat req) ''Chat not found.'' (\<lambda>chat.
       bindM (isUserInChat E requestor chat) (\<lambda>inChat.
         if \<not> inChat then SendError E t ''You are not a member of this chat'' EC_OK
         else bindM (liftdb (commitMessage requestor req)) (\<lambda>message.
           thenM (SendResponce E t (CreateCommitMessageResponce message))
           (thenM (pushMessageToChatMembersExcept E chat \<lparr>upd_Id = 0, upd_body = MessageSent message\<rparr>
                    (ui_Id requestor))
             (thenM (tryHandleSlashCommand E t requestor req chat) (ret ()))))))"

section \<open>Dispatch\<close>

text \<open>
  The \<open>switch\<close>. The first handlers, and \<open>CommitMessage\<close>, read the token through the member
  \<open>CommitMessage\<close> of the union, whatever the type is.
\<close>

fun dispatch :: "ServerEnv \<Rightarrow> transport \<Rightarrow> Request \<Rightarrow> unit srvM" where
  "dispatch E t (Register a) = checkToken E t (union_token (Register a)) (ERR_EXPIRED E) (handleRegister E t a)"
| "dispatch E t (Login a) = checkToken E t (union_token (Login a)) (ERR_EXPIRED E) (handleLogin E t a)"
| "dispatch E t (GetUpdates q) = checkToken E t (union_token (GetUpdates q)) (ERR_EXPIRED E)
     (requireUser E t (ERR_UNAUTHORIZED E) (handleGetUpdates E t q))"
| "dispatch E t (GetChatInfo q) = checkToken E t (union_token (GetChatInfo q)) EC_OK
     (requireUser E t EC_OK (handleGetChatInfo E t q))"
| "dispatch E t (GetChatHistory q) = checkToken E t (union_token (GetChatHistory q)) EC_OK
     (requireUser E t EC_OK (\<lambda>_. handleGetChatHistory E t q))"
| "dispatch E t (GetChatMembers q) = checkToken E t (cr_UserToken q) EC_OK
     (requireUser E t EC_OK (handleGetChatMembers E t q))"
| "dispatch E t (GetChatList token) = checkToken E t token EC_OK
     (requireUser E t EC_OK (handleGetChatList E t))"
| "dispatch E t (GetAddonCommands token) = checkToken E t token EC_OK
     (requireUser E t (ERR_UNAUTHORIZED E) (\<lambda>_. handleGetAddonCommands E t))"
| "dispatch E t (SpawnGroupChat q) = checkToken E t (nr_UserToken q) EC_OK
     (requireUser E t EC_OK (handleSpawnGroupChat E t q))"
| "dispatch E t (JoinGroupChat q) = checkToken E t (nr_UserToken q) EC_OK
     (requireUser E t EC_OK (handleJoinGroupChat E t q))"
| "dispatch E t (CommitMessage m) = checkToken E t (union_token (CommitMessage m)) EC_OK
     (requireUser E t EC_OK (handleCommitMessage E t m))"
| "dispatch E t (Handshake _) = SendError E t ''unsupported request type'' EC_OK"
| "dispatch E t (RequestOther _ _) = SendError E t ''unsupported request type'' EC_OK"

definition processRequest :: "ServerEnv \<Rightarrow> transport \<Rightarrow> Request \<Rightarrow> unit srvM" where
  "processRequest E t request = tryM (dispatch E t request) (\<lambda>e.
     if e = disconnected_error then ret ()
     else if is_runtime_error e then SendError E t (exn_what e) EC_OK
     else throw e)"

end
