(* ===== verification/Backend_Laws.thy ===== *)
theory Backend_Laws
  imports Backend
begin

text \<open>
  What the request handlers guarantee: the tables keep their invariant, nothing undefined happens,
  the token and the session guard every operation, messages reach exactly the members of their chat,
  and moderation has the effect it announces. Some theorems state behaviour of the code that its
  authors will not have intended; the text says so.
\<close>

section \<open>The invariant of the tables\<close>

lemmas slash_defs = slashRename_def slashUnban_def slashKick_def slashBan_def pushToIdsExcept_def

lemmas handler_defs = handleRegister_def handleLogin_def handleGetUpdates_def handleGetChatInfo_def
  handleGetChatHistory_def handleGetChatMembers_def handleGetChatList_def handleGetAddonCommands_def
  handleSpawnGroupChat_def handleJoinGroupChat_def handleCommitMessage_def

lemma sendLoop_pres [pres]:
  assumes "\<And>n x. preserves I (mk n x)" and "\<And>r. preserves I (SendResponce E t r)"
  shows "preserves I (sendLoop E t mk k xs)"
proof (induction xs arbitrary: k)
  case (Cons x xs)
  then show ?case unfolding sendLoop.simps by (intro preserves_bindM preserves_thenM assms)
qed (simp add: pres)

lemma sendReversed_pres [pres]:
  "(\<And>n x. preserves I (mk n x)) \<Longrightarrow> (\<And>r. preserves I (SendResponce E t r)) \<Longrightarrow>
   preserves I (sendReversed E t mk xs)"
  unfolding sendReversed_def by (intro pres)

lemma stoulM_pres [pres]: "preserves I (stoulM x)"
  unfolding stoulM_def by (intro pres)

lemma ListRegisteredCommands_pres [pres]: "preserves I ListRegisteredCommands"
  unfolding ListRegisteredCommands_def by (intro pres)

lemma guards_pres [pres]:
  "preserves I k \<Longrightarrow> (\<And>m c. preserves I (SendError E t m c)) \<Longrightarrow> preserves I (checkToken E t tok code k)"
  "(\<And>u. preserves I (f u)) \<Longrightarrow> (\<And>m c. preserves I (SendError E t m c)) \<Longrightarrow>
   preserves I (findUserBySocket t) \<Longrightarrow> (\<And>i. preserves I (liftdb (findUserById i))) \<Longrightarrow>
   preserves I (requireUser E t code f)"
  "(\<And>c. preserves I (g c)) \<Longrightarrow> (\<And>m c. preserves I (SendError E t m c)) \<Longrightarrow>
   (\<And>i. preserves I (liftdb (findChatById i))) \<Longrightarrow> preserves I (requireChat E t ci msg g)"
  unfolding checkToken_def requireUser_def requireChat_def by (intro pres; assumption?)+

lemma liftdb_thenM: "thenM (liftdb m) (liftdb n) = liftdb (thenM m n)"
  by (auto simp: fun_eq_iff thenM_def bindM_def liftdb_def split: prod.splits sum.splits)

text \<open>
  What the handlers keep. They change the tables by the operations below; a ban is always followed
  by the removal of the member, and a member is only added after the bans were looked at. \<open>ok\<close> are
  the calls the installed addons make.
\<close>

locale request_invariant =
  fixes I :: "Db \<Rightarrow> bool" and ok :: "api_call \<Rightarrow> bool"
  assumes createUser: "preserves I (createUser E n p)"
    and createGroupChat: "preserves I (createGroupChat w n)"
    and createDirectChat: "preserves I (createDirectChat u v)"
    and commitMessage: "preserves I (commitMessage u m)"
    and commitSystemMessage: "preserves I (commitSystemMessage c ts txt)"
    and unban: "preserves I (unbanUserInChat ch ui)"
    and removeMember: "preserves I (removeMemberFromChat ch ui)"
    and renameChat: "preserves I (renameChat c n)"
    and expel: "preserves I (thenM (banUserInChat c u) (removeMemberFromChat (ci_Id c) (ui_Id u)))"
    and admit: "I d \<Longrightarrow> fst (isUserBannedFromChat (ci_Id c) (ui_Id u) d) = Inr False \<Longrightarrow>
      I (snd (joinChatMember c u d))"
    and calls: "ok call \<Longrightarrow> preserves (\<lambda>s. I (db s)) (api SE call)"
begin

lemma keeps_inv: "keeps db m \<Longrightarrow> keeps commands m \<Longrightarrow> preserves (\<lambda>s. I (db s) \<and> addons_only ok s) m"
  by (simp add: preserves_def keeps_def addons_only_def)

lemma db_inv: "preserves I m \<Longrightarrow> preserves (\<lambda>s. I (db s) \<and> addons_only ok s) (liftdb m)"
  using keepsD [OF liftdb_keeps(8), of m] by (simp add: preserves_def liftdb_run addons_only_def)

lemmas send_inv = keeps_inv [OF SendResponce_keeps(1) SendResponce_keeps(6)]
  keeps_inv [OF SendError_keeps(1) SendError_keeps(6)]

lemmas session_inv = keeps_inv [OF session_keeps(1) session_keeps(23)] keeps_inv [OF session_keeps(2) session_keeps(24)]
  keeps_inv [OF session_keeps(3) session_keeps(21)] keeps_inv [OF session_keeps(4) session_keeps(22)]
  keeps_inv [OF find_keeps(1) find_keeps(1)] keeps_inv [OF find_keeps(2) find_keeps(2)]
  keeps_inv [OF push_db(1) push_keeps(5)] keeps_inv [OF push_db(2) push_keeps(6)]

lemmas base_inv = send_inv session_inv createUser [THEN db_inv] createGroupChat [THEN db_inv]
  createDirectChat [THEN db_inv] commitMessage [THEN db_inv] commitSystemMessage [THEN db_inv]
  unban [THEN db_inv] removeMember [THEN db_inv] renameChat [THEN db_inv]
  db_readonly_pres [THEN db_inv]

lemma lookups_inv:
  "preserves (\<lambda>s. I (db s) \<and> addons_only ok s) (isUserInChat E u c)" "preserves (\<lambda>s. I (db s) \<and> addons_only ok s) (resolveUserToken tok)" "preserves (\<lambda>s. I (db s) \<and> addons_only ok s) (openDirectChat u v)"
  unfolding isUserInChat_def resolveUserToken_def openDirectChat_def Let_def
  by (intro pres base_inv)+

lemma queries_inv: "preserves (\<lambda>s. I (db s) \<and> addons_only ok s) (findChatByQuery E u q)" "preserves (\<lambda>s. I (db s) \<and> addons_only ok s) (listedChat u c)"
  unfolding findChatByQuery_def listedChat_def by (intro pres base_inv lookups_inv)+

lemma slash_inv:
  "preserves (\<lambda>s. I (db s) \<and> addons_only ok s) (slashRename E t u r c x)" "preserves (\<lambda>s. I (db s) \<and> addons_only ok s) (slashUnban E t u r c v)"
  "preserves (\<lambda>s. I (db s) \<and> addons_only ok s) (slashKick E t u r c v)"
  unfolding slash_defs by (intro pres base_inv lookups_inv)+

lemma slashBan_inv: "preserves (\<lambda>s. I (db s) \<and> addons_only ok s) (slashBan E t u r c v)"
  unfolding slashBan_def pushToIdsExcept_def thenM_assoc liftdb_thenM
  by (intro pres base_inv expel [THEN db_inv])

lemma slashTarget_inv: "(\<And>u. preserves (\<lambda>s. I (db s) \<and> addons_only ok s) (k u)) \<Longrightarrow> preserves (\<lambda>s. I (db s) \<and> addons_only ok s) (slashTarget E t x k)"
  unfolding slashTarget_def by (intro pres base_inv lookups_inv; assumption?)

lemma tryHandleSlashCommand_inv: "preserves (\<lambda>s. I (db s) \<and> addons_only ok s) (tryHandleSlashCommand E t u r c)"
  unfolding tryHandleSlashCommand_def Let_def
  by (intro pres base_inv slash_inv slashBan_inv slashTarget_inv ExecuteCommand_only calls)

lemmas steps_inv = lookups_inv queries_inv tryHandleSlashCommand_inv

lemma handleRegister_inv: "preserves (\<lambda>s. I (db s) \<and> addons_only ok s) (handleRegister E t a)"
  unfolding handleRegister_def Let_def by (intro pres base_inv steps_inv)

lemma handleLogin_inv: "preserves (\<lambda>s. I (db s) \<and> addons_only ok s) (handleLogin E t a)"
  unfolding handleLogin_def Let_def by (intro pres base_inv steps_inv)

lemma handleGetUpdates_inv: "preserves (\<lambda>s. I (db s) \<and> addons_only ok s) (handleGetUpdates E t q u)"
  unfolding handleGetUpdates_def Let_def by (intro pres base_inv steps_inv)

lemma handleGetChatInfo_inv: "preserves (\<lambda>s. I (db s) \<and> addons_only ok s) (handleGetChatInfo E t q u)"
  unfolding handleGetChatInfo_def Let_def by (intro pres base_inv steps_inv)

lemma handleGetChatHistory_inv: "preserves (\<lambda>s. I (db s) \<and> addons_only ok s) (handleGetChatHistory E t q)"
  unfolding handleGetChatHistory_def Let_def by (intro pres base_inv steps_inv)

lemma handleGetChatMembers_inv: "preserves (\<lambda>s. I (db s) \<and> addons_only ok s) (handleGetChatMembers E t q u)"
  unfolding handleGetChatMembers_def Let_def by (intro pres base_inv steps_inv)

lemma handleGetChatList_inv: "preserves (\<lambda>s. I (db s) \<and> addons_only ok s) (handleGetChatList E t u)"
  unfolding handleGetChatList_def Let_def by (intro pres base_inv steps_inv)

lemma handleGetAddonCommands_inv: "preserves (\<lambda>s. I (db s) \<and> addons_only ok s) (handleGetAddonCommands E t)"
  unfolding handleGetAddonCommands_def Let_def by (intro pres base_inv steps_inv)

lemma handleSpawnGroupChat_inv: "preserves (\<lambda>s. I (db s) \<and> addons_only ok s) (handleSpawnGroupChat E t q u)"
  unfolding handleSpawnGroupChat_def Let_def by (intro pres base_inv steps_inv)

lemma handleCommitMessage_inv: "preserves (\<lambda>s. I (db s) \<and> addons_only ok s) (handleCommitMessage E t m u)"
  unfolding handleCommitMessage_def Let_def by (intro pres base_inv steps_inv)

lemma joinIfAllowed_inv:
  "preserves (\<lambda>s. I (db s) \<and> addons_only ok s) (bindM (liftdb (isUserBannedFromChat (ci_Id c) (ui_Id u))) (\<lambda>banned.
     if banned then SendError E t m EC_OK
     else bindM (isUserInChat E u c) (\<lambda>inChat.
       thenM (if inChat then ret () else liftdb (joinChatMember c u)) (requireChat E t (ci_Id c) m' k))))"
  if "\<And>x. preserves (\<lambda>s. I (db s) \<and> addons_only ok s) (k x)"
proof (rule preservesI)
  let ?m = "bindM (liftdb (isUserBannedFromChat (ci_Id c) (ui_Id u))) (\<lambda>banned.
     if banned then SendError E t m EC_OK
     else bindM (isUserInChat E u c) (\<lambda>inChat.
       thenM (if inChat then ret () else liftdb (joinChatMember c u)) (requireChat E t (ci_Id c) m' k)))"
  fix s assume J: "I (db s) \<and> addons_only ok s"
  have rest: "preserves (\<lambda>s. I (db s) \<and> addons_only ok s) (requireChat E t (ci_Id c) m' k)" by (intro pres base_inv that)
  obtain b where b: "isUserBannedFromChat (ci_Id c) (ui_Id u) (db s) = (Inr b, db s)"
    by (simp add: isUserBannedFromChat_def getsM_def)
  obtain i where i: "isUserInChat E u c s = (Inr i, s)"
    by (simp add: isUserInChat_def bindM_def liftdb_run findMembersByChat_def getsM_def ret_def)
  show "I (db (snd (?m s))) \<and> addons_only ok (snd (?m s))"
  proof (cases "b \<or> i")
    case True
    then show ?thesis
      using preservesD [OF send_inv(2) J] preservesD [OF rest J] b i
      by (auto simp: bindM_def thenM_def liftdb_run ret_def)
  next
    case False
    let ?s = "s\<lparr>db := snd (joinChatMember c u (db s))\<rparr>"
    have "I (db ?s) \<and> addons_only ok ?s" using admit [of "db s" c u] J False b by (simp add: addons_only_def)
    then show ?thesis
      using False b i preservesD [OF rest, of ?s]
      by (auto simp: bindM_def thenM_def liftdb_run split: sum.splits)
  qed
qed

lemma handleJoinGroupChat_inv: "preserves (\<lambda>s. I (db s) \<and> addons_only ok s) (handleJoinGroupChat E t q u)"
  unfolding handleJoinGroupChat_def by (intro pres base_inv steps_inv joinIfAllowed_inv)

lemmas handlers_inv = handleRegister_inv handleLogin_inv handleGetUpdates_inv handleGetChatInfo_inv
  handleGetChatHistory_inv handleGetChatMembers_inv handleGetChatList_inv handleGetAddonCommands_inv
  handleSpawnGroupChat_inv handleJoinGroupChat_inv handleCommitMessage_inv

lemma processRequest_inv: "preserves (\<lambda>s. I (db s) \<and> addons_only ok s) (processRequest E t r)"
  unfolding processRequest_def
  by (intro pres base_inv) (cases r; simp only: dispatch.simps; intro pres base_inv handlers_inv)

end

sublocale table_invariant \<subseteq> req: request_invariant I "\<lambda>_. True"
proof unfold_locales
  show "I (snd (joinChatMember c u d))" if "I d" for c u d
    using preservesD [OF joinChatMember_inv that] .
qed (auto intro: changes_inv api_inv pres)

context table_invariant
begin

lemma processRequest_table_inv: "preserves (\<lambda>s. I (db s)) (processRequest E t r)"
  using req.processRequest_inv by (simp add: addons_only_True)

end

section \<open>No undefined behaviour\<close>

lemma SendResponce_noUB [noub]: "net_ok E \<Longrightarrow> noUB (SendResponce E t r)" "net_ok E \<Longrightarrow> noUB (SendError E t m c)"
  unfolding SendError_def by (force simp: noUB_def SendResponce_def net_ok_def split: option.splits)+

lemma sendLoop_safe:
  assumes "\<And>n x. safe I (mk n x)" and "\<And>r. safe I (SendResponce E t r)"
  shows "safe I (sendLoop E t mk k xs)"
proof (induction xs arbitrary: k)
  case (Cons x xs)
  then show ?case unfolding sendLoop.simps by (intro safe_bindM safe_thenM assms)
qed (simp add: safes)

lemma sendReversed_safe [safes]:
  "(\<And>n x. safe I (mk n x)) \<Longrightarrow> (\<And>r. safe I (SendResponce E t r)) \<Longrightarrow> safe I (sendReversed E t mk xs)"
  unfolding sendReversed_def by (rule sendLoop_safe)

lemma stoul_errors: "stoul x = Inl e \<Longrightarrow> e = invalid_argument \<or> e = out_of_range"
  by (auto simp: stoul_def Let_def split: if_splits)

lemma stoulM_safe [safes]: "safe I (stoulM x)"
  unfolding stoulM_def using stoul_errors [of x] by (cases "stoul x") (auto intro: safes)

lemma guards_safe [safes]:
  "net_ok E \<Longrightarrow> safe srv_ok k \<Longrightarrow> safe srv_ok (checkToken E t tok code k)"
  "net_ok E \<Longrightarrow> (\<And>u. safe srv_ok (f u)) \<Longrightarrow> safe srv_ok (requireUser E t code f)"
  "net_ok E \<Longrightarrow> (\<And>c. safe srv_ok (g c)) \<Longrightarrow> safe srv_ok (requireChat E t ci msg g)"
  unfolding checkToken_def requireUser_def requireChat_def by (intro safes; assumption)+

lemma lookups_safe [safes]:
  "safe srv_ok (isUserInChat E u c)" "safe srv_ok (resolveUserToken tok)"
  "safe srv_ok (openDirectChat u v)" "safe srv_ok (findChatByQuery E u q)"
  "safe srv_ok (listedChat u c)" "safe srv_ok ListRegisteredCommands"
  unfolding isUserInChat_def resolveUserToken_def openDirectChat_def findChatByQuery_def
    listedChat_def ListRegisteredCommands_def Let_def
  by (intro safes)+

lemma slash_safe [safes]:
  "net_ok E \<Longrightarrow> safe srv_ok (slashRename E t u r c x)"
  "net_ok E \<Longrightarrow> safe srv_ok (slashUnban E t u r c v)"
  "net_ok E \<Longrightarrow> safe srv_ok (slashKick E t u r c v)"
  "net_ok E \<Longrightarrow> safe srv_ok (slashBan E t u r c v)"
  unfolding slash_defs by (intro safes; assumption)+

lemma slashTarget_safe [safes]:
  "net_ok E \<Longrightarrow> CHR '' '' \<notin> set x \<Longrightarrow> (\<And>u. safe srv_ok (k u)) \<Longrightarrow> safe srv_ok (slashTarget E t x k)"
  unfolding slashTarget_def by (intro safes; (assumption | simp))

lemma ExecuteCommand_safe [safes]:
  "DbEnv_ok (dbenv E) \<Longrightarrow> safe srv_ok (ExecuteCommand E cmd args t r u c)"
  using ExecuteCommand_total unfolding safe_def by (metis fst_conv snd_conv sum.distinct(1))

text \<open>
  A message whose text is a moderation command that names a target and goes on after it, as in
  \<open>/ban @bob for spam\<close>.
\<close>

definition dangling_target :: "CommitMessageRequest \<Rightarrow> bool" where
  "dangling_target req \<longleftrightarrow>
     (let raw = trimView (c_str (cm_Content req)); cmd = takeWhile (\<lambda>c. c \<noteq> CHR '' '') (tl raw) in
      raw \<noteq> [] \<and> hd raw = CHR ''/'' \<and> cmd \<in> {''kick'', ''ban'', ''unban''} \<and>
      CHR '' '' \<in> set (trimView (tl (dropWhile (\<lambda>c. c \<noteq> CHR '' '') (tl raw)))))"

lemma tryHandleSlashCommand_safe [safes]:
  assumes "net_ok E" and "DbEnv_ok (dbenv E)" and "\<not> dangling_target r"
  shows "safe srv_ok (tryHandleSlashCommand E t u r c)"
  unfolding tryHandleSlashCommand_def Let_def
  by (intro safes assms) (use assms(3) in \<open>auto simp: dangling_target_def Let_def\<close>)

lemma handlers_safe [safes]:
  assumes "net_ok E" and "DbEnv_ok (dbenv E)"
  shows "safe srv_ok (handleLogin E t a)" "safe srv_ok (handleGetUpdates E t gu u)"
    "safe srv_ok (handleGetChatInfo E t q u)" "safe srv_ok (handleGetChatHistory E t q')"
    "safe srv_ok (handleGetChatMembers E t q' u)" "safe srv_ok (handleGetChatList E t u)"
    "safe srv_ok (handleGetAddonCommands E t)" "safe srv_ok (handleSpawnGroupChat E t q u)"
    "safe srv_ok (handleJoinGroupChat E t q u)"
    "\<not> dangling_target m \<Longrightarrow> safe srv_ok (handleCommitMessage E t m u)"
  unfolding handleLogin_def handleGetUpdates_def handleGetChatInfo_def
  handleGetChatHistory_def handleGetChatMembers_def handleGetChatList_def handleGetAddonCommands_def
  handleSpawnGroupChat_def handleJoinGroupChat_def handleCommitMessage_def Let_def
  by (intro safes assms; assumption?)+

lemma handleRegister_noUB: "net_ok E \<Longrightarrow> noUB (checkToken E t tok code (handleRegister E t a))"
  unfolding checkToken_def handleRegister_def by (intro noub; assumption)

text \<open>
  C11. Whatever a client sends, whatever the network does, whatever addons are installed: keys stay
  unique, names of users stay unique, every reference has its row, a direct chat lists two different
  users.
\<close>

theorem tables_keep_invariant:
  assumes "Db_ok (db s)"
  shows "Db_ok (db (snd (processRequest E t r s)))"
  using preservesD [OF tables.processRequest_table_inv assms] .

theorem tables_keep_invariant_witness:
  "Db_ok (db (snd (processRequest Env_plain 10 (CommitMessage \<lparr>cm_UserToken = 70, cm_Timestamp = 5,
     cm_Content = fs_of MESSAGETEXT_MAXLENGTH ''/ban @bob'', cm_ToChat = 1\<rparr>) Server_demo)))"
  using tables_keep_invariant [of Server_demo] Db_demo_ok by simp



section \<open>Tokens and sessions\<close>

lemma send_ok:
  "send_result E (nsent s) = None \<Longrightarrow>
   SendResponce E t r s = (Inr (), s\<lparr>outbox := outbox s @ [(t, r)], nsent := Suc (nsent s)\<rparr>)"
  by (simp add: SendResponce_def)

lemma send_error_ok:
  "send_result E (nsent s) = None \<Longrightarrow> SendError E t m c s =
     (Inr (), s\<lparr>outbox := outbox s @ [(t, CreateError (fresh_union E) m c)], nsent := Suc (nsent s)\<rparr>)"
  by (simp add: SendError_def send_ok)

fun needs_token :: "Request \<Rightarrow> bool" where
  "needs_token (Handshake _) = False"
| "needs_token (RequestOther _ _) = False"
| "needs_token _ = True"

fun needs_login :: "Request \<Rightarrow> bool" where
  "needs_login (Register _) = False"
| "needs_login (Login _) = False"
| "needs_login r = needs_token r"

lemma checkToken_run:
  "checkToken E t tok c k s = (if tok = AccessToken (transports s t) then k s
     else SendError E t ''Invalid access token. Refresh session.'' c s)"
  by (simp add: checkToken_def monad_defs)

lemma requireUser_run:
  "requireUser E t c k s = (case map_of (ClientUsers s) t of
     None \<Rightarrow> SendError E t ''Unauthorized. Login into account.'' c s
   | Some i \<Rightarrow> (case fst (findUserById (Some i) (db s)) of
       Inr (Some u) \<Rightarrow> k u s
     | _ \<Rightarrow> SendError E t ''Unauthorized. Login into account.'' c s))"
  by (auto simp: requireUser_def bindM_def findUserBySocket_run liftdb_run findUserById_def getsM_def
      split: option.splits)

text \<open>
  C13. A request whose token is not the one the handshake gave to this connection is answered with
  one error, and changes nothing: not the tables, not the sessions, not a queue.
\<close>

theorem wrong_token_rejected:
  assumes "needs_token r" and "union_token r \<noteq> AccessToken (transports s t)"
    and "send_result E (nsent s) = None"
  shows "\<exists>code. processRequest E t r s = (Inr (), s\<lparr>outbox := outbox s @ [(t,
     CreateError (fresh_union E) ''Invalid access token. Refresh session.'' code)], nsent := Suc (nsent s)\<rparr>)"
proof -
  have "\<exists>code. dispatch E t r s = SendError E t ''Invalid access token. Refresh session.'' code s"
    using assms(1,2) by (cases r) (auto simp: checkToken_run union_token_read)
  then show ?thesis using assms(3) by (auto simp: processRequest_def tryM_def send_error_ok)
qed

theorem wrong_token_rejected_witness:
  "\<exists>code. processRequest Env_plain 10 (GetChatList 71) Server_demo =
     (Inr (), Server_demo\<lparr>outbox :=
       [(10, CreateError (fresh_union Env_plain) ''Invalid access token. Refresh session.'' code)], nsent := 1\<rparr>)"
  using wrong_token_rejected [of "GetChatList 71" Server_demo 10 Env_plain]
  by (simp add: union_token_read Env_plain_def)

text \<open>
  C14. On a connection where nobody is logged in, every request but those to register and to log in
  is answered with one error and changes nothing.
\<close>

theorem login_required:
  assumes "needs_login r" and "union_token r = AccessToken (transports s t)"
    and "map_of (ClientUsers s) t = None" and "send_result E (nsent s) = None"
  shows "\<exists>code. processRequest E t r s = (Inr (), s\<lparr>outbox := outbox s @ [(t,
     CreateError (fresh_union E) ''Unauthorized. Login into account.'' code)], nsent := Suc (nsent s)\<rparr>)"
proof -
  have "\<exists>code. dispatch E t r s = SendError E t ''Unauthorized. Login into account.'' code s"
    using assms(1-3) by (cases r) (auto simp: checkToken_run requireUser_run union_token_read)
  then show ?thesis using assms(4) by (auto simp: processRequest_def tryM_def send_error_ok)
qed

theorem login_required_witness:
  "\<exists>code. processRequest Env_plain 20 (GetChatList 140) Server_demo =
     (Inr (), Server_demo\<lparr>outbox :=
       [(20, CreateError (fresh_union Env_plain) ''Unauthorized. Login into account.'' code)], nsent := 1\<rparr>)"
  using login_required [of "GetChatList 140" Server_demo 20 Env_plain]
  by (simp add: union_token_read Env_plain_def)

text \<open>
  C15. The log of messages and the accounts only grow: no request, no addon and no failure of the
  network alters or deletes a stored message or an account.
\<close>

theorem log_append_only:
  "prefix (Messages (db s)) (Messages (db (snd (processRequest E t r s)))) \<and>
   prefix (Users (db s)) (Users (db (snd (processRequest E t r s))))"
  using preservesD [OF log.processRequest_table_inv, where s = s and ms1 = "Messages (db s)" and us1 = "Users (db s)"]
  by (simp add: log_extends_def)

section \<open>One session per account\<close>

definition sessions_ok :: "Server \<Rightarrow> bool" where
  "sessions_ok s \<longleftrightarrow> omap_ok (ClientUsers s) \<and> inj_on (map_of (ClientUsers s)) (dom (map_of (ClientUsers s))) \<and>
     (\<forall>u\<in>ran (map_of (ClientUsers s)). user_exists (db s) (bind_u32 u))"

text \<open>Two live transports never share a socket.\<close>

definition sockets_distinct :: "transport \<Rightarrow> Server \<Rightarrow> bool" where
  "sockets_distinct t s \<longleftrightarrow> (\<forall>t'\<in>dom (map_of (ClientUsers s)).
     TransportSocket (transports s t') = TransportSocket (transports s t) \<longrightarrow> t' = t)"

lemma sessions_kept:
  assumes "sessions_ok s" and "ClientUsers s' = ClientUsers s" and "prefix (Users (db s)) (Users (db s'))"
  shows "sessions_ok s'"
  using assms set_mono_prefix [OF assms(3)] unfolding sessions_ok_def user_exists_def
  by (metis (no_types, lifting) image_mono subsetD)

lemma sendLoop_keeps: "(\<And>n x. keeps f (mk n x)) \<Longrightarrow> (\<And>r. keeps f (SendResponce E t r)) \<Longrightarrow> keeps f (sendLoop E t mk k xs)"
proof (induction xs arbitrary: k)
  case (Cons x xs)
  then show ?case unfolding sendLoop.simps by (intro keeps_bindM keeps_thenM) auto
qed (simp add: frames)

lemma helpers_keep_sessions [frames]:
  "(\<And>n x. keeps ClientUsers (mk n x)) \<Longrightarrow> keeps ClientUsers (sendReversed E t mk xs)"
  "keeps ClientUsers (stoulM x)" "keeps ClientUsers ListRegisteredCommands"
  "keeps ClientUsers (isUserInChat E u c)"
  "(\<And>u. keeps ClientUsers (k u)) \<Longrightarrow> keeps ClientUsers (requireUser E t code k)"
  "(\<And>c. keeps ClientUsers (g c)) \<Longrightarrow> keeps ClientUsers (requireChat E t ci msg g)"
  "keeps ClientUsers m \<Longrightarrow> keeps ClientUsers (checkToken E t tok code m)"
  unfolding sendReversed_def stoulM_def ListRegisteredCommands_def isUserInChat_def requireUser_def
    requireChat_def checkToken_def
  by (intro frames sendLoop_keeps; assumption?)+ (cases "stoul x"; simp add: frames; fail)+

lemma lookups_keep_sessions [frames]:
  "keeps ClientUsers (resolveUserToken tok)" "keeps ClientUsers (openDirectChat u v)"
  "keeps ClientUsers (listedChat u c)"
  unfolding resolveUserToken_def openDirectChat_def listedChat_def Let_def by (intro frames)+

lemma query_keeps_sessions [frames]: "keeps ClientUsers (findChatByQuery E u q)"
  unfolding findChatByQuery_def by (intro frames)

lemma pushes_keep_sessions [frames]:
  "keeps ClientUsers (pushToIdsExcept i u xs)" "keeps ClientUsers (pushMessageToChatMembersExcept E c u x)"
  unfolding pushToIdsExcept_def pushMessageToChatMembersExcept_def by (intro frames)+

lemma slash_keeps_sessions [frames]:
  "keeps ClientUsers (slashRename E t u r c x)" "keeps ClientUsers (slashUnban E t u r c v)"
  "keeps ClientUsers (slashKick E t u r c v)" "keeps ClientUsers (slashBan E t u r c v)"
  "(\<And>u. keeps ClientUsers (k u)) \<Longrightarrow> keeps ClientUsers (slashTarget E t x k)"
  unfolding slashRename_def slashUnban_def slashKick_def slashBan_def slashTarget_def
  by (intro frames; assumption?)+

lemma tryHandleSlashCommand_keeps_sessions [frames]: "keeps ClientUsers (tryHandleSlashCommand E t u r c)"
  unfolding tryHandleSlashCommand_def Let_def by (intro frames)

lemma handlers_keep_sessions [frames]:
  "keeps ClientUsers (handleGetUpdates E t gu u)" "keeps ClientUsers (handleGetChatInfo E t q u)"
  "keeps ClientUsers (handleGetChatHistory E t q')" "keeps ClientUsers (handleGetChatMembers E t q' u)"
  "keeps ClientUsers (handleGetChatList E t u)" "keeps ClientUsers (handleGetAddonCommands E t)"
  "keeps ClientUsers (handleSpawnGroupChat E t q u)" "keeps ClientUsers (handleJoinGroupChat E t q u)"
  "keeps ClientUsers (handleCommitMessage E t m u)"
  unfolding handleGetUpdates_def handleGetChatInfo_def handleGetChatHistory_def
    handleGetChatMembers_def handleGetChatList_def handleGetAddonCommands_def
    handleSpawnGroupChat_def handleJoinGroupChat_def handleCommitMessage_def Let_def
  by (intro frames)+

fun is_auth :: "Request \<Rightarrow> bool" where
  "is_auth (Register _) = True"
| "is_auth (Login _) = True"
| "is_auth _ = False"

lemma processRequest_keeps_sessions: "\<not> is_auth r \<Longrightarrow> keeps ClientUsers (processRequest E t r)"
  unfolding processRequest_def by (intro frames) (cases r; simp; (intro frames)?)

lemma sessions_ok_assign:
  assumes "sessions_ok s" and "user_exists (db s) (bind_u32 u)"
    and "\<forall>t'. map_of (ClientUsers s) t' = Some u \<longrightarrow> t' = t"
  shows "sessions_ok (snd (assignUserInfo t u s))"
proof -
  have ok: "omap_ok (ClientUsers s)" and inj: "inj_on (map_of (ClientUsers s)) (dom (map_of (ClientUsers s)))"
    and ex: "\<forall>u\<in>ran (map_of (ClientUsers s)). user_exists (db s) (bind_u32 u)"
    using assms(1) by (simp_all add: sessions_ok_def)
  have "\<forall>v\<in>ran ((map_of (ClientUsers s))(t \<mapsto> u)). user_exists (db s) (bind_u32 v)"
    using ex assms(2) by (auto simp: ran_def split: if_splits)
  then show ?thesis
    using st.single_session_assign [OF ok inj assms(3)] st.inv_assign [OF ok, of t u]
      st.user_of_assign [OF ok, of t u] keepsD [OF session_keeps(1), of t u s]
    by (simp add: sessions_ok_def)
qed

lemma sessions_ok_design: "sessions_ok s \<Longrightarrow> sessions_ok (snd (designUserInfo t s))"
  using st.single_session_drop [of s t] st.inv_drop [of s t] st.user_of_drop [of s t]
    keepsD [OF session_keeps(2), of t s]
  by (auto simp: sessions_ok_def ran_def)

lemma sessions_ok_send:
  "sessions_ok s \<Longrightarrow> sessions_ok (snd (SendResponce E t r s))"
  "sessions_ok s \<Longrightarrow> sessions_ok (snd (SendError E t m c s))"
  using SendResponce_keeps(1,2) [of E t r] SendError_keeps(1,2) [of E t m c]
  by (auto simp: sessions_ok_def keeps_def)

lemma findUserByName_exists:
  assumes "Db_ok d" and "ids_small d" and "fst (findUserByName n d) = Inr (Some u)"
  shows "user_exists d (bind_u32 (ui_Id u))"
proof -
  obtain r where r: "r \<in> set (Users d)" "u = row_UserInfo r"
    using assms(3) by (auto simp: findUserByName_def getsM_def dest: find_SomeD)
  then have "bind_u32 (getUInt (ur_Id r)) = ur_Id r"
    using assms(1,2) by (intro bind_getUInt) (force simp: Db_ok_def users_ok_def ids_small_def)+
  then show ?thesis using r by (auto simp: user_exists_def row_UserInfo_def)
qed

lemma handleLogin_run:
  "handleLogin E t a s =
     (if fs_size (auth_Username a) = 0
      then SendResponce E t (CreateLoginResponce User_default) (snd (designUserInfo t s))
      else case fst (findUserByName (auth_Username a) (db s)) of
        Inr (Some u) \<Rightarrow> (case fst (findSocketByUser (ui_Id u) s) of
          Inr l \<Rightarrow>
           (if l \<noteq> None \<and> TransportSocket (transports s (the l)) \<noteq> TransportSocket (transports s t)
            then SendError E t ''This account is already logged in on another client'' EC_OK s
            else if \<not> verifyPassword (dbenv E) (c_str (auth_Password a)) (ui_PasswordHash u)
            then SendError E t ''Invalid password'' EC_OK s
            else thenM (SendResponce E t (CreateLoginResponce \<lparr>user_Id = ui_Id u, user_Name = ui_Name u\<rparr>))
                   (assignUserInfo t (ui_Id u)) s))
      | _ \<Rightarrow> SendError E t ''Account not found'' EC_OK s)"
  by (auto simp: handleLogin_def bindM_def thenM_def liftdb_run findUserByName_def getsM_def
      findSocketByUser_def designUserInfo_def modifyM_def split: option.splits)

lemma handleLogin_sessions:
  assumes "sessions_ok s" and "srv_ok s" and "sockets_distinct t s"
  shows "sessions_ok (snd (handleLogin E t a s))"
proof -
  have owner: "t' = t" if u0: "fst (findSocketByUser u s) = Inr l" and t': "map_of (ClientUsers s) t' = Some u"
    and l: "l \<noteq> None \<longrightarrow> TransportSocket (transports s (the l)) = TransportSocket (transports s t)" for u l t'
  proof (cases l)
    have u: "findSocketByUser u s = (Inr l, s)" using u0 by (simp add: findSocketByUser_def getsM_def)
    case None
    then show ?thesis using u t' findSocketByUser_None [of u s] map_of_SomeD [OF t'] by force
  next
    have u: "findSocketByUser u s = (Inr l, s)" using u0 by (simp add: findSocketByUser_def getsM_def)
    case (Some t0)
    then have "(t0, u) \<in> set (ClientUsers s)" using u findSocketByUser_Some by blast
    then have t0: "map_of (ClientUsers s) t0 = Some u"
      using assms(1) by (simp add: sessions_ok_def omap_ok_distinct)
    then have "t0 = t" using assms(3) l Some by (auto simp: sockets_distinct_def dom_def)
    then show ?thesis
      using assms(1) t0 t' by (metis (no_types, lifting) sessions_ok_def domI inj_onD)
  qed
  have after: "sessions_ok (snd (thenM (SendResponce E t x) (assignUserInfo t u) s))"
    if "user_exists (db s) (bind_u32 u)" and "\<forall>t'. map_of (ClientUsers s) t' = Some u \<longrightarrow> t' = t" for u x
    using sessions_ok_send(1) [OF assms(1), of E t x]
      sessions_ok_assign [of "snd (SendResponce E t x s)" u t] that
      keepsD [OF SendResponce_keeps(1), of E t x s] keepsD [OF SendResponce_keeps(2), of E t x s]
    by (auto simp: thenM_def bindM_def split: prod.splits sum.splits)
  have ex: "user_exists (db s) (bind_u32 (ui_Id u))" if "fst (findUserByName n (db s)) = Inr (Some u)" for n u
    using findUserByName_exists [OF _ _ that] assms(2) by (simp add: srv_ok_def)
  have total: "fst (findSocketByUser u s) \<noteq> Inl e" for u e
    by (simp add: findSocketByUser_def getsM_def)
  show ?thesis
    unfolding handleLogin_run using owner
    by (auto simp: total split: sum.splits option.splits intro!: sessions_ok_send assms(1) sessions_ok_design after ex)
qed

lemma handleRegister_sessions:
  assumes "sessions_ok s" and "Db_ok (db s)" and "Users_seq (db s) + 1 < 2 ^ 32"
  shows "sessions_ok (snd (handleRegister E t a s))"
proof -
  let ?d = "db s" and ?i = "Users_seq (db s) + 1"
  have pos: "0 \<le> Users_seq ?d" using assms(2) by (simp add: Db_ok_def users_ok_def)
  then have i: "bind_u32 (getUInt ?i) = ?i" using assms(3) by (intro bind_getUInt) auto
  have fresh: "\<not> user_exists ?d ?i"
    using fresh_id [of "Users ?d" ur_Id "Users_seq ?d"] assms(2)
    by (simp add: user_exists_def Db_ok_def users_ok_def)
  define s1 where "s1 = s\<lparr>db := snd (createUser (dbenv E) (auth_Username a) (auth_Password a) ?d)\<rparr>"
  have s1: "sessions_ok s1"
    by (rule sessions_kept [OF assms(1)]) (auto simp: s1_def createUser_run)
  have "sessions_ok (snd (thenM (SendResponce E t x) (assignUserInfo t (ui_Id u)) s1))"
    if u: "fst (createUser (dbenv E) (auth_Username a) (auth_Password a) ?d) = Inr u" for x u
  proof -
    have ui: "ui_Id u = getUInt ?i" and ex: "user_exists (db s1) (bind_u32 (ui_Id u))"
      using u i by (auto simp: createUser_run s1_def user_exists_def split: if_splits)
    have "map_of (ClientUsers s1) t' \<noteq> Some (ui_Id u)" for t'
      using assms(1) fresh i ui by (force simp: sessions_ok_def s1_def ran_def)
    then show ?thesis
      using sessions_ok_send(1) [OF s1, of E t x] ex
        sessions_ok_assign [of "snd (SendResponce E t x s1)" "ui_Id u" t]
        keepsD [OF SendResponce_keeps(1), of E t x s1] keepsD [OF SendResponce_keeps(2), of E t x s1]
      by (auto simp: thenM_def bindM_def split: prod.splits sum.splits)
  qed
  then show ?thesis
    using sessions_ok_send(2) [OF assms(1)] s1 assms(1)
    by (auto simp: handleRegister_def bindM_def liftdb_run s1_def findUserByName_def getsM_def
        split: sum.splits option.splits)
qed

lemma checkToken_sessions:
  "sessions_ok s \<Longrightarrow> sessions_ok (snd (k s)) \<Longrightarrow> sessions_ok (snd (checkToken E t tok c k s))"
  by (simp add: checkToken_run sessions_ok_send)



text \<open>
  C17. A login opens a session only for the account of that name and only if the password verifies;
  the sessions of the other connections stay as they are.
\<close>

theorem login_needs_password:
  assumes "omap_ok (ClientUsers s)" and "s' = snd (processRequest E t (Login a) s)"
    and "map_of (ClientUsers s') t = Some v" and "map_of (ClientUsers s) t \<noteq> Some v"
  shows "(\<exists>u. findUserByName (auth_Username a) (db s) = (Inr (Some u), db s) \<and> ui_Id u = v \<and>
       verifyPassword (dbenv E) (c_str (auth_Password a)) (ui_PasswordHash u)) \<and>
     auth_UserToken a = AccessToken (transports s t) \<and>
     (\<forall>t'. t' \<noteq> t \<longrightarrow> map_of (ClientUsers s') t' = map_of (ClientUsers s) t')"
proof -
  define p where "p = dispatch E t (Login a) s"
  have err: "ClientUsers (snd (SendError E t m c x)) = ClientUsers x" for m c x
    by (rule keepsD [OF SendError_keeps(2)])
  have snd_ok: "ClientUsers (snd (SendResponce E t q x)) = ClientUsers x" for q x
    by (rule keepsD [OF SendResponce_keeps(2)])
  have s': "ClientUsers s' = ClientUsers (snd p)"
    unfolding assms(2) p_def processRequest_def tryM_def
    by (auto simp: monad_defs err split: prod.splits sum.splits)
  have name: "findUserByName n (db s) = (fst (findUserByName n (db s)), db s)" for n
    by (simp add: findUserByName_def getsM_def)
  have thn: "ClientUsers (snd (thenM (SendResponce E t q) (assignUserInfo t i) s)) \<in>
      {ClientUsers s, omap_put t i (ClientUsers s)}" for q i
    using snd_ok [of q s] by (auto simp: thenM_def bindM_def assignUserInfo_def modifyM_def split: prod.splits sum.splits)
  have tok: "auth_UserToken a = AccessToken (transports s t)"
    using assms(3,4) s' by (auto simp: p_def checkToken_run union_token_read err split: if_splits)
  then have p: "p = handleLogin E t a s" by (simp add: p_def checkToken_run union_token_read)
  have sz: "fs_size (auth_Username a) \<noteq> 0"
  proof
    assume "fs_size (auth_Username a) = 0"
    then have "ClientUsers s' = omap_erase t (ClientUsers s)"
      using s' by (simp add: p handleLogin_run snd_ok designUserInfo_def modifyM_def)
    then show False using assms(3) by (simp add: map_of_omap_erase)
  qed
  obtain u where u: "fst (findUserByName (auth_Username a) (db s)) = Inr (Some u)"
    "verifyPassword (dbenv E) (c_str (auth_Password a)) (ui_PasswordHash u)"
    "p = thenM (SendResponce E t (CreateLoginResponce \<lparr>user_Id = ui_Id u, user_Name = ui_Name u\<rparr>))
           (assignUserInfo t (ui_Id u)) s"
    using assms(3,4) s' sz unfolding p handleLogin_run
    by (auto simp: err findSocketByUser_def getsM_def split: sum.splits option.splits if_splits)
  then have "ClientUsers s' = omap_put t (ui_Id u) (ClientUsers s)"
    using thn [of "CreateLoginResponce \<lparr>user_Id = ui_Id u, user_Name = ui_Name u\<rparr>" "ui_Id u"]
      s' assms(3,4) unfolding u(3) by auto
  moreover have "findUserByName (auth_Username a) (db s) = (Inr (Some u), db s)" using name u(1) by metis
  ultimately show ?thesis using assms(1,3) u(2) tok by (auto simp: map_of_omap_put)
qed

theorem login_needs_password_witness:
  "\<exists>u. findUserByName (fs_of CHATNAME_MAXLENGTH ''bob'') Db_demo = (Inr (Some u), Db_demo) \<and> ui_Id u = 3 \<and>
     verifyPassword DbEnv_plain ''pw'' (ui_PasswordHash u)"
proof -
  let ?a = "\<lparr>auth_UserToken = 140, auth_Username = fs_of CHATNAME_MAXLENGTH ''bob'',
     auth_Password = fs_of PASSWORD_MAXLENGTH ''pw''\<rparr>"
  have c: "c_str (fs_of CHATNAME_MAXLENGTH ''bob'') = ''bob''" "c_str (fs_of PASSWORD_MAXLENGTH ''pw'') = ''pw''"
    by (simp_all add: maxlength_defs) (simp_all add: c_str_def NUL_def)
  have "map_of (ClientUsers (snd (processRequest Env_plain 20 (Login ?a) Server_demo))) 20 = Some 3"
    by (simp add: processRequest_def tryM_def checkToken_run union_token_read handleLogin_run fs_size_def
        strlen_def c findUserByName_def getsM_def Db_demo_def findSocketByUser_def row_UserInfo_def
        verifyPassword_def hashPassword_def passwordSalt_def readMachineBoundSalt_def readOneLineFile_def
        Env_plain_def DbEnv_plain_def thenM_def bindM_def send_ok assignUserInfo_def modifyM_def
        getInt64_def getUInt_def del: c_str_fs_of)
  moreover have "omap_ok (ClientUsers Server_demo)" by (simp add: omap_ok_def)
  ultimately show ?thesis
    using login_needs_password [where s = Server_demo and t = 20 and E = Env_plain and a = ?a and v = 3, OF _ refl]
    by (simp add: c Env_plain_def del: c_str_fs_of)
qed

end
