(* ===== verification/Backend_Chat.thy ===== *)
theory Backend_Chat
  imports Backend_Laws
begin

text \<open>
  What the handlers do for a logged-in user, branch by branch: posting, updates, history, joining,
  moderation.
\<close>

section \<open>A logged-in user\<close>

text \<open>\<open>logged_in s t ur\<close>: the account of row \<open>ur\<close> is logged in on \<open>t\<close>.\<close>

definition logged_in :: "Server \<Rightarrow> transport \<Rightarrow> UserRow \<Rightarrow> bool" where
  "logged_in s t ur \<longleftrightarrow> ur \<in> set (Users (db s)) \<and>
     (\<exists>u. map_of (ClientUsers s) t = Some u \<and> ur_Id ur = bind_u32 u)"

lemma requireUser_logged_in:
  assumes "Db_ok (db s)" and "logged_in s t ur"
  shows "requireUser E t c k s = k (row_UserInfo ur) s"
proof -
  obtain u where u: "map_of (ClientUsers s) t = Some u" "ur_Id ur = bind_u32 u" "ur \<in> set (Users (db s))"
    using assms(2) by (auto simp: logged_in_def)
  then show ?thesis using findUserById_row [OF assms(1) u(3,2)] by (simp add: requireUser_run)
qed

lemma requireChat_run:
  "requireChat E t c msg k s = (case fst (findChatById (Some c) (db s)) of
     Inr (Some chat) \<Rightarrow> k chat s | _ \<Rightarrow> SendError E t msg EC_OK s)"
  by (auto simp: requireChat_def bindM_def liftdb_run findChatById_def getsM_def split: option.splits)

lemma findMembersByChat_total: "findMembersByChat E c d = (Inr (projr (fst (findMembersByChat E c d))), d)"
  by (simp add: findMembersByChat_def getsM_def)

lemma isUserInChat_run:
  assumes "DbEnv_ok (dbenv E)" and "srv_ok s"
  shows "isUserInChat E u c s = (Inr (is_member (db s) (ui_Id u) (ci_Id c)), s)"
proof -
  have ok: "Db_ok (db s)" "ids_small (db s)" using assms(2) by (simp_all add: srv_ok_def)
  obtain ms where ms: "findMembersByChat (dbenv E) c (db s) = (Inr ms, db s)"
    using findMembersByChat_total by blast
  then have "(\<exists>m\<in>set ms. ui_Id m = ui_Id u) \<longleftrightarrow> is_member (db s) (ui_Id u) (ci_Id c)"
    using findMembersByChat_spec(3) [OF assms(1) ok ms] by (metis (mono_tags, lifting) image_iff mem_Collect_eq)
  then show ?thesis by (simp add: isUserInChat_def bindM_def liftdb_run ms ret_def)
qed

lemma processRequest_Inr: "dispatch E t r s = (Inr (), s') \<Longrightarrow> processRequest E t r s = (Inr (), s')"
  by (simp add: processRequest_def tryM_def)

section \<open>Posting\<close>

text \<open>
  C18. Only members post: a message to a chat its sender is not in, or that does not exist, is
  answered with one error; nothing is stored and nobody is notified.
\<close>

theorem nonmember_cannot_post:
  assumes "DbEnv_ok (dbenv E)" and "srv_ok s" and "logged_in s t ur"
    and "cm_UserToken m = AccessToken (transports s t)"
    and "\<not> is_member (db s) (getUInt (ur_Id ur)) (cm_ToChat m)"
    and "send_result E (nsent s) = None"
  shows "\<exists>text. processRequest E t (CommitMessage m) s = (Inr (), s\<lparr>outbox := outbox s @
     [(t, CreateError (fresh_union E) text EC_OK)], nsent := Suc (nsent s)\<rparr>)"
proof -
  have "Db_ok (db s)" using assms(2) by (simp add: srv_ok_def)
  then have d: "dispatch E t (CommitMessage m) s = handleCommitMessage E t m (row_UserInfo ur) s"
    using assms(3,4) by (simp add: checkToken_run union_token_read requireUser_logged_in)
  have id: "ci_Id c = cm_ToChat m" if "fst (findChatById (Some (cm_ToChat m)) (db s)) = Inr (Some c)" for c
    using findChatById_Some [of "cm_ToChat m" "db s" c "db s"] that by (simp add: findChatById_def getsM_def)
  have "\<exists>text. handleCommitMessage E t m (row_UserInfo ur) s = SendError E t text EC_OK s"
    using assms(5) id isUserInChat_run [OF assms(1,2)]
    by (auto simp: handleCommitMessage_def requireChat_run bindM_def row_UserInfo_def
        split: sum.splits option.splits)
  then show ?thesis
    using d assms(6) by (auto intro!: processRequest_Inr simp: send_error_ok)
qed

theorem nonmember_cannot_post_witness:
  "\<exists>text. processRequest Env_plain 10 (CommitMessage \<lparr>cm_UserToken = 70, cm_Timestamp = 5,
       cm_Content = fs_of MESSAGETEXT_MAXLENGTH ''hi'', cm_ToChat = 9\<rparr>) Server_demo =
     (Inr (), Server_demo\<lparr>outbox := [(10, CreateError (fresh_union Env_plain) text EC_OK)], nsent := 1\<rparr>)"
proof -
  let ?m = "\<lparr>cm_UserToken = 70, cm_Timestamp = 5, cm_Content = fs_of MESSAGETEXT_MAXLENGTH ''hi'', cm_ToChat = 9\<rparr>"
  have "logged_in Server_demo 10 (Users Db_demo ! 1)"
    by (simp add: logged_in_def Db_demo_def bind_u32_def)
  moreover have "cm_UserToken ?m = AccessToken (transports Server_demo 10)" by simp
  moreover have "\<not> is_member (db Server_demo) (getUInt (ur_Id (Users Db_demo ! 1))) (cm_ToChat ?m)"
    by (simp add: is_member_def Db_demo_def bind_u32_def)
  moreover have "send_result Env_plain (nsent Server_demo) = None" by (simp add: Env_plain_def)
  ultimately show ?thesis using nonmember_cannot_post [OF demo_ok(2,1)] by force
qed

text \<open>
  C19. A member's message that is not a command is stored, acknowledged once to its sender with the
  stored message, and put once at the end of the queue of every other member, and of nobody else.
\<close>

theorem posted_message_delivered:
  assumes "DbEnv_ok (dbenv E)" and "srv_ok s" and "logged_in s t ur"
    and "cm_UserToken m = AccessToken (transports s t)"
    and "cr \<in> set (Chats (db s))" and "chr_Id cr = bind_u32 (cm_ToChat m)"
    and "is_member (db s) (getUInt (ur_Id ur)) (cm_ToChat m)"
    and "Messages_seq (db s) < sqlite_max" and "send_result E (nsent s) = None"
    and "trimView (c_str (cm_Content m)) = [] \<or> hd (trimView (c_str (cm_Content m))) \<noteq> CHR ''/''"
  shows "\<exists>msg s'. processRequest E t (CommitMessage m) s = (Inr (), s') \<and>
     commitMessage (row_UserInfo ur) m (db s) = (Inr msg, db s') \<and>
     outbox s' = outbox s @ [(t, RespCommitMessage msg)] \<and> ClientUsers s' = ClientUsers s \<and>
     UpdatesCache s' = (\<lambda>v. UpdatesCache s v @
       (if is_member (db s) v (cm_ToChat m) \<and> v \<noteq> getUInt (ur_Id ur)
        then [\<lparr>upd_Id = 0, upd_body = MessageSent msg\<rparr>] else []))"
proof -
  have ok: "Db_ok (db s)" "ids_small (db s)" using assms(2) by (simp_all add: srv_ok_def)
  obtain u where u: "ur \<in> set (Users (db s))" "ur_Id ur = bind_u32 u"
    using assms(3) by (auto simp: logged_in_def)
  let ?u = "row_UserInfo ur" and ?c = "row_ChatInfo cr"
  have ids: "ui_Id ?u = getUInt (ur_Id ur)" "ci_Id ?c = cm_ToChat m"
    using assms(6) by (simp_all add: row_UserInfo_def row_ChatInfo_def)
  have uid: "ur_Id ur = bind_u32 (ui_Id ?u)" by (simp add: row_UserInfo_def u(2))
  note run = commitMessage_run [OF ok(1) assms(5,6) u(1) uid assms(8)]
  obtain msg d1 where msg: "commitMessage ?u m (db s) = (Inr msg, d1)" using run by simp
  define s1 where "s1 = s\<lparr>db := d1, outbox := outbox s @ [(t, RespCommitMessage msg)], nsent := Suc (nsent s)\<rparr>"
  have ok1: "Db_ok (db s1)" "ids_small (db s1)"
    using preservesD [OF commits_ok(1) ok(1), of ?u m] ok(2) run msg by (auto simp: s1_def ids_small_def)
  have mem: "is_member (db s1) v c = is_member (db s) v c" for v c
    using run msg by (auto simp: s1_def)
  obtain s' where s': "pushMessageToChatMembersExcept E ?c \<lparr>upd_Id = 0, upd_body = MessageSent msg\<rparr> (ui_Id ?u) s1 = (Inr (), s')"
    "db s' = db s1" "outbox s' = outbox s1" "ClientUsers s' = ClientUsers s1"
    "UpdatesCache s' = (\<lambda>v. UpdatesCache s1 v @ (if is_member (db s1) v (ci_Id ?c) \<and> v \<noteq> ui_Id ?u
       then [\<lparr>upd_Id = 0, upd_body = MessageSent msg\<rparr>] else []))"
    using pushMessageToChatMembersExcept_run [OF assms(1) ok1] by blast
  have noslash: "tryHandleSlashCommand E t ?u m ?c s' = (Inr False, s')"
    using assms(10) by (auto simp: tryHandleSlashCommand_def Let_def ret_def)
  have "handleCommitMessage E t m ?u s = (Inr (), s')"
    using assms(7) isUserInChat_run [OF assms(1,2)]
    by (simp add: handleCommitMessage_def requireChat_run findChatById_row [OF ok(1) assms(5,6)] bindM_def
        thenM_def liftdb_run msg ids send_ok assms(9) CreateCommitMessageResponce_def s'(1)
        [unfolded ids s1_def] noslash ret_def)
  then have "processRequest E t (CommitMessage m) s = (Inr (), s')"
    using assms(3,4) by (intro processRequest_Inr) (simp add: checkToken_run union_token_read
        requireUser_logged_in [OF ok(1)])
  moreover have "commitMessage ?u m (db s) = (Inr msg, db s')"
    using msg s'(2) by (simp add: s1_def)
  moreover have "outbox s' = outbox s @ [(t, RespCommitMessage msg)]" "ClientUsers s' = ClientUsers s"
    using s'(3,4) by (simp_all add: s1_def)
  moreover have "UpdatesCache s' = (\<lambda>v. UpdatesCache s v @
       (if is_member (db s) v (cm_ToChat m) \<and> v \<noteq> getUInt (ur_Id ur)
        then [\<lparr>upd_Id = 0, upd_body = MessageSent msg\<rparr>] else []))"
    unfolding s'(5) mem ids by (simp add: s1_def)
  ultimately show ?thesis by (intro exI [of _ msg] exI [of _ s'] conjI)
qed

theorem posted_message_delivered_witness:
  "\<exists>msg s'. processRequest Env_plain 10 (CommitMessage \<lparr>cm_UserToken = 70, cm_Timestamp = 5,
       cm_Content = fs_of MESSAGETEXT_MAXLENGTH ''hi'', cm_ToChat = 1\<rparr>) Server_demo = (Inr (), s') \<and>
     outbox s' = [(10, RespCommitMessage msg)] \<and>
     UpdatesCache s' 3 = [\<lparr>upd_Id = 0, upd_body = MessageSent msg\<rparr>] \<and> UpdatesCache s' 2 = []"
proof -
  let ?m = "\<lparr>cm_UserToken = 70, cm_Timestamp = 5, cm_Content = fs_of MESSAGETEXT_MAXLENGTH ''hi'', cm_ToChat = 1\<rparr>"
  let ?ur = "Users Db_demo ! 1" and ?cr = "Chats Db_demo ! 0"
  have l: "logged_in Server_demo 10 ?ur" by (simp add: logged_in_def Db_demo_def bind_u32_def)
  have k: "cm_UserToken ?m = AccessToken (transports Server_demo 10)" by simp
  have c: "?cr \<in> set (Chats (db Server_demo))" "chr_Id ?cr = bind_u32 (cm_ToChat ?m)"
    by (simp_all add: Db_demo_def bind_u32_def)
  have id: "getUInt (ur_Id ?ur) = 2" by (simp add: Db_demo_def getUInt_def)
  have mem: "is_member (db Server_demo) 2 1" "is_member (db Server_demo) 3 1"
    by (simp_all add: is_member_def Db_demo_def bind_u32_def)
  have sq: "Messages_seq (db Server_demo) < sqlite_max" "send_result Env_plain (nsent Server_demo) = None"
    by (simp_all add: Db_demo_def sqlite_max_def Env_plain_def)
  have "c_str (cm_Content ?m) = ''hi''" by (simp add: MESSAGETEXT_MAXLENGTH_def c_str_fs_of_id NUL_def del: c_str_fs_of)
  then have t: "trimView (c_str (cm_Content ?m)) = [] \<or> hd (trimView (c_str (cm_Content ?m))) \<noteq> CHR ''/''"
    by (simp add: trimView_def strip_def isspace_def del: c_str_fs_of)
  have "is_member (db Server_demo) (getUInt (ur_Id ?ur)) (cm_ToChat ?m)" using mem id by simp
  from posted_message_delivered [OF demo_ok(2,1) l k c this sq t]
  show ?thesis using mem unfolding id by auto
qed

section \<open>Lists of responces\<close>

text \<open>The responces of a list, each with the number of those still to come.\<close>

primrec counted :: "(u32 \<Rightarrow> 'a \<Rightarrow> 'b) \<Rightarrow> u32 \<Rightarrow> 'a list \<Rightarrow> 'b list" where
  "counted f k [] = []"
| "counted f k (x # xs) = f (k - 1) x # counted f (k - 1) xs"

lemma length_counted [simp]: "length (counted f k xs) = length xs"
  by (induction xs arbitrary: k) auto

lemma nth_counted: "i < length xs \<Longrightarrow> counted f k xs ! i = f (k - 1 - of_nat i) (xs ! i)"
proof (induction xs arbitrary: k i)
  case (Cons x xs)
  then show ?case by (cases i) (auto simp: algebra_simps)
qed simp

lemma counted_remaining:
  assumes "i < length xs"
  shows "counted f (of_nat (length xs)) (rev xs) ! i = f (of_nat (length xs - 1 - i)) (xs ! (length xs - 1 - i))"
  using assms by (simp add: nth_counted rev_nth of_nat_diff algebra_simps)

lemma sendLoop_run:
  assumes "\<forall>i<length xs. send_result E (nsent s + i) = None"
    and "\<And>k x s. mk k x s = (Inr (f k x), s)"
  shows "sendLoop E t mk k xs s = (Inr (), s\<lparr>outbox := outbox s @ map (Pair t) (counted f k xs),
     nsent := nsent s + length xs\<rparr>)"
  using assms(1)
proof (induction xs arbitrary: k s)
  case (Cons x xs)
  have "send_result E (nsent s) = None" using Cons.prems by (metis add.right_neutral length_greater_0_conv list.discI)
  moreover have "\<forall>i<length xs. send_result E (Suc (nsent s) + i) = None"
    using Cons.prems by (metis Suc_less_eq add_Suc_shift length_Cons)
  ultimately show ?case
    using Cons.IH [of "s\<lparr>outbox := outbox s @ [(t, f (k - 1) x)], nsent := Suc (nsent s)\<rparr>" "k - 1"]
    by (simp add: bindM_def thenM_def assms(2) send_ok)
qed (simp add: ret_def)

lemma sendReversed_run:
  assumes "\<forall>i<length xs. send_result E (nsent s + i) = None"
    and "\<And>k x s. mk k x s = (Inr (f k x), s)"
  shows "sendReversed E t mk xs s = (Inr (), s\<lparr>outbox := outbox s @
     map (Pair t) (counted f (of_nat (length xs)) (rev xs)), nsent := nsent s + length xs\<rparr>)"
  using sendLoop_run [of "rev xs" E s mk f t] assms by (simp add: sendReversed_def)

section \<open>Updates\<close>

definition updates_answer :: "ServerEnv \<Rightarrow> Update list \<Rightarrow> Responce list" where
  "updates_answer E us = (if us = [] then [RespUpdates (- 1) (dec_Update (sub 4 676 (fresh_union E)))]
     else counted RespUpdates (of_nat (length us)) (rev us))"

lemma GetUpdates_run:
  assumes "Db_ok (db s)" and "logged_in s t ur" and "gu_UserToken q = AccessToken (transports s t)"
    and "gu_DropPending q = 0" and "us = UpdatesCache s (getUInt (ur_Id ur))" and "length us < 2 ^ 32"
    and "\<forall>i\<le>length us. send_result E (nsent s + i) = None"
  shows "\<exists>n. processRequest E t (GetUpdates q) s = (Inr (), s\<lparr>outbox := outbox s @ map (Pair t) (updates_answer E us),
       nsent := n, UpdatesCache := (UpdatesCache s)(getUInt (ur_Id ur) := [])\<rparr>)"
proof -
  have uid: "ui_Id (row_UserInfo ur) = getUInt (ur_Id ur)" by (simp add: row_UserInfo_def)
  have z: "(of_nat (length us) :: u32) = 0 \<longleftrightarrow> us = []"
    using assms(6) by (auto simp: word_of_nat_eq_0_iff dest!: dvd_imp_le)
  have d: "processRequest E t (GetUpdates q) s = (Inr (), s') "
    if "handleGetUpdates E t q (row_UserInfo ur) s = (Inr (), s')" for s'
    using that assms(2,3) by (intro processRequest_Inr)
      (simp add: checkToken_run union_token_read requireUser_logged_in [OF assms(1)])
  have same: "(UpdatesCache s)(getUInt (ur_Id ur) := []) = UpdatesCache s" if "us = []"
    using that assms(5) by (metis fun_upd_triv)
  have "\<exists>n. handleGetUpdates E t q (row_UserInfo ur) s = (Inr (), s\<lparr>outbox := outbox s @
       map (Pair t) (updates_answer E us), nsent := n, UpdatesCache := (UpdatesCache s)(getUInt (ur_Id ur) := [])\<rparr>)"
  proof (cases "us = []")
    case True
    have "send_result E (nsent s) = None" using assms(7) by (metis add_0_right le0)
    then show ?thesis
      using True same assms(4,5) by (auto simp: handleGetUpdates_def bindM_def getsM_def uid send_ok updates_answer_def
          intro!: exI [of _ "Suc (nsent s)"] Server.equality)
  next
    case False
    then show ?thesis
      using assms(4,5,7) z sendReversed_run [of us E s "\<lambda>k u. ret (RespUpdates k u)" RespUpdates t]
      by (auto simp: handleGetUpdates_def bindM_def getsM_def uid thenM_def ret_def clearUpdates_def modifyM_def
          updates_answer_def)
  qed
  then show ?thesis using d by blast
qed

text \<open>
  C20. \<open>GetUpdates\<close> sends every waiting update exactly once, the newest first, each with the number of
  those still to come, and empties the queue; an empty queue is answered with \<open>-1\<close>; nothing else
  changes.
\<close>

theorem updates_drained:
  assumes "Db_ok (db s)" and "logged_in s t ur" and "gu_UserToken q = AccessToken (transports s t)"
    and "gu_DropPending q = 0" and "us = UpdatesCache s (getUInt (ur_Id ur))" and "length us < 2 ^ 32"
    and "\<forall>i\<le>length us. send_result E (nsent s + i) = None"
  shows "\<exists>rs n. processRequest E t (GetUpdates q) s = (Inr (), s\<lparr>outbox := outbox s @ map (Pair t) rs,
       nsent := n, UpdatesCache := (UpdatesCache s)(getUInt (ur_Id ur) := [])\<rparr>) \<and>
     (us = [] \<longrightarrow> (\<exists>u. rs = [RespUpdates (- 1) u])) \<and>
     (us \<noteq> [] \<longrightarrow> length rs = length us \<and> (\<forall>i<length us.
        rs ! i = RespUpdates (of_nat (length us - 1 - i)) (us ! (length us - 1 - i))))"
  using GetUpdates_run [OF assms] counted_remaining [of _ us RespUpdates]
  by (intro exI [of _ "updates_answer E us"]) (auto simp: updates_answer_def)

theorem updates_drained_witness:
  "\<exists>rs n. processRequest Env_plain 10 (GetUpdates \<lparr>gu_UserToken = 70, gu_DropPending = 0, gu_Reserved = [0, 0, 0]\<rparr>)
       (snd (pushGlobalAlert 9 ''x'' Server_demo)) =
     (Inr (), (snd (pushGlobalAlert 9 ''x'' Server_demo))\<lparr>outbox := map (Pair 10) rs, nsent := n,
        UpdatesCache := (\<lambda>_. [])\<rparr>) \<and> rs ! 0 = RespUpdates 0 (global_alert 9 ''x'')"
proof -
  let ?s = "snd (pushGlobalAlert 9 ''x'' Server_demo)" and ?ur = "Users Db_demo ! 1"
  let ?q = "\<lparr>gu_UserToken = 70, gu_DropPending = 0, gu_Reserved = [0, 0, 0]\<rparr>"
  have s: "?s = Server_demo\<lparr>UpdatesCache := (\<lambda>_. [])(2 := [global_alert 9 ''x''])\<rparr>"
    by (simp add: pushGlobalAlert_def monad_defs pushUpdateToUser_def) (simp add: Server_demo_def)
  have id: "getUInt (ur_Id ?ur) = 2" by (simp add: Db_demo_def getUInt_def)
  have ok: "Db_ok (db ?s)" unfolding s by (simp add: Db_demo_ok)
  have p: "logged_in ?s 10 ?ur" "gu_UserToken ?q = AccessToken (transports ?s 10)"
    "gu_DropPending ?q = 0" "[global_alert 9 ''x''] = UpdatesCache ?s (getUInt (ur_Id ?ur))"
    "length [global_alert 9 ''x''] < 2 ^ 32"
    "\<forall>i\<le>length [global_alert 9 ''x'']. send_result Env_plain (nsent ?s + i) = None"
    unfolding s id by (simp_all add: logged_in_def Db_demo_def bind_u32_def Env_plain_def)
  have e: "(UpdatesCache ?s)(2 := []) = (\<lambda>_. [])" "outbox ?s = []" unfolding s by (auto simp: Server_demo_def)
  from updates_drained [OF ok p] obtain rs n where r:
    "processRequest Env_plain 10 (GetUpdates ?q) ?s = (Inr (), ?s\<lparr>outbox := outbox ?s @ map (Pair 10) rs,
       nsent := n, UpdatesCache := (UpdatesCache ?s)(getUInt (ur_Id ?ur) := [])\<rparr>)"
    "rs ! 0 = RespUpdates 0 (global_alert 9 ''x'')"
    by auto
  show ?thesis using r unfolding id e by auto
qed

section \<open>History\<close>


text \<open>A chat of bob's that ann is not in, with one message.\<close>

definition Db_talk :: Db where
  "Db_talk = Db_demo\<lparr>Users_has_Chats := [(3, 1)], Messages := [\<lparr>mr_Id = 1, mr_ChatId = 1, mr_SenderId = 3,
     mr_Timestamp = 5, mr_Text = ''secret''\<rparr>], Messages_seq := 1\<rparr>"

lemma Db_talk_ok: "Db_ok Db_talk" "ids_small Db_talk"
  by (simp_all add: Db_ok_def table_ok_defs Db_talk_def Db_demo_def user_exists_def chat_exists_def ids_small_def)


end
