(* ===== verification/Races.thy ===== *)
theory Races
  imports Backend_Chat
begin

text \<open>
  The handler of \<open>GetUpdates\<close> (\<open>TeleCrap.Server/src/Backend.cpp\<close>) gives up the lock of the queue
  between copying it and clearing it, so that another client's thread can push in between.
\<close>

section \<open>The handler in two steps\<close>

definition getUpdates_copy :: "UserInfo \<Rightarrow> Update list srvM" where
  "getUpdates_copy requestor = getsM (\<lambda>s. UpdatesCache s (ui_Id requestor))"

definition getUpdates_send :: "ServerEnv \<Rightarrow> transport \<Rightarrow> UserInfo \<Rightarrow> Update list \<Rightarrow> unit srvM" where
  "getUpdates_send E t requestor updates =
     (if (of_nat (length updates) :: u32) = 0
      then SendResponce E t (RespUpdates (- 1) (dec_Update (sub 4 676 (fresh_union E))))
      else thenM (sendReversed E t (\<lambda>remaining u. ret (RespUpdates remaining u)) updates) (clearUpdates (ui_Id requestor)))"

lemma handleGetUpdates_steps:
  "gu_DropPending q = 0 \<Longrightarrow> handleGetUpdates E t q requestor = bindM (getUpdates_copy requestor) (getUpdates_send E t requestor)"
  by (simp add: handleGetUpdates_def getUpdates_copy_def getUpdates_send_def fun_eq_iff bindM_def getsM_def)

text \<open>
  An update pushed between the two steps of a request that has something to send is lost: it leaves
  the queue and is in no responce.
\<close>

lemma counted_updates: "RespUpdates k u \<in> set (counted RespUpdates n us) \<Longrightarrow> u \<in> set us"
  by (induction us arbitrary: n) auto

theorem update_lost:
  assumes "getUpdates_copy requestor s = (Inr us, s1)" and "us \<noteq> []" and "length us < 2 ^ 32" and "u \<notin> set us"
    and "pushUpdateToUser (ui_Id requestor) u s1 = (Inr (), s2)"
    and "\<forall>i<length us. send_result E (nsent s + i) = None"
  shows "\<exists>rs s3. getUpdates_send E t requestor us s2 = (Inr (), s3) \<and> UpdatesCache s3 (ui_Id requestor) = [] \<and>
     outbox s3 = outbox s @ rs \<and> (\<forall>k. (t, RespUpdates k u) \<notin> set rs)"
proof -
  have z: "(of_nat (length us) :: u32) \<noteq> 0"
    using assms(2,3) by (auto simp: word_of_nat_eq_0_iff dest!: dvd_imp_le)
  have s2: "outbox s2 = outbox s" "nsent s2 = nsent s"
    using assms(1,5) by (auto simp: getUpdates_copy_def getsM_def pushUpdateToUser_def modifyM_def)
  let ?rs = "map (Pair t) (counted RespUpdates (of_nat (length us)) (rev us))"
  have "sendReversed E t (\<lambda>remaining u. ret (RespUpdates remaining u)) us s2 =
      (Inr (), s2\<lparr>outbox := outbox s2 @ ?rs, nsent := nsent s2 + length us\<rparr>)"
    using assms(6) s2(2) by (intro sendReversed_run) (auto simp: ret_def)
  moreover have "\<forall>k. (t, RespUpdates k u) \<notin> set ?rs" using assms(4) counted_updates [of _ u] by fastforce
  ultimately show ?thesis using z s2
    by (simp add: getUpdates_send_def thenM_def bindM_def clearUpdates_def modifyM_def)
qed

end
