(* ===== verification/ServerMain.thy ===== *)
theory ServerMain
  imports Backend_Laws
begin

text \<open>
  \<open>TeleCrap.Server/src/TeleCrap.Server.cpp\<close>, the threads of the server: the listener for handshakes,
  one thread for each client, and the operator at the console, interleaved at the calls they make of
  \<open>Backend\<close>. Each such call is one step, as the locks inside make it.
\<close>

section \<open>Where each thread is\<close>

datatype listener_pc = Deciding | Accepting | Spawned transport | Ended

datatype client_pc = Looping | Reading | Leaving | Removed

record Process =
  backend :: Server
  listener :: listener_pc
  clients :: "transport \<rightharpoonup> client_pc"
  allocated :: "transport set"

text \<open>
  \<open>Accepted\<close> is the return of \<open>ListenHandshake\<close> with a transport just allocated and the start of its
  thread; \<open>Received\<close> the return of \<open>GetRequest\<close>. An address may be used again after its \<open>delete\<close>.
\<close>

datatype srv_event =
    ListenerLoops
  | Accepted transport TransportInfo
  | AcceptFailed exn
  | Registered
  | ClientLoops transport
  | Received transport "exn + Request"
  | Removes transport
  | Deletes transport
  | OperatorLists
  | OperatorDrops u16
  | OperatorAlerts timestamp_t cstring
  | OperatorHalts

definition listenHandshakeLoop :: "srv_event \<Rightarrow> Process \<Rightarrow> (exn + Process) option" where
  "listenHandshakeLoop e p =
     (case (e, listener p) of
        (ListenerLoops, Deciding) \<Rightarrow> Some (Inr (if IsActive (backend p) then p\<lparr>listener := Accepting\<rparr>
          else p\<lparr>backend := snd (stop (backend p)), listener := Ended\<rparr>))
      | (Accepted t info, Accepting) \<Rightarrow>
          (if t \<in> allocated p then None
           else Some (Inr (p\<lparr>backend := (backend p)\<lparr>transports := (transports (backend p))(t := info)\<rparr>,
             allocated := insert t (allocated p), clients := (clients p)(t \<mapsto> Looping), listener := Spawned t\<rparr>)))
      | (AcceptFailed x, Accepting) \<Rightarrow>
          Some (if is_runtime_error x then Inr (p\<lparr>listener := Deciding\<rparr>) else Inl x)
      | (Registered, Spawned t) \<Rightarrow>
          Some (Inr (p\<lparr>backend := snd (addClientSocket t (backend p)), listener := Deciding\<rparr>))
      | _ \<Rightarrow> None)"

text \<open>
  The handler of a login reads the socket of the connection the account is logged in on, if there is
  one: \<open>login_reads\<close> is that transport.
\<close>

definition login_reads :: "Request \<Rightarrow> Server \<Rightarrow> transport option" where
  "login_reads r s = (case r of
     Login a \<Rightarrow> (case fst (liftdb (findUserByName (auth_Username a)) s) of
       Inr (Some u) \<Rightarrow> map_option fst (List.find (\<lambda>e. snd e = ui_Id u) (ClientUsers s))
     | _ \<Rightarrow> None)
   | _ \<Rightarrow> None)"

definition serveClient :: "ServerEnv \<Rightarrow> transport \<Rightarrow> exn + Request \<Rightarrow> Process \<Rightarrow> exn + Process" where
  "serveClient E t x p =
     (case x of
        Inl _ \<Rightarrow> Inr (p\<lparr>clients := (clients p)(t \<mapsto> Leaving)\<rparr>)
      | Inr request \<Rightarrow>
          (if (case login_reads request (backend p) of None \<Rightarrow> False | Some t' \<Rightarrow> t' \<notin> allocated p)
           then Inl undefined_behaviour
           else case processRequest E t request (backend p) of
             (Inr _, s) \<Rightarrow> Inr (p\<lparr>backend := s, clients := (clients p)(t \<mapsto> Looping)\<rparr>)
           | (Inl e, s) \<Rightarrow> (if e = undefined_behaviour then Inl e
               else Inr (p\<lparr>backend := s, clients := (clients p)(t \<mapsto> Leaving)\<rparr>))))"

definition listenClientLoop :: "ServerEnv \<Rightarrow> srv_event \<Rightarrow> Process \<Rightarrow> (exn + Process) option" where
  "listenClientLoop E e p =
     (case e of
        ClientLoops t \<Rightarrow> (if clients p t = Some Looping
          then Some (Inr (p\<lparr>clients := (clients p)(t \<mapsto> if IsActive (backend p) then Reading else Leaving)\<rparr>)) else None)
      | Received t x \<Rightarrow> (if clients p t = Some Reading then Some (serveClient E t x p) else None)
      | Removes t \<Rightarrow> (if clients p t = Some Leaving
          then Some (Inr (p\<lparr>backend := snd (removeClientSocket t (backend p)), clients := (clients p)(t \<mapsto> Removed)\<rparr>)) else None)
      | Deletes t \<Rightarrow> (if clients p t = Some Removed
          then Some (Inr (p\<lparr>clients := (clients p)(t := None), allocated := allocated p - {t}\<rparr>)) else None)
      | _ \<Rightarrow> None)"

text \<open>
  The commands of the console that reach the connections. A list reads every registered transport, a
  drop those up to the first with the port.
\<close>

definition operator :: "srv_event \<Rightarrow> Process \<Rightarrow> (exn + Process) option" where
  "operator e p =
     (case e of
        OperatorLists \<Rightarrow> Some (if list_all (\<lambda>t. t \<in> allocated p) (ClientSockets (backend p)) then Inr p
          else Inl undefined_behaviour)
      | OperatorDrops port \<Rightarrow>
          Some (if list_all (\<lambda>t. t \<in> allocated p)
              (takeWhile (\<lambda>t. \<not> (t \<in> allocated p \<and> PeerPort (transports (backend p) t) = port)) (ClientSockets (backend p)))
            then Inr (p\<lparr>backend := snd (dropConnectionByPeerPort port (backend p))\<rparr>) else Inl undefined_behaviour)
      | OperatorAlerts now text \<Rightarrow> Some (Inr (p\<lparr>backend := snd (pushGlobalAlert now text (backend p))\<rparr>))
      | OperatorHalts \<Rightarrow> Some (Inr (p\<lparr>backend := snd (stop (backend p))\<rparr>))
      | _ \<Rightarrow> None)"

definition srv_step :: "ServerEnv \<Rightarrow> srv_event \<Rightarrow> Process \<Rightarrow> (exn + Process) option" where
  "srv_step E e p = (case listenHandshakeLoop e p of Some r \<Rightarrow> Some r
     | None \<Rightarrow> (case listenClientLoop E e p of Some r \<Rightarrow> Some r | None \<Rightarrow> operator e p))"

text \<open>
  A run is orderly if no client's thread deregisters its transport while the listener, which started
  that thread first, has yet to register it.
\<close>

definition registered_first :: "srv_event \<Rightarrow> Process \<Rightarrow> bool" where
  "registered_first e p \<longleftrightarrow> (case e of Removes t \<Rightarrow> listener p \<noteq> Spawned t | _ \<Rightarrow> True)"

inductive srv_reaches :: "ServerEnv \<Rightarrow> bool \<Rightarrow> Process \<Rightarrow> Process \<Rightarrow> bool" for E orderly p0 where
  init: "srv_reaches E orderly p0 p0"
| event: "srv_reaches E orderly p0 p \<Longrightarrow> srv_step E e p = Some (Inr p') \<Longrightarrow> orderly \<longrightarrow> registered_first e p \<Longrightarrow>
     srv_reaches E orderly p0 p'"

text \<open>\<open>Backend::start\<close> has run, nobody is connected, the listener is about to enter its loop.\<close>

definition srv_start :: "Server \<Rightarrow> Process" where
  "srv_start s = \<lparr>backend = (snd (start s))\<lparr>ClientSockets := [], ClientUsers := []\<rparr>, listener = Deciding, clients = Map.empty,
     allocated = {}\<rparr>"

section \<open>What a request does to the connections\<close>

lemma helpers_keep_sockets [frames]:
  "keeps ClientSockets (stateSet k v)" "keeps ClientSockets (stateGet k)" "keeps ClientSockets (stateHas k)"
  "keeps ClientSockets (stateDel k)" "keeps ClientSockets stateClear" "keeps ClientSockets (stateKeys E)"
  "keeps ClientSockets (assignUserInfo t u)" "keeps ClientSockets (designUserInfo t)"
  "keeps ClientSockets (pushUpdateToUser u x)" "keeps ClientSockets (clearUpdates u)"
  unfolding stateSet_def stateGet_def stateHas_def stateDel_def stateClear_def stateKeys_def
    assignUserInfo_def designUserInfo_def pushUpdateToUser_def clearUpdates_def
  by (intro frames keeps_modifyM; simp)+

lemma pushes_keep_sockets [frames]:
  "keeps ClientSockets (pushUpdateToChatMembersAll E c u)" "keeps ClientSockets (pushMessageToChatMembersExcept E c u x)"
  "keeps ClientSockets (pushToIdsExcept i u xs)"
  unfolding pushUpdateToChatMembersAll_def pushMessageToChatMembersExcept_def pushToIdsExcept_def by (intro frames)+

lemma api_keeps_sockets [frames]: "keeps ClientSockets (api E c)"
  by (cases c; simp only: api.simps api_defs; intro frames)

lemma ExecuteCommand_keeps_sockets [frames]: "keeps ClientSockets (ExecuteCommand E cmd args t r u c)"
  unfolding ExecuteCommand_def by (intro frames run_addon_keeps; simp add: frames)

lemma queries_keep_sockets [frames]:
  "(\<And>n x. keeps ClientSockets (mk n x)) \<Longrightarrow> keeps ClientSockets (sendReversed E t mk xs)"
  "keeps ClientSockets (stoulM x)" "keeps ClientSockets ListRegisteredCommands"
  "keeps ClientSockets (isUserInChat E u c)"
  "(\<And>u. keeps ClientSockets (k u)) \<Longrightarrow> keeps ClientSockets (requireUser E t code k)"
  "(\<And>c. keeps ClientSockets (g c)) \<Longrightarrow> keeps ClientSockets (requireChat E t ci msg g)"
  "keeps ClientSockets m \<Longrightarrow> keeps ClientSockets (checkToken E t tok code m)"
  unfolding sendReversed_def stoulM_def ListRegisteredCommands_def isUserInChat_def requireUser_def
    requireChat_def checkToken_def
  by (intro frames sendLoop_keeps; assumption?)+ (cases "stoul x"; simp add: frames; fail)+

lemma lookups_keep_sockets [frames]:
  "keeps ClientSockets (resolveUserToken tok)" "keeps ClientSockets (openDirectChat u v)" "keeps ClientSockets (listedChat u c)"
  unfolding resolveUserToken_def openDirectChat_def listedChat_def Let_def by (intro frames)+

lemma query_keeps_sockets [frames]: "keeps ClientSockets (findChatByQuery E u q)"
  unfolding findChatByQuery_def by (intro frames)

lemma slash_keeps_sockets [frames]:
  "keeps ClientSockets (slashRename E t u r c x)" "keeps ClientSockets (slashUnban E t u r c v)"
  "keeps ClientSockets (slashKick E t u r c v)" "keeps ClientSockets (slashBan E t u r c v)"
  "(\<And>u. keeps ClientSockets (k u)) \<Longrightarrow> keeps ClientSockets (slashTarget E t x k)"
  unfolding slashRename_def slashUnban_def slashKick_def slashBan_def slashTarget_def
  by (intro frames; assumption?)+

lemma command_keeps_sockets [frames]: "keeps ClientSockets (tryHandleSlashCommand E t u r c)"
  unfolding tryHandleSlashCommand_def Let_def by (intro frames)

lemma handlers_keep_sockets [frames]:
  "keeps ClientSockets (handleGetUpdates E t gu u)" "keeps ClientSockets (handleGetChatInfo E t q u)"
  "keeps ClientSockets (handleGetChatHistory E t q')" "keeps ClientSockets (handleGetChatMembers E t q' u)"
  "keeps ClientSockets (handleGetChatList E t u)" "keeps ClientSockets (handleGetAddonCommands E t)"
  "keeps ClientSockets (handleSpawnGroupChat E t q u)" "keeps ClientSockets (handleJoinGroupChat E t q u)"
  "keeps ClientSockets (handleCommitMessage E t m u)" "keeps ClientSockets (handleLogin E t a)"
  "keeps ClientSockets (handleRegister E t a)"
  unfolding handleGetUpdates_def handleGetChatInfo_def handleGetChatHistory_def handleGetChatMembers_def
    handleGetChatList_def handleGetAddonCommands_def handleSpawnGroupChat_def handleJoinGroupChat_def
    handleCommitMessage_def handleLogin_def handleRegister_def Let_def
  by (intro frames)+

lemma processRequest_keeps_sockets: "keeps ClientSockets (processRequest E t r)"
  unfolding processRequest_def by (intro frames) (cases r; simp; intro frames)

text \<open>The connections that somebody is logged in on.\<close>

definition logged_on :: "Server \<Rightarrow> transport set" where
  "logged_on s = fst ` set (ClientUsers s)"

lemma processRequest_logged_on: "logged_on (snd (processRequest E t r s)) \<subseteq> insert t (logged_on s)"
proof (cases "is_auth r")
  case False
  then show ?thesis using keepsD [OF processRequest_keeps_sessions [OF False], of E t s] by (auto simp: logged_on_def)
next
  case True
  let ?I = "\<lambda>s'. logged_on s' \<subseteq> insert t (logged_on s)"
  have frame: "preserves ?I m" if "keeps ClientUsers m" for m :: "'a srvM"
    unfolding logged_on_def using keeps_preserves [OF that, of "\<lambda>us. fst ` set us \<subseteq> insert t (fst ` set (ClientUsers s))"] .
  have put: "preserves ?I (assignUserInfo t u)" for u
    using set_omap_put [of t u] unfolding assignUserInfo_def logged_on_def
    by (intro preserves_modifyM) simp
  have erase: "preserves ?I (designUserInfo t)"
    unfolding designUserInfo_def logged_on_def omap_erase_def
    by (rule preserves_modifyM) (simp, blast)
  have "preserves ?I (processRequest E t r)"
    using True unfolding processRequest_def
    by (cases r) (auto simp: handleLogin_def handleRegister_def checkToken_def intro!: pres put erase SendResponce_keeps(2) [THEN frame]
        SendError_keeps(2) [THEN frame] liftdb_keeps(3) [THEN frame] find_keeps [THEN frame])
  then show ?thesis by (rule preservesD) auto
qed

section \<open>The invariants\<close>

definition running :: "Process \<Rightarrow> transport set" where
  "running p = {t. clients p t \<in> {Some Looping, Some Reading, Some Leaving}}"

definition live_ok :: "Process \<Rightarrow> bool" where
  "live_ok p \<longleftrightarrow> (\<forall>t. clients p t \<noteq> None \<longrightarrow> t \<in> allocated p) \<and> logged_on (backend p) \<subseteq> running p \<and> Db_ok (db (backend p))"

definition listed_ok :: "Process \<Rightarrow> bool" where
  "listed_ok p \<longleftrightarrow> set (ClientSockets (backend p)) \<subseteq> running p \<and> (\<forall>t. listener p = Spawned t \<longrightarrow> t \<in> running p)"

lemma running_allocated: "live_ok p \<Longrightarrow> running p \<subseteq> allocated p"
  by (auto simp: live_ok_def running_def)

lemma running_upd: "running (p\<lparr>clients := (clients p)(t \<mapsto> k)\<rparr>) = (if k = Removed then running p - {t} else insert t (running p))"
  "running (p\<lparr>clients := (clients p)(t := None)\<rparr>) = running p - {t}"
  by (cases k; auto simp: running_def)+

lemma running_other: "running (p\<lparr>backend := s\<rparr>) = running p" "running (p\<lparr>listener := l\<rparr>) = running p"
  "running (p\<lparr>allocated := a\<rparr>) = running p"
  by (simp_all add: running_def)

lemma session_runs:
  "logged_on (snd (removeClientSocket t s)) = logged_on s - {t}" "set (ClientSockets (snd (removeClientSocket t s))) = set (ClientSockets s) - {t}"
  "ClientSockets (snd (addClientSocket t s)) = ClientSockets s @ [t]" "logged_on (snd (addClientSocket t s)) = logged_on s"
  "db (snd (removeClientSocket t s)) = db s" "db (snd (addClientSocket t s)) = db s"
  "ClientUsers (snd (addClientSocket t s)) = ClientUsers s"
  by (auto simp: removeClientSocket_def addClientSocket_def modifyM_def logged_on_def omap_erase_def)

lemma operator_runs [frames]:
  "keeps ClientSockets (dropConnectionByPeerPort port)" "keeps ClientSockets (pushGlobalAlert now text)" "keeps ClientSockets stop"
  "keeps ClientUsers (dropConnectionByPeerPort port)" "keeps ClientUsers (pushGlobalAlert now text)" "keeps ClientUsers stop"
  "keeps db (dropConnectionByPeerPort port)" "keeps db (pushGlobalAlert now text)" "keeps db stop"
  unfolding dropConnectionByPeerPort_def pushGlobalAlert_def stop_def
  by (intro frames keeps_modifyM; simp)+

lemmas operator_keeps = operator_runs [THEN keepsD]

lemma serveClient_cases:
  assumes "serveClient E t x p = Inr p'"
  obtains s k where "p' = p\<lparr>backend := s, clients := (clients p)(t \<mapsto> k)\<rparr>" and "k = Looping \<or> k = Leaving"
    and "s = backend p \<or> (\<exists>r. s = snd (processRequest E t r (backend p)))"
proof (cases x)
  case (Inl e)
  then show ?thesis using assms that [of Leaving "backend p"] by (simp add: serveClient_def)
next
  case (Inr r)
  obtain a s where a: "processRequest E t r (backend p) = (a, s)" by fastforce
  then have "p' = p\<lparr>backend := s, clients := (clients p)(t \<mapsto> Looping)\<rparr> \<or> p' = p\<lparr>backend := s, clients := (clients p)(t \<mapsto> Leaving)\<rparr>"
    using assms Inr by (auto simp: serveClient_def split: sum.splits if_splits option.splits)
  then show ?thesis using that a by (metis snd_conv)
qed

lemma live_same:
  "live_ok p \<Longrightarrow> ClientUsers (backend p') = ClientUsers (backend p) \<Longrightarrow> db (backend p') = db (backend p) \<Longrightarrow>
   clients p' = clients p \<Longrightarrow> allocated p' = allocated p \<Longrightarrow> live_ok p'"
  by (simp add: live_ok_def running_def logged_on_def)

lemma listener_live:
  assumes "live_ok p" and "listenHandshakeLoop e p = Some (Inr p')"
  shows "live_ok p'"
proof (cases "\<exists>t info. e = Accepted t info")
  case True
  then show ?thesis
    using assms by (force simp: listenHandshakeLoop_def live_ok_def running_def logged_on_def split: listener_pc.splits if_splits)
next
  case False
  then show ?thesis
    using assms(2) by (auto simp: listenHandshakeLoop_def session_runs operator_keeps intro!: live_same [OF assms(1)]
        split: srv_event.splits listener_pc.splits if_splits)
qed

lemma client_live:
  assumes "live_ok p" and "listenClientLoop E e p = Some (Inr p')"
  shows "live_ok p'"
proof (cases "\<exists>t x. e = Received t x")
  case True
  then obtain t x where e: "e = Received t x" by blast
  then have t: "clients p t = Some Reading" and x: "serveClient E t x p = Inr p'"
    using assms(2) by (auto simp: listenClientLoop_def split: if_splits)
  obtain s k where p': "p' = p\<lparr>backend := s, clients := (clients p)(t \<mapsto> k)\<rparr>" "k = Looping \<or> k = Leaving"
    "s = backend p \<or> (\<exists>r. s = snd (processRequest E t r (backend p)))"
    using serveClient_cases [OF x] by blast
  have "Db_ok (db s)"
    using p'(3) assms(1) preservesD [OF tables.processRequest_table_inv, of "backend p"] by (auto simp: live_ok_def)
  moreover have "logged_on s \<subseteq> insert t (logged_on (backend p))"
    using p'(3) processRequest_logged_on [of E t _ "backend p"] by blast
  ultimately show ?thesis using assms(1) t p'(1,2) by (auto simp: live_ok_def running_def)
next
  case False
  then show ?thesis
    using assms
    by (auto simp: listenClientLoop_def live_ok_def running_def session_runs split: srv_event.splits if_splits)
qed

lemma operator_live:
  assumes "live_ok p" and "operator e p = Some (Inr p')"
  shows "live_ok p'"
  using assms(2)
  by (auto simp: operator_def operator_keeps intro!: live_same [OF assms(1)] split: srv_event.splits if_splits)

lemma srv_step_cases:
  assumes "srv_step E e p = Some r"
  obtains "listenHandshakeLoop e p = Some r" | "listenClientLoop E e p = Some r" | "operator e p = Some r"
  using assms by (auto simp: srv_step_def split: option.splits)

lemma srv_step_live: "live_ok p \<Longrightarrow> srv_step E e p = Some (Inr p') \<Longrightarrow> live_ok p'"
  by (erule srv_step_cases) (blast intro: listener_live client_live operator_live)+

lemma running_same: "clients p' = clients p \<Longrightarrow> running p' = running p"
  by (simp add: running_def)

lemma listed_same:
  "listed_ok p \<Longrightarrow> ClientSockets (backend p') = ClientSockets (backend p) \<Longrightarrow> clients p' = clients p \<Longrightarrow>
   listener p' = listener p \<or> (\<forall>t. listener p' \<noteq> Spawned t) \<Longrightarrow> listed_ok p'"
  by (auto simp: listed_ok_def running_def)

lemma srv_step_listed:
  assumes "listed_ok p" and "srv_step E e p = Some (Inr p')" and "registered_first e p"
  shows "listed_ok p'"
  using assms(2)
proof (cases rule: srv_step_cases)
  case 1
  then show ?thesis
  proof (cases e)
    case (Accepted t info)
    then have "listed_ok p'" using 1 assms(1)
      by (auto simp: listenHandshakeLoop_def listed_ok_def running_def split: listener_pc.splits if_splits)
    then show ?thesis .
  next
    case Registered
    then show ?thesis using 1 assms(1)
      by (auto simp: listenHandshakeLoop_def listed_ok_def running_def session_runs split: listener_pc.splits)
  qed (auto simp: listenHandshakeLoop_def operator_keeps intro!: listed_same [OF assms(1)] split: listener_pc.splits if_splits)
next
  case 2
  then show ?thesis
  proof (cases e)
    case (Received t x)
    then have t: "clients p t = Some Reading" and x: "serveClient E t x p = Inr p'"
      using 2 by (auto simp: listenClientLoop_def split: if_splits)
    obtain s k where p': "p' = p\<lparr>backend := s, clients := (clients p)(t \<mapsto> k)\<rparr>" "k = Looping \<or> k = Leaving"
      "s = backend p \<or> (\<exists>r. s = snd (processRequest E t r (backend p)))"
      using serveClient_cases [OF x] by blast
    have "ClientSockets s = ClientSockets (backend p)"
      using p'(3) keepsD [OF processRequest_keeps_sockets] by auto
    then show ?thesis using assms(1) t p'(1,2) by (auto simp: listed_ok_def running_def)
  qed (use assms(1,3) in \<open>auto simp: listenClientLoop_def listed_ok_def running_def session_runs registered_first_def split: if_splits\<close>)
next
  case 3
  then show ?thesis
    by (auto simp: operator_def operator_keeps intro!: listed_same [OF assms(1)] split: srv_event.splits if_splits)
qed

lemma srv_start_ok: "Db_ok (db s) \<Longrightarrow> live_ok (srv_start s)" "listed_ok (srv_start s)"
  by (simp_all add: live_ok_def listed_ok_def srv_start_def running_def logged_on_def start_def modifyM_def)

lemma login_reads_logged_on: "login_reads r s = Some t \<Longrightarrow> t \<in> logged_on s"
  by (force simp: login_reads_def logged_on_def dest!: find_SomeD split: Request.splits sum.splits option.splits)


text \<open>
  Nothing makes a run orderly. The listener starts the thread first: a client gone before it is
  registered leaves a registered transport that is deleted, and the next \<open>/list-onlines\<close> reads it.
\<close>

fun srv_run :: "ServerEnv \<Rightarrow> srv_event list \<Rightarrow> Process \<Rightarrow> Process option" where
  "srv_run E [] p = Some p"
| "srv_run E (e # es) p = (case srv_step E e p of Some (Inr p') \<Rightarrow> srv_run E es p' | _ \<Rightarrow> None)"

lemma srv_run_reaches: "srv_run E es p = Some p' \<Longrightarrow> srv_reaches E False p0 p \<Longrightarrow> srv_reaches E False p0 p'"
proof (induction es arbitrary: p)
  case (Cons e es)
  then show ?case using srv_reaches.event [of E False p0 p e] by (auto split: option.splits sum.splits)
qed simp

theorem ghost_connection:
  "\<exists>p. srv_reaches E False (srv_start s) p \<and> t \<in> set (ClientSockets (backend p)) \<and> t \<notin> allocated p \<and>
     srv_step E OperatorLists p = Some (Inl undefined_behaviour)"
proof -
  let ?es = "[ListenerLoops, Accepted t info, ClientLoops t, Received t (Inl disconnected_error), Removes t, Deletes t, Registered]"
  obtain p where p: "srv_run E ?es (srv_start s) = Some p" "ClientSockets (backend p) = [t]" "allocated p = {}"
    by (simp add: srv_start_def srv_step_def listenHandshakeLoop_def listenClientLoop_def operator_def serveClient_def
        start_def modifyM_def removeClientSocket_def addClientSocket_def)
  have "srv_reaches E False (srv_start s) p" using srv_run_reaches [OF p(1) srv_reaches.init] .
  then show ?thesis using p(2,3)
    by (intro exI [of _ p]) (simp add: srv_step_def listenHandshakeLoop_def listenClientLoop_def operator_def)
qed


end
