(* ===== verification/Utf8.thy ===== *)
theory Utf8
  imports Prelude
begin

unbundle bit_operations_syntax

text \<open>
  The UTF-8 helpers of the two consoles (\<open>TeleCrap.Client/src/TerminalUI.cpp\<close>,
  \<open>TeleCrap.Server/src/ServerCLI.cpp\<close>), which work on bytes, against the encoding of code points.
\<close>

section \<open>The helpers\<close>

definition continuation :: "char \<Rightarrow> bool" where
  "continuation c \<longleftrightarrow> byte_of c AND 0xC0 = 0x80"

primrec cutDown :: "cstring \<Rightarrow> nat \<Rightarrow> nat" where
  "cutDown s 0 = 0"
| "cutDown s (Suc cutPosition) = (if continuation (s ! Suc cutPosition) then cutDown s cutPosition else Suc cutPosition)"

definition truncateUtf8StringByBytes :: "cstring \<Rightarrow> nat \<Rightarrow> cstring" where
  "truncateUtf8StringByBytes originalString maxAllowedBytes =
     (if length originalString \<le> maxAllowedBytes then originalString
      else if maxAllowedBytes \<le> 3 then ''...''
      else take (cutDown originalString (maxAllowedBytes - 3)) originalString @ ''...'')"

definition byteAdvanceAmount :: "char \<Rightarrow> nat" where
  "byteAdvanceAmount c = (let currentByte = byte_of c in
     if currentByte < 0x80 then 1
     else if currentByte AND 0xE0 = 0xC0 then 2
     else if currentByte AND 0xF0 = 0xE0 then 3
     else if currentByte AND 0xF8 = 0xF0 then 4
     else 1)"

lemma byteAdvanceAmount_pos [simp]: "0 < byteAdvanceAmount c"
  by (simp add: byteAdvanceAmount_def Let_def)

function countLoop :: "cstring \<Rightarrow> nat \<Rightarrow> nat \<Rightarrow> nat" where
  "countLoop targetString byteIndex codepointCount =
     (if \<not> byteIndex < length targetString then codepointCount
      else let advance = byteAdvanceAmount (targetString ! byteIndex) in
        if byteIndex + advance > length targetString then codepointCount
        else countLoop targetString (byteIndex + advance) (Suc codepointCount))"
  by pat_completeness auto
termination
  by (relation "measure (\<lambda>(s, i, n). length s - i)") (auto simp: Let_def intro: diff_less_mono2)

definition countUtf8Codepoints :: "cstring \<Rightarrow> nat" where
  "countUtf8Codepoints targetString = countLoop targetString 0 0"

function extractLoop :: "cstring \<Rightarrow> nat \<Rightarrow> nat \<Rightarrow> nat \<Rightarrow> nat \<Rightarrow> nat" where
  "extractLoop originalString maxCodepoints byteIndex codepointCount endByteIndex =
     (if \<not> (byteIndex < length originalString \<and> codepointCount < maxCodepoints) then endByteIndex
      else let advance = byteAdvanceAmount (originalString ! byteIndex) in
        if byteIndex + advance > length originalString then endByteIndex
        else extractLoop originalString maxCodepoints (byteIndex + advance) (Suc codepointCount) (byteIndex + advance))"
  by pat_completeness auto
termination
  by (relation "measure (\<lambda>(s, m, i, n, e). length s - i)") (auto simp: Let_def intro: diff_less_mono2)

declare countLoop.simps [simp del] extractLoop.simps [simp del]

definition extractMaxUtf8Codepoints :: "cstring \<Rightarrow> nat \<Rightarrow> cstring" where
  "extractMaxUtf8Codepoints originalString maxCodepoints =
     (if maxCodepoints = 0 then [] else take (extractLoop originalString maxCodepoints 0 0 0) originalString)"

primrec cutBack :: "cstring \<Rightarrow> nat \<Rightarrow> nat" where
  "cutBack s 0 = 0"
| "cutBack s (Suc cutPosition) = (if continuation (s ! cutPosition) then cutBack s cutPosition else Suc cutPosition)"

definition removeLastUtf8Codepoint :: "cstring \<Rightarrow> cstring" where
  "removeLastUtf8Codepoint targetString =
     (if targetString = [] then targetString
      else let cutPosition = cutBack targetString (length targetString) in
        if cutPosition = 0 then [] else take (cutPosition - 1) targetString)"

definition utf8PopBack :: "cstring \<Rightarrow> cstring" where
  "utf8PopBack s =
     (if s = [] then s
      else let i = cutBack s (length s) in if i = 0 then [] else take (i - 1) s)"

section \<open>UTF-8\<close>

definition utf8 :: "nat \<Rightarrow> cstring" where
  "utf8 n =
     (if n < 0x80 then [char_of n]
      else if n < 0x800 then [char_of (0xC0 + n div 64), char_of (0x80 + n mod 64)]
      else if n < 0x10000 then [char_of (0xE0 + n div 4096), char_of (0x80 + n div 64 mod 64), char_of (0x80 + n mod 64)]
      else [char_of (0xF0 + n div 262144), char_of (0x80 + n div 4096 mod 64), char_of (0x80 + n div 64 mod 64),
            char_of (0x80 + n mod 64)])"

abbreviation codepoint :: "nat \<Rightarrow> bool" where "codepoint n \<equiv> n < 0x110000"

abbreviation encoded :: "nat list \<Rightarrow> cstring" where "encoded cps \<equiv> concat (map utf8 cps)"

lemma byte_classes:
  "\<forall>n\<in>set [0..<256]. (word_of_nat n AND 0xC0 = (0x80 :: byte)) = (128 \<le> n \<and> n < 192) \<and>
     (word_of_nat n AND 0xE0 = (0xC0 :: byte)) = (192 \<le> n \<and> n < 224) \<and>
     (word_of_nat n AND 0xF0 = (0xE0 :: byte)) = (224 \<le> n \<and> n < 240) \<and>
     (word_of_nat n AND 0xF8 = (0xF0 :: byte)) = (240 \<le> n \<and> n < 248) \<and>
     (word_of_nat n < (0x80 :: byte)) = (n < 128)"
  by code_simp

lemma byte_of_char_of: "n < 256 \<Longrightarrow> byte_of (char_of (n :: nat)) = of_nat n"
  by (simp add: byte_of_def)

lemma byte_class:
  assumes "(n :: nat) < 256"
  shows "continuation (char_of n) \<longleftrightarrow> 128 \<le> n \<and> n < 192"
    and "byteAdvanceAmount (char_of n) = (if 192 \<le> n \<and> n < 224 then 2 else if 224 \<le> n \<and> n < 240 then 3
       else if 240 \<le> n \<and> n < 248 then 4 else 1)"
proof -
  have "n \<in> set [0..<256]" using assms by simp
  note n = bspec [OF byte_classes this]
  show "continuation (char_of n) \<longleftrightarrow> 128 \<le> n \<and> n < 192"
    using n by (simp only: continuation_def byte_of_char_of [OF assms])
  show "byteAdvanceAmount (char_of n) = (if 192 \<le> n \<and> n < 224 then 2 else if 224 \<le> n \<and> n < 240 then 3
       else if 240 \<le> n \<and> n < 248 then 4 else 1)"
    using n by (simp only: byteAdvanceAmount_def Let_def byte_of_char_of [OF assms]) auto
qed

text \<open>The shape of an encoded code point: a byte that begins it and says its length, then continuations.\<close>

lemma utf8_shape:
  assumes "codepoint n"
  shows "\<exists>c cs. utf8 n = c # cs \<and> \<not> continuation c \<and> byteAdvanceAmount c = Suc (length cs) \<and> (\<forall>x\<in>set cs. continuation x)"
proof -
  have c: "continuation (char_of (0x80 + k mod 64))" for k :: nat by (subst byte_class(1)) auto
  consider "n < 0x80" | "0x80 \<le> n" "n < 0x800" | "0x800 \<le> n" "n < 0x10000" | "0x10000 \<le> n" by linarith
  then show ?thesis
  proof cases
    case 1
    then show ?thesis by (simp add: utf8_def byte_class)
  next
    case 2
    then have "0xC0 + n div 64 < 224" by linarith
    then show ?thesis using 2 c [of n] by (simp add: utf8_def byte_class)
  next
    case 3
    then have "0xE0 + n div 4096 < 240" by linarith
    then show ?thesis using 3 c [of n] c [of "n div 64"] by (simp add: utf8_def byte_class)
  next
    case 4
    then have "0xF0 + n div 262144 < 248" using assms by linarith
    then show ?thesis using 4 c [of n] c [of "n div 64"] c [of "n div 4096"] by (simp add: utf8_def byte_class)
  qed
qed

lemma utf8_length: "codepoint n \<Longrightarrow> 1 \<le> length (utf8 n) \<and> length (utf8 n) \<le> 4"
  by (auto simp: utf8_def)

section \<open>Backspace\<close>

lemma cutBack_continuations:
  "\<forall>x\<in>set cs. continuation x \<Longrightarrow> \<not> continuation c \<Longrightarrow>
   cutBack ((s @ c # cs) @ r) (length (s @ c # cs)) = Suc (length s)"
proof (induction cs arbitrary: r rule: rev_induct)
  case (snoc x xs)
  then show ?case using snoc.IH [of "x # r"] by (simp add: nth_append)
qed (simp add: nth_append)

lemma cutBack_utf8:
  assumes "codepoint n"
  shows "cutBack (s @ utf8 n) (length (s @ utf8 n)) = Suc (length s)"
proof -
  obtain c cs where c: "utf8 n = c # cs" "\<not> continuation c" "\<forall>x\<in>set cs. continuation x"
    using utf8_shape [OF assms] by blast
  show ?thesis using cutBack_continuations [OF c(3,2), of s "[]"] by (simp add: c(1))
qed

lemma removeLast_encoded: "\<forall>n\<in>set cps. codepoint n \<Longrightarrow> removeLastUtf8Codepoint (encoded cps) = encoded (butlast cps)"
proof (cases cps rule: rev_cases)
  case (snoc xs x)
  then show "\<forall>n\<in>set cps. codepoint n \<Longrightarrow> ?thesis"
    using cutBack_utf8 [of x "encoded xs"] utf8_length [of x] by (auto simp: removeLastUtf8Codepoint_def)
qed (simp add: removeLastUtf8Codepoint_def)

lemma utf8PopBack_removeLast: "utf8PopBack s = removeLastUtf8Codepoint s"
  by (simp add: utf8PopBack_def removeLastUtf8Codepoint_def)

section \<open>Counting and cutting\<close>

lemma encoded_step:
  assumes "codepoint n"
  shows "byteAdvanceAmount ((p @ utf8 n @ r) ! length p) = length (utf8 n)" and "length p < length (p @ utf8 n @ r)"
  using utf8_shape [OF assms] by auto

lemma countLoop_encoded: "\<forall>n\<in>set cps. codepoint n \<Longrightarrow> countLoop (p @ encoded cps) (length p) k = k + length cps"
proof (induction cps arbitrary: p k)
  case (Cons n cps)
  have "countLoop (p @ utf8 n @ encoded cps) (length p) k = countLoop ((p @ utf8 n) @ encoded cps) (length (p @ utf8 n)) (Suc k)"
    using encoded_step [of n p "encoded cps"] Cons.prems by (subst countLoop.simps) (simp add: Let_def)
  then show ?case using Cons.IH [of "p @ utf8 n" "Suc k"] Cons.prems by simp
qed (simp add: countLoop.simps)

lemma extractLoop_encoded:
  "\<forall>n\<in>set cps. codepoint n \<Longrightarrow> k \<le> m \<Longrightarrow>
   extractLoop (p @ encoded cps) m (length p) k (length p) = length (p @ encoded (take (m - k) cps))"
proof (induction cps arbitrary: p k)
  case (Cons n cps)
  show ?case
  proof (cases "k = m")
    case False
    have "extractLoop (p @ utf8 n @ encoded cps) m (length p) k (length p) =
      extractLoop ((p @ utf8 n) @ encoded cps) m (length (p @ utf8 n)) (Suc k) (length (p @ utf8 n))"
      using encoded_step [of n p "encoded cps"] Cons.prems False by (subst extractLoop.simps) (simp add: Let_def)
    moreover have "m - k = Suc (m - Suc k)" using Cons.prems(2) False by simp
    ultimately show ?thesis using Cons.IH [of "Suc k" "p @ utf8 n"] Cons.prems False by simp
  qed (simp add: extractLoop.simps)
qed (simp add: extractLoop.simps)

lemma cutDown_spec: "cutDown s i \<le> i \<and> (cutDown s i = 0 \<or> \<not> continuation (s ! cutDown s i))"
  by (induction i) auto

lemma start_encoded:
  "\<forall>n\<in>set cps. codepoint n \<Longrightarrow> i < length (encoded cps) \<Longrightarrow> \<not> continuation (encoded cps ! i) \<Longrightarrow>
   \<exists>k. i = length (encoded (take k cps))"
proof (induction cps arbitrary: i)
  case (Cons n cps)
  obtain c cs where c: "utf8 n = c # cs" "\<forall>x\<in>set cs. continuation x" using utf8_shape [of n] Cons.prems by auto
  show ?case
  proof (cases "i < length (utf8 n)")
    case True
    then have "i = 0" using Cons.prems(3) c by (cases i) (auto simp: nth_append)
    then show ?thesis by (intro exI [of _ 0]) simp
  next
    case False
    then have "\<exists>k. i - length (utf8 n) = length (encoded (take k cps))"
      using Cons.prems by (intro Cons.IH) (auto simp: nth_append)
    then obtain k where "i - length (utf8 n) = length (encoded (take k cps))" ..
    then show ?thesis using False by (intro exI [of _ "Suc k"]) simp
  qed
qed simp

lemma cutDown_encoded:
  assumes "\<forall>n\<in>set cps. codepoint n" and "i < length (encoded cps)"
  shows "\<exists>k. cutDown (encoded cps) i = length (encoded (take k cps))"
proof (cases "cutDown (encoded cps) i = 0")
  case True
  then show ?thesis by (intro exI [of _ 0]) simp
next
  case False
  then show ?thesis
    using cutDown_spec [of "encoded cps" i] assms(2) by (intro start_encoded [OF assms(1)]) auto
qed

lemma take_encoded: "take (length (encoded (take k cps))) (encoded cps) = encoded (take k cps)"
proof -
  have "encoded cps = encoded (take k cps) @ encoded (drop k cps)" by (metis append_take_drop_id concat_append map_append)
  then show ?thesis by (metis append_eq_conv_conj)
qed

text \<open>
  C37. Whatever the two consoles do with text they do with whole code points: on a well-formed UTF-8
  string the backspace of either console removes the last code point, the count is the number of
  code points, the extraction keeps the first ones, and truncation gives the string itself or some
  of its first code points and three dots, never more bytes than allowed if at least three are.
\<close>

theorem edits_keep_codepoints:
  assumes "\<forall>n\<in>set cps. codepoint n"
  shows "removeLastUtf8Codepoint (encoded cps) = encoded (butlast cps) \<and> utf8PopBack (encoded cps) = encoded (butlast cps) \<and>
     countUtf8Codepoints (encoded cps) = length cps \<and>
     extractMaxUtf8Codepoints (encoded cps) m = encoded (take m cps) \<and>
     (truncateUtf8StringByBytes (encoded cps) m = encoded cps \<or>
      (\<exists>k. truncateUtf8StringByBytes (encoded cps) m = encoded (take k cps) @ ''...'')) \<and>
     (3 \<le> m \<longrightarrow> length (truncateUtf8StringByBytes (encoded cps) m) \<le> m)"
proof -
  note removeLast_encoded [OF assms]
  moreover have "utf8PopBack (encoded cps) = removeLastUtf8Codepoint (encoded cps)" by (rule utf8PopBack_removeLast)
  moreover have "countUtf8Codepoints (encoded cps) = length cps"
    using countLoop_encoded [OF assms, of "[]" 0] by (simp add: countUtf8Codepoints_def)
  moreover have "extractMaxUtf8Codepoints (encoded cps) m = encoded (take m cps)"
    using extractLoop_encoded [OF assms, of 0 m "[]"] take_encoded [of m cps] by (simp add: extractMaxUtf8Codepoints_def)
  moreover have "\<exists>k. truncateUtf8StringByBytes (encoded cps) m = encoded (take k cps) @ ''...''"
    if long: "\<not> length (encoded cps) \<le> m"
  proof (cases "m \<le> 3")
    case True
    then show ?thesis using long by (intro exI [of _ 0]) (simp add: truncateUtf8StringByBytes_def)
  next
    case False
    have "m - 3 < length (encoded cps)" using long by linarith
    from cutDown_encoded [OF assms this] obtain k where "cutDown (encoded cps) (m - 3) = length (encoded (take k cps))" ..
    then show ?thesis
      using long False take_encoded [of k cps] by (intro exI [of _ k]) (simp add: truncateUtf8StringByBytes_def)
  qed
  moreover have "truncateUtf8StringByBytes (encoded cps) m = encoded cps" if "length (encoded cps) \<le> m"
    using that by (simp add: truncateUtf8StringByBytes_def)
  moreover have "length (truncateUtf8StringByBytes (encoded cps) m) \<le> m" if "3 \<le> m"
    using that cutDown_spec [of "encoded cps" "m - 3"] by (auto simp: truncateUtf8StringByBytes_def)
  ultimately show ?thesis by metis
qed

theorem edits_keep_codepoints_witness:
  "removeLastUtf8Codepoint (encoded [0x41, 0x44F]) = encoded [0x41] \<and> countUtf8Codepoints (encoded [0x41, 0x44F]) = 2"
  using edits_keep_codepoints [of "[0x41, 0x44F]" 0] by simp

end
