(* ===== verification/LineEditor.thy ===== *)
theory LineEditor
  imports Utf8 Models
begin

text \<open>
  What the two consoles share: the tokens of a line, and the history of entered lines behind the
  arrow keys. The history is an interface that both consoles implement.
\<close>

section \<open>Tokens\<close>

text \<open>\<open>while (stream >> token)\<close>\<close>

function stream_tokens :: "cstring \<Rightarrow> cstring list" where
  "stream_tokens s = (let r = dropWhile isspace s in
     if r = [] then [] else takeWhile (\<lambda>c. \<not> isspace c) r # stream_tokens (dropWhile (\<lambda>c. \<not> isspace c) r))"
  by pat_completeness auto
termination
proof (relation "measure length")
  fix s r :: cstring assume r: "r = dropWhile isspace s" "r \<noteq> []"
  then have "\<not> isspace (hd r)" using hd_dropWhile by blast
  then have "dropWhile (\<lambda>c. \<not> isspace c) r = dropWhile (\<lambda>c. \<not> isspace c) (tl r)" using r(2) by (cases r) auto
  then have "length (dropWhile (\<lambda>c. \<not> isspace c) r) \<le> length (tl r)" by (metis length_dropWhile_le)
  also have "\<dots> < length r" using r(2) by simp
  also have "\<dots> \<le> length s" by (metis r(1) length_dropWhile_le)
  finally show "(dropWhile (\<lambda>c. \<not> isspace c) r, s) \<in> measure length" by simp
qed simp

declare stream_tokens.simps [simp del]

lemma stream_tokens_empty: "stream_tokens s = [] \<longleftrightarrow> (\<forall>c\<in>set s. isspace c)"
  by (subst stream_tokens.simps) (auto simp: Let_def)

lemma stream_tokens_start: "s \<noteq> [] \<Longrightarrow> \<not> isspace (hd s) \<Longrightarrow> stream_tokens s \<noteq> []"
  by (auto simp: stream_tokens_empty)

section \<open>The history of lines\<close>

definition key_step :: "('s \<Rightarrow> exn + 's) \<Rightarrow> 's \<Rightarrow> 's" where
  "key_step f s = (case f s of Inl _ \<Rightarrow> s | Inr s' \<Rightarrow> s')"

lemma nth_last_int: "xs \<noteq> [] \<Longrightarrow> xs ! nat (int (length xs) - 1) = last xs"
proof -
  have "nat (int (length xs) - 1) = length xs - 1" by linarith
  then show "xs \<noteq> [] \<Longrightarrow> ?thesis" by (simp add: last_conv_nth)
qed

text \<open>
  The laws of the arrow keys: \<open>index\<close> is \<open>-1\<close> while the user edits a line of their own, which is kept
  as the draft as soon as they leave it.
\<close>

locale line_history =
  fixes usable :: "'s \<Rightarrow> bool" and line :: "'s \<Rightarrow> cstring" and history :: "'s \<Rightarrow> cstring list" and index :: "'s \<Rightarrow> int"
    and draft :: "'s \<Rightarrow> cstring" and up :: "'s \<Rightarrow> 's" and down :: "'s \<Rightarrow> 's"
  assumes keeps_history: "usable s \<Longrightarrow> usable (up s) \<and> usable (down s) \<and> history (up s) = history s \<and> history (down s) = history s"
    and up_leaves: "usable s \<Longrightarrow> history s \<noteq> [] \<Longrightarrow> index s < 0 \<Longrightarrow>
      draft (up s) = line s \<and> index (up s) = int (length (history s)) - 1 \<and> line (up s) = last (history s)"
    and up_older: "usable s \<Longrightarrow> 0 < index s \<Longrightarrow> index s < int (length (history s)) \<Longrightarrow>
      draft (up s) = draft s \<and> index (up s) = index s - 1 \<and> line (up s) = history s ! nat (index s - 1)"
    and down_newer: "usable s \<Longrightarrow> 0 \<le> index s \<Longrightarrow> index s < int (length (history s)) - 1 \<Longrightarrow>
      draft (down s) = draft s \<and> index (down s) = index s + 1 \<and> line (down s) = history s ! nat (index s + 1)"
    and down_returns: "usable s \<Longrightarrow> 0 \<le> index s \<Longrightarrow> index s = int (length (history s)) - 1 \<Longrightarrow>
      index (down s) = - 1 \<and> line (down s) = draft s"
begin

lemma usable_funpow: "usable s \<Longrightarrow> usable ((up ^^ n) s) \<and> history ((up ^^ n) s) = history s"
  "usable s \<Longrightarrow> usable ((down ^^ n) s) \<and> history ((down ^^ n) s) = history s"
  by (induction n) (auto simp: keeps_history)

lemma up_n:
  assumes "usable s" and "index s = - 1"
  shows "0 < n \<Longrightarrow> n \<le> length (history s) \<Longrightarrow> draft ((up ^^ n) s) = line s \<and>
     index ((up ^^ n) s) = int (length (history s)) - int n \<and> line ((up ^^ n) s) = history s ! (length (history s) - n)"
proof (induction n)
  case (Suc n)
  let ?s = "(up ^^ n) s"
  note u = usable_funpow(1) [OF assms(1), of n]
  show ?case
  proof (cases "n = 0")
    case True
    then have "history s \<noteq> []" using Suc.prems by auto
    then show ?thesis using up_leaves [of s] assms True by (auto simp: last_conv_nth)
  next
    case False
    then have "index ?s = int (length (history s)) - int n" using Suc by simp
    moreover have "nat (int (length (history s)) - int n - 1) = length (history s) - Suc n" by linarith
    ultimately show ?thesis using up_older [of ?s] Suc False u by simp
  qed
qed simp

lemma down_n:
  assumes "usable s" and "0 \<le> index s" and "index s < int (length (history s))"
  shows "int n < int (length (history s)) - index s \<Longrightarrow> draft ((down ^^ n) s) = draft s \<and> index ((down ^^ n) s) = index s + int n"
proof (induction n)
  case (Suc n)
  then show ?case using down_newer [of "(down ^^ n) s"] usable_funpow(2) [OF assms(1), of n] assms(2) by auto
qed simp

lemma there_and_back:
  assumes "usable s" and "index s = - 1" and "0 < n" and "n \<le> length (history s)"
  shows "line ((up ^^ n) s) = history s ! (length (history s) - n) \<and>
     line ((down ^^ n) ((up ^^ n) s)) = line s \<and> index ((down ^^ n) ((up ^^ n) s)) = - 1"
proof -
  let ?u = "(up ^^ n) s"
  note u = up_n [OF assms] usable_funpow(1) [OF assms(1), of n]
  obtain m where m: "n = Suc m" using assms(3) by (cases n) auto
  have "draft ((down ^^ m) ?u) = draft ?u \<and> index ((down ^^ m) ?u) = index ?u + int m"
    using u assms(4) m by (intro down_n) auto
  moreover have "history s \<noteq> []" using assms(3,4) by auto
  ultimately show ?thesis
    using down_returns [of "(down ^^ m) ?u"] usable_funpow(2) [of ?u m] u assms(4) m by auto
qed

end

end
