(* ===== verification/ServerCLI.thy ===== *)
theory ServerCLI
  imports LineEditor Backend_Laws
begin

text \<open>
  \<open>TeleCrap.Server/src/ServerCLI.cpp\<close>: the console of the server, a line editor with a history and
  the commands of the operator. What is drawn on the terminal is left out; what is logged is kept.
\<close>

section \<open>State\<close>

datatype log_line = LogInfo cstring | LogError cstring

record Console =
  inputBuffer :: cstring
  cli_running :: bool
  cli_commandHistory :: "cstring list"
  historyIndex :: int
  historyDraft :: cstring
  logged :: "log_line list"
  server :: Server

type_synonym 'a cliM = "(Console, exn, 'a) sem"

definition liftsrv :: "'a srvM \<Rightarrow> 'a cliM" where
  "liftsrv m c = (case m (server c) of (r, s) \<Rightarrow> (r, c\<lparr>server := s\<rparr>))"

definition log :: "log_line \<Rightarrow> unit cliM" where
  "log l = modifyM (\<lambda>c. c\<lparr>logged := logged c @ [l]\<rparr>)"

definition ServerCLI_stop :: "unit cliM" where
  "ServerCLI_stop = modifyM (\<lambda>c. c\<lparr>cli_running := False\<rparr>)"

section \<open>Commands\<close>

definition help_lines :: "cstring list" where
  "help_lines = [''Available server commands :'', ''  /help                    - show this message'',
     ''  /list-onlines            - list active connections'', ''  /halt                    - stop server process'',
     ''  /drop-conn [port]        - drop client by remote port'', ''  /reload-addons           - reload lua addons'',
     ''  /global-alert [message]  - broadcast system alert to online users'']"

definition online_line :: "OnlineClientInfo \<Rightarrow> cstring cliM" where
  "online_line c =
     (let line = ''  '' @ oc_PeerAddress c @ '':'' @ to_string (unat (oc_PeerPort c)) in
      if oc_HasUser c
      then bindM (liftsrv (liftdb (findUserById (Some (oc_UserId c))))) (\<lambda>user.
        ret (line @ '' user='' @ to_string (unat (oc_UserId c)) @
          (case user of None \<Rightarrow> [] | Some u \<Rightarrow> ''(@'' @ c_str (ui_Name u) @ '')'')))
      else ret (line @ '' user=<handshake-only>''))"

definition drop_conn :: "cstring \<Rightarrow> unit cliM" where
  "drop_conn port =
     (case stoul port of
        Inl _ \<Rightarrow> log (LogError ''Invalid port'')
      | Inr parsed \<Rightarrow>
          (if parsed > 65535 then log (LogError ''Invalid port range'')
           else bindM (liftsrv (dropConnectionByPeerPort (ucast parsed))) (\<lambda>dropped.
             log (if dropped then LogInfo (''Connection dropped on port '' @ to_string (unat parsed))
                  else LogError (''Connection not found for port '' @ to_string (unat parsed))))))"

text \<open>\<open>catch (const std::exception&)\<close>: everything but \<open>unknown_exception\<close>, and not undefined behaviour.\<close>

definition is_std_exception :: "exn \<Rightarrow> bool" where
  "is_std_exception e \<longleftrightarrow> e \<noteq> unknown_exception \<and> e \<noteq> undefined_behaviour"

definition reload_addons :: "ServerEnv \<Rightarrow> addon list \<Rightarrow> unit cliM" where
  "reload_addons E scripts =
     tryM (thenM (liftsrv (AddonInit E scripts)) (bindM (liftsrv ListRegisteredCommands) (\<lambda>commands.
         log (LogInfo (''Addons reloaded. Registered commands: '' @ to_string (length commands))))))
       (\<lambda>e. if is_std_exception e then log (LogError (''Reload failed: '' @ exn_what e)) else throw e)"

definition alert_text :: "cstring \<Rightarrow> cstring" where
  "alert_text command = drop 1 (dropWhile (\<lambda>c. c \<noteq> CHR '' '') command)"

definition unknown_command :: cstring where
  "unknown_command = encoded [1053, 1077, 1080, 1079, 1074, 1077, 1089, 1090, 1085, 1072, 1103, 32, 1082, 1086, 1084,
     1072, 1085, 1076, 1072, 46, 32, 1042, 1074, 1077, 1076, 1080, 1090, 1077, 32, 47, 104, 101, 108, 112]"

definition ServerCLI_processCommand :: "ServerEnv \<Rightarrow> timestamp_t \<Rightarrow> addon list \<Rightarrow> cstring \<Rightarrow> unit cliM" where
  "ServerCLI_processCommand E now scripts command =
     (if command = [] then ret ()
      else case stream_tokens command of
        [] \<Rightarrow> throw undefined_behaviour
      | name # arguments \<Rightarrow>
          if name = ''/help'' then forEach (\<lambda>l. log (LogInfo l)) help_lines
          else if name = ''/list-onlines'' \<or> name = ''/users'' then
            bindM (liftsrv listOnlineClients) (\<lambda>clients.
              thenM (log (LogInfo (''Online connections: '' @ to_string (length clients))))
                (forEach (\<lambda>c. bindM (online_line c) (\<lambda>l. log (LogInfo l))) clients))
          else if name = ''/drop-conn'' then
            (case arguments of [] \<Rightarrow> log (LogError ''Usage: /drop-conn [port]'') | port # _ \<Rightarrow> drop_conn port)
          else if name = ''/reload-addons'' then reload_addons E scripts
          else if name = ''/global-alert'' then
            (if arguments = [] then log (LogError ''Usage: /global-alert [message]'')
             else if alert_text command = [] then log (LogError ''Alert text cannot be empty'')
             else bindM (liftsrv (pushGlobalAlert now (alert_text command))) (\<lambda>delivered.
               log (LogInfo (''Global alert delivered to '' @ to_string delivered @ '' online user(s)''))))
          else if name = ''/halt'' \<or> name = ''/stop'' \<or> name = ''/exit'' then
            thenM (log (LogInfo ''Server is halting...'')) (thenM (liftsrv stop) ServerCLI_stop)
          else log (LogError unknown_command))"

section \<open>Keys\<close>

definition ServerCLI_hookInputChar :: "char \<Rightarrow> Console \<Rightarrow> Console" where
  "ServerCLI_hookInputChar ch c = c\<lparr>historyIndex := - 1, historyDraft := [], inputBuffer := inputBuffer c @ [ch]\<rparr>"

definition ServerCLI_hookBackspace :: "Console \<Rightarrow> Console" where
  "ServerCLI_hookBackspace c = (let c = c\<lparr>historyIndex := - 1, historyDraft := []\<rparr> in
     if inputBuffer c \<noteq> [] then c\<lparr>inputBuffer := utf8PopBack (inputBuffer c)\<rparr> else c)"

text \<open>\<open>commandHistory[i]\<close>, an index out of range being undefined.\<close>

definition show_entry :: "Console \<Rightarrow> exn + Console" where
  "show_entry c = (if 0 \<le> historyIndex c \<and> historyIndex c < int (length (cli_commandHistory c))
     then Inr (c\<lparr>inputBuffer := cli_commandHistory c ! nat (historyIndex c)\<rparr>) else Inl undefined_behaviour)"

definition ServerCLI_hookArrowUp :: "Console \<Rightarrow> exn + Console" where
  "ServerCLI_hookArrowUp c =
     (if cli_commandHistory c = [] then Inr c
      else show_entry (if historyIndex c < 0
        then c\<lparr>historyDraft := inputBuffer c, historyIndex := int (length (cli_commandHistory c)) - 1\<rparr>
        else if historyIndex c > 0 then c\<lparr>historyIndex := historyIndex c - 1\<rparr> else c))"

definition ServerCLI_hookArrowDown :: "Console \<Rightarrow> exn + Console" where
  "ServerCLI_hookArrowDown c =
     (if historyIndex c < 0 then Inr c
      else if historyIndex c < int (length (cli_commandHistory c)) - 1
      then show_entry (c\<lparr>historyIndex := historyIndex c + 1\<rparr>)
      else Inr (c\<lparr>historyIndex := - 1, inputBuffer := historyDraft c, historyDraft := []\<rparr>))"

definition remember :: "cstring \<Rightarrow> cstring list \<Rightarrow> cstring list" where
  "remember line commandHistory =
     (let commandHistory = (if commandHistory = [] \<or> last commandHistory \<noteq> line then commandHistory @ [line] else commandHistory)
      in if length commandHistory > 100 then tl commandHistory else commandHistory)"

definition ServerCLI_hookEnter :: "ServerEnv \<Rightarrow> timestamp_t \<Rightarrow> addon list \<Rightarrow> unit cliM" where
  "ServerCLI_hookEnter E now scripts =
     bindM (getsM inputBuffer) (\<lambda>line.
       thenM (modifyM (\<lambda>c. c\<lparr>inputBuffer := []\<rparr>))
         (if line = [] then ret ()
          else thenM (modifyM (\<lambda>c. c\<lparr>cli_commandHistory := remember line (cli_commandHistory c), historyIndex := - 1, historyDraft := []\<rparr>))
                 (ServerCLI_processCommand E now scripts line)))"

definition ServerCLI_hookEscape :: "Console \<Rightarrow> Console" where
  "ServerCLI_hookEscape c = c\<lparr>inputBuffer := []\<rparr>"

section \<open>The history implements the interface\<close>

definition cli_ok :: "Console \<Rightarrow> bool" where
  "cli_ok c \<longleftrightarrow> - 1 \<le> historyIndex c \<and> historyIndex c < int (length (cli_commandHistory c))"

lemma keys_ok:
  assumes "cli_ok c"
  shows "\<exists>c'. ServerCLI_hookArrowUp c = Inr c' \<and> cli_ok c' \<and> cli_commandHistory c' = cli_commandHistory c"
    and "\<exists>c'. ServerCLI_hookArrowDown c = Inr c' \<and> cli_ok c' \<and> cli_commandHistory c' = cli_commandHistory c"
  using assms by (auto simp: cli_ok_def ServerCLI_hookArrowUp_def ServerCLI_hookArrowDown_def show_entry_def)

interpretation cli: line_history cli_ok inputBuffer cli_commandHistory historyIndex historyDraft
  "key_step ServerCLI_hookArrowUp" "key_step ServerCLI_hookArrowDown"
proof
  fix s assume s: "cli_ok s"
  show "cli_ok (key_step ServerCLI_hookArrowUp s) \<and> cli_ok (key_step ServerCLI_hookArrowDown s) \<and>
     cli_commandHistory (key_step ServerCLI_hookArrowUp s) = cli_commandHistory s \<and>
     cli_commandHistory (key_step ServerCLI_hookArrowDown s) = cli_commandHistory s"
    using keys_ok [OF s] by (auto simp: key_step_def)
qed (auto simp: key_step_def cli_ok_def ServerCLI_hookArrowUp_def ServerCLI_hookArrowDown_def show_entry_def nth_last_int)

section \<open>A blank line\<close>

lemma liftsrv_run: "m (server c) = (r, s) \<Longrightarrow> liftsrv m c = (r, c\<lparr>server := s\<rparr>)"
  by (simp add: liftsrv_def)

text \<open>Computations that come back without an exception, on a server whose tables are in order.\<close>

definition returns :: "(Console, exn, 'a) sem \<Rightarrow> bool" where
  "returns m \<longleftrightarrow> (\<forall>c. srv_ok (server c) \<longrightarrow> (\<exists>x c'. m c = (Inr x, c') \<and> srv_ok (server c')))"

named_theorems returns_intros

lemma returns_basic [returns_intros]: "returns (ret x)" "returns (log l)" "returns ServerCLI_stop" "returns (getsM f)"
  by (simp_all add: returns_def ret_def log_def modifyM_def getsM_def ServerCLI_stop_def)

lemma returns_bindM [returns_intros]: "returns m \<Longrightarrow> (\<And>x. returns (f x)) \<Longrightarrow> returns (bindM m f)"
  unfolding returns_def bindM_def by (metis (mono_tags, lifting) case_prod_conv sum.case(2))

lemma returns_thenM [returns_intros]: "returns m \<Longrightarrow> returns n \<Longrightarrow> returns (thenM m n)"
  unfolding thenM_def by (intro returns_intros)

lemma returns_forEach [returns_intros]: "(\<And>x. returns (f x)) \<Longrightarrow> returns (forEach f xs)"
  by (induction xs) (auto intro: returns_intros)

lemma returns_tryM [returns_intros]: "returns m \<Longrightarrow> returns (tryM m h)"
  unfolding returns_def tryM_def by (metis (mono_tags, lifting) case_prod_conv sum.case(2))

lemma returns_if [returns_intros]: "(b \<Longrightarrow> returns m) \<Longrightarrow> (\<not> b \<Longrightarrow> returns n) \<Longrightarrow> returns (if b then m else n)"
  by simp

lemma returns_list [returns_intros]:
  "(xs = [] \<Longrightarrow> returns m) \<Longrightarrow> (\<And>y ys. xs = y # ys \<Longrightarrow> returns (f y ys)) \<Longrightarrow> returns (case xs of [] \<Rightarrow> m | y # ys \<Rightarrow> f y ys)"
  by (cases xs) simp_all

lemma returns_liftsrv: "(\<And>s. srv_ok s \<Longrightarrow> \<exists>x s'. m s = (Inr x, s') \<and> srv_ok s') \<Longrightarrow> returns (liftsrv m)"
  unfolding returns_def by (metis liftsrv_run Console.select_convs(7) Console.surjective Console.update_convs(7))

lemma console_reads [returns_intros]: "returns (liftsrv listOnlineClients)" "returns (liftsrv ListRegisteredCommands)"
  "returns (liftsrv (liftdb (findUserById u)))"
  by (rule returns_liftsrv, simp add: listOnlineClients_def ListRegisteredCommands_def liftdb_def findUserById_def getsM_def)+

lemma console_changes [returns_intros]: "returns (liftsrv stop)" "returns (liftsrv (dropConnectionByPeerPort p))"
  by (rule returns_liftsrv, auto simp: stop_def dropConnectionByPeerPort_def modifyM_def getsM_def bindM_def thenM_def ret_def
      srv_ok_def split: option.split)+

lemma push_returns: "srv_ok s \<Longrightarrow> \<exists>s'. forEach (\<lambda>e. pushUpdateToUser (snd e) x) us s = (Inr (), s') \<and> srv_ok s'"
  by (induction us arbitrary: s) (auto simp: ret_def thenM_def bindM_def pushUpdateToUser_def modifyM_def srv_ok_def)

lemma alert_returns [returns_intros]: "returns (liftsrv (pushGlobalAlert now text))"
proof (rule returns_liftsrv)
  fix s assume "srv_ok s"
  then obtain s' where "forEach (\<lambda>e. pushUpdateToUser (snd e) (global_alert now text)) (ClientUsers s) s = (Inr (), s')" "srv_ok s'"
    using push_returns by blast
  then show "\<exists>x s'. pushGlobalAlert now text s = (Inr x, s') \<and> srv_ok s'"
    by (simp add: pushGlobalAlert_def bindM_def getsM_def thenM_def ret_def)
qed

lemma addons_return:
  assumes "DbEnv_ok (dbenv E)"
  shows "returns (liftsrv (AddonInit E scripts))"
proof (rule returns_liftsrv)
  fix s assume "srv_ok s"
  moreover have "\<exists>s'. forEach (\<lambda>script. thenM (run_addon E script) (ret ())) scripts s = (Inr (), s') \<and> srv_ok s'" if "srv_ok s" for s
    using that
  proof (induction scripts arbitrary: s)
    case (Cons a scripts)
    obtain b s1 where "run_addon E a s = (Inr b, s1)" "srv_ok s1" using run_addon_total [OF assms Cons.prems] by blast
    then show ?case using Cons.IH [of s1] by (simp add: thenM_def bindM_def ret_def)
  qed (simp add: ret_def)
  ultimately show "\<exists>x s'. AddonInit E scripts s = (Inr x, s') \<and> srv_ok s'"
    by (simp add: AddonInit_def thenM_def bindM_def modifyM_def srv_ok_def)
qed

lemma command_returns:
  assumes "DbEnv_ok (dbenv E)" and "command = [] \<or> stream_tokens command \<noteq> []"
  shows "returns (ServerCLI_processCommand E now scripts command)"
proof -
  have l: "returns (online_line c)" for c unfolding online_line_def Let_def by (intro returns_intros)
  have d: "returns (drop_conn p)" for p
    unfolding drop_conn_def by (cases "stoul p") (auto intro: returns_intros)
  have r: "returns (reload_addons E scripts)"
    unfolding reload_addons_def by (intro returns_intros addons_return [OF assms(1)])
  show ?thesis
    using assms(2) unfolding ServerCLI_processCommand_def
    by (intro returns_intros l d r) blast
qed



text \<open>The arrow keys, through the interface: going up and down again brings the edited line back.\<close>

lemma console_history:
  assumes "cli_ok c" and "historyIndex c = - 1" and "0 < n" and "n \<le> length (cli_commandHistory c)"
  shows "inputBuffer ((key_step ServerCLI_hookArrowUp ^^ n) c) = cli_commandHistory c ! (length (cli_commandHistory c) - n) \<and>
     inputBuffer ((key_step ServerCLI_hookArrowDown ^^ n) ((key_step ServerCLI_hookArrowUp ^^ n) c)) = inputBuffer c"
  using cli.there_and_back [OF assms] by blast

text \<open>Every key keeps the index of the history in range, and at most a hundred lines are kept.\<close>

lemma remember_bounds: "length h \<le> 100 \<Longrightarrow> remember line h \<noteq> [] \<and> length (remember line h) \<le> 100 \<and> last (remember line h) = line"
  by (cases h) (auto simp: remember_def Let_def)

end
