(* ===== verification/ServerWindows.thy ===== *)
theory ServerWindows
  imports ServerCLI
begin

text \<open>
  \<open>TeleCrap.Server/src/ServerCLI.Win.cpp\<close>: the console's loop over the events of the Windows console.
  A failed or empty read is a round without events; the redrawing is left out.
\<close>

section \<open>Events\<close>

record KEY_EVENT_RECORD =
  bKeyDown :: bool
  wVirtualKeyCode :: u16
  UnicodeChar :: u16
  dwControlKeyState :: u32

datatype INPUT_RECORD = KEY_EVENT KEY_EVENT_RECORD | WINDOW_BUFFER_SIZE_EVENT | OTHER_EVENT

text \<open>The numbers of \<open>WinUser.h\<close> and \<open>wincon.h\<close>.\<close>

definition VK_BACK :: u16 where "VK_BACK = 0x08"
definition VK_RETURN :: u16 where "VK_RETURN = 0x0D"
definition VK_ESCAPE :: u16 where "VK_ESCAPE = 0x1B"
definition VK_UP :: u16 where "VK_UP = 0x26"
definition VK_DOWN :: u16 where "VK_DOWN = 0x28"
definition RIGHT_ALT_PRESSED :: u32 where "RIGHT_ALT_PRESSED = 0x1"
definition RIGHT_CTRL_PRESSED :: u32 where "RIGHT_CTRL_PRESSED = 0x4"
definition LEFT_CTRL_PRESSED :: u32 where "LEFT_CTRL_PRESSED = 0x8"

lemmas key_numbers = VK_BACK_def VK_RETURN_def VK_ESCAPE_def VK_UP_def VK_DOWN_def

unbundle bit_operations_syntax

section \<open>Keys\<close>

definition con_key :: "(Console \<Rightarrow> Console) \<Rightarrow> unit cliM" where
  "con_key f = modifyM f"

definition con_arrow :: "(Console \<Rightarrow> exn + Console) \<Rightarrow> unit cliM" where
  "con_arrow f c = (case f c of Inl e \<Rightarrow> (Inl e, c) | Inr c' \<Rightarrow> (Inr (), c'))"

text \<open>\<open>W\<close> is \<open>WideCharToMultiByte\<close> to UTF-8 for a single \<open>wchar_t\<close>.\<close>

definition handleKeyEventWin :: "(u16 \<Rightarrow> cstring) \<Rightarrow> ServerEnv \<Rightarrow> timestamp_t \<Rightarrow> addon list \<Rightarrow> KEY_EVENT_RECORD \<Rightarrow> unit cliM" where
  "handleKeyEventWin W E now scripts ke =
     (let vk = wVirtualKeyCode ke; ctrl = dwControlKeyState ke in
      if vk = VK_UP then con_arrow ServerCLI_hookArrowUp
      else if vk = VK_DOWN then con_arrow ServerCLI_hookArrowDown
      else if vk = VK_ESCAPE then con_key ServerCLI_hookEscape
      else if vk = VK_RETURN then ServerCLI_hookEnter E now scripts
      else if vk = VK_BACK then con_key ServerCLI_hookBackspace
      else if UnicodeChar ke \<noteq> 0 \<and> ctrl AND (LEFT_CTRL_PRESSED OR RIGHT_CTRL_PRESSED) = 0
      then let wc = UnicodeChar ke in
        (if wc \<ge> 32 \<and> wc \<noteq> 127 then forEach (\<lambda>ch. con_key (ServerCLI_hookInputChar ch)) (W wc) else ret ())
      else ret ())"

definition handleRecordWin :: "(u16 \<Rightarrow> cstring) \<Rightarrow> ServerEnv \<Rightarrow> timestamp_t \<Rightarrow> addon list \<Rightarrow> INPUT_RECORD \<Rightarrow> unit cliM" where
  "handleRecordWin W E now scripts rec =
     (case rec of KEY_EVENT ke \<Rightarrow> (if bKeyDown ke then handleKeyEventWin W E now scripts ke else ret ()) | _ \<Rightarrow> ret ())"

text \<open>
  \<open>ServerCLI::run\<close>, over what \<open>ReadConsoleInputW\<close> returns, up to 32 records at a time; at the end of the
  list it waits. The records of one read are handled to the end even if one of them stops the console.
\<close>

fun ServerCLI_runWin :: "(u16 \<Rightarrow> cstring) \<Rightarrow> ServerEnv \<Rightarrow> timestamp_t \<Rightarrow> addon list \<Rightarrow> INPUT_RECORD list list \<Rightarrow> unit cliM" where
  "ServerCLI_runWin W E now scripts [] = ret ()"
| "ServerCLI_runWin W E now scripts (records # reads) =
     bindM (getsM cli_running) (\<lambda>running.
       if running
       then thenM (forEach (handleRecordWin W E now scripts) (take 32 records)) (ServerCLI_runWin W E now scripts reads)
       else ret ())"

section \<open>What is typed\<close>

text \<open>
  The documented behaviour of \<open>WideCharToMultiByte\<close> on one \<open>wchar_t\<close>: the encoding of the character,
  and of U+FFFD for one half of a surrogate pair.
\<close>

definition surrogate :: "u16 \<Rightarrow> bool" where
  "surrogate w \<longleftrightarrow> 0xD800 \<le> w \<and> w < 0xE000"

definition wide_ok :: "(u16 \<Rightarrow> cstring) \<Rightarrow> bool" where
  "wide_ok W \<longleftrightarrow> (\<forall>w. w \<noteq> 0 \<longrightarrow> W w = Utf8.utf8 (if surrogate w then 0xFFFD else unat w))"

lemma wide_ok_instance: "wide_ok (\<lambda>w. Utf8.utf8 (if surrogate w then 0xFFFD else unat w))"
  by (simp add: wide_ok_def)

text \<open>The event of a character key, and what a line of code points is after it.\<close>

datatype win_edit = Typed u16 | Erased

definition plain_char :: "u16 \<Rightarrow> bool" where
  "plain_char w \<longleftrightarrow> w \<ge> 32 \<and> w \<noteq> 127"

fun edit_event :: "win_edit \<Rightarrow> INPUT_RECORD" where
  "edit_event (Typed w) = KEY_EVENT \<lparr>bKeyDown = True, wVirtualKeyCode = 0, UnicodeChar = w, dwControlKeyState = 0\<rparr>"
| "edit_event Erased = KEY_EVENT \<lparr>bKeyDown = True, wVirtualKeyCode = VK_BACK, UnicodeChar = 8, dwControlKeyState = 0\<rparr>"

fun edit_text :: "win_edit \<Rightarrow> nat list \<Rightarrow> nat list" where
  "edit_text (Typed w) cps = cps @ [if surrogate w then 0xFFFD else unat w]"
| "edit_text Erased cps = butlast cps"

lemma typed_chars:
  "\<exists>c'. forEach (\<lambda>ch. con_key (ServerCLI_hookInputChar ch)) s c = (Inr (), c') \<and> inputBuffer c' = inputBuffer c @ s"
proof (induction s arbitrary: c)
  case (Cons x s)
  show ?case using Cons [of "ServerCLI_hookInputChar x c"]
    by (auto simp: thenM_def bindM_def con_key_def modifyM_def ServerCLI_hookInputChar_def)
qed (simp add: ret_def)

lemma edit_codepoints: "\<forall>n\<in>set cps. codepoint n \<Longrightarrow> \<forall>n\<in>set (edit_text k cps). codepoint n"
  using unat_lt [where 'a = 16] by (cases k) (auto dest: in_set_butlastD intro: less_trans [where y = "2 ^ 16"])

lemma edit_step:
  assumes "wide_ok W" and "\<forall>n\<in>set cps. codepoint n" and "inputBuffer c = encoded cps"
    and "\<forall>w. k = Typed w \<longrightarrow> plain_char w"
  shows "\<exists>c'. handleRecordWin W E now scripts (edit_event k) c = (Inr (), c') \<and> inputBuffer c' = encoded (edit_text k cps)"
proof (cases k)
  case (Typed w)
  then have w: "w \<noteq> 0" "w \<ge> 32" "w \<noteq> 127" using assms(4) by (auto simp: plain_char_def)
  then show ?thesis
    using Typed typed_chars [of "W w" c] assms(1,3)
    by (auto simp: handleRecordWin_def handleKeyEventWin_def key_numbers Let_def wide_ok_def)
next
  case Erased
  then show ?thesis
    using removeLast_encoded [OF assms(2)] assms(3)
    by (auto simp: handleRecordWin_def handleKeyEventWin_def key_numbers Let_def con_key_def modifyM_def
        ServerCLI_hookBackspace_def utf8PopBack_removeLast removeLastUtf8Codepoint_def)
qed

text \<open>
  Typing and erasing edit the line by code points: whatever is typed and erased, the buffer is the
  UTF-8 encoding of the text. A character outside the basic plane comes as two surrogates and stands in
  the line as two replacement characters.
\<close>

theorem windows_line_is_text:
  assumes "wide_ok W" and "inputBuffer c = []" and "\<forall>w. Typed w \<in> set ks \<longrightarrow> plain_char w"
  shows "\<exists>c'. forEach (handleRecordWin W E now scripts) (map edit_event ks) c = (Inr (), c') \<and>
     inputBuffer c' = encoded (fold edit_text ks [])"
proof -
  have "\<exists>c'. forEach (handleRecordWin W E now scripts) (map edit_event ks) c = (Inr (), c') \<and> inputBuffer c' = encoded (fold edit_text ks cps)"
    if "\<forall>n\<in>set cps. codepoint n" "inputBuffer c = encoded cps" "\<forall>w. Typed w \<in> set ks \<longrightarrow> plain_char w" for cps ks c
    using that
  proof (induction ks arbitrary: cps c)
    case (Cons k ks)
    obtain c1 where c1: "handleRecordWin W E now scripts (edit_event k) c = (Inr (), c1)" "inputBuffer c1 = encoded (edit_text k cps)"
      using edit_step [OF assms(1) Cons.prems(1,2), where k = k and E = E and now = now and scripts = scripts] Cons.prems(3) by auto
    show ?case using Cons.IH [OF edit_codepoints [OF Cons.prems(1)] c1(2)] c1(1) Cons.prems(3) by (auto simp: thenM_def bindM_def)
  qed (simp add: ret_def)
  from this [of "[]"] assms(2,3) show ?thesis by simp
qed

text \<open>A character that the layout gives with AltGr comes with \<open>LEFT_CTRL_PRESSED\<close>, and is dropped.\<close>

theorem altgr_dropped:
  assumes "wVirtualKeyCode ke \<notin> {VK_UP, VK_DOWN, VK_ESCAPE, VK_RETURN, VK_BACK}"
    and "dwControlKeyState ke = (LEFT_CTRL_PRESSED OR RIGHT_ALT_PRESSED)"
  shows "handleKeyEventWin W E now scripts ke c = (Inr (), c)"
  using assms by (simp add: handleKeyEventWin_def Let_def LEFT_CTRL_PRESSED_def RIGHT_CTRL_PRESSED_def RIGHT_ALT_PRESSED_def ret_def)

end
