(* ===== verification/ServerTerminal.thy ===== *)
theory ServerTerminal
  imports ServerCLI
begin

unbundle bit_operations_syntax

text \<open>
  \<open>TeleCrap.Server/src/ServerCLI.Linux.cpp\<close>: the mode of the terminal, and the console's loop over its
  bytes. The redrawing is left out.
\<close>

section \<open>The terminal\<close>

text \<open>
  \<open>stdin\<close> is what the terminal has yet to deliver, in the pieces a \<open>read\<close> finds available; an empty
  piece is a \<open>read\<close> or \<open>poll\<close> that times out.
\<close>

record termios =
  c_iflag :: u32
  c_oflag :: u32
  c_cflag :: u32
  c_lflag :: u32
  cc_VMIN :: byte
  cc_VTIME :: byte

record Terminal =
  console :: Console
  stdin :: "cstring list"
  tty_mode :: termios

type_synonym 'a termM = "(Terminal, exn, 'a) sem"

definition read_byte :: "char option termM" where
  "read_byte t = (case stdin t of
     [] \<Rightarrow> (Inr None, t)
   | [] # cs \<Rightarrow> (Inr None, t\<lparr>stdin := cs\<rparr>)
   | (b # bs) # cs \<Rightarrow> (Inr (Some b), t\<lparr>stdin := (if bs = [] then cs else bs # cs)\<rparr>))"

definition read_piece :: "cstring termM" where
  "read_piece t = (case stdin t of
     [] \<Rightarrow> (Inr [], t)
   | c # cs \<Rightarrow> (Inr (take 64 c), t\<lparr>stdin := (if length c \<le> 64 then cs else drop 64 c # cs)\<rparr>))"

definition key :: "(Console \<Rightarrow> Console) \<Rightarrow> unit termM" where
  "key f = modifyM (\<lambda>t. t\<lparr>console := f (console t)\<rparr>)"

definition arrow :: "(Console \<Rightarrow> exn + Console) \<Rightarrow> unit termM" where
  "arrow f t = (case f (console t) of Inl e \<Rightarrow> (Inl e, t) | Inr c \<Rightarrow> (Inr (), t\<lparr>console := c\<rparr>))"

definition enter :: "ServerEnv \<Rightarrow> timestamp_t \<Rightarrow> addon list \<Rightarrow> unit termM" where
  "enter E now scripts t = (case ServerCLI_hookEnter E now scripts (console t) of (r, c) \<Rightarrow> (r, t\<lparr>console := c\<rparr>))"

definition ESC :: char where "ESC = CHR 0x1B"

definition handleByteLinux :: "ServerEnv \<Rightarrow> timestamp_t \<Rightarrow> addon list \<Rightarrow> char \<Rightarrow> unit termM" where
  "handleByteLinux E now scripts b =
     (if b = ESC then
        bindM read_byte (\<lambda>seq0. case seq0 of
          None \<Rightarrow> key ServerCLI_hookEscape
        | Some c0 \<Rightarrow>
            (if c0 = CHR ''['' then
               bindM read_byte (\<lambda>seq1. case seq1 of
                 None \<Rightarrow> ret ()
               | Some c1 \<Rightarrow>
                   (if c1 = CHR ''A'' then arrow ServerCLI_hookArrowUp
                    else if c1 = CHR ''B'' then arrow ServerCLI_hookArrowDown else ret ()))
             else key ServerCLI_hookEscape))
      else if b = CHR 0x7F \<or> b = CHR 0x08 then key ServerCLI_hookBackspace
      else if b = CHR 0x0D \<or> b = CHR 0x0A then enter E now scripts
      else if (of_char b :: nat) \<ge> 32 then key (ServerCLI_hookInputChar b)
      else ret ())"

definition linux_round :: "ServerEnv \<Rightarrow> timestamp_t \<Rightarrow> addon list \<Rightarrow> unit termM" where
  "linux_round E now scripts = bindM read_piece (forEach (handleByteLinux E now scripts))"

text \<open>
  The loop, up to the point where the terminal has nothing more to deliver and the loop waits.
\<close>

partial_function (option) ServerCLI_loop :: "ServerEnv \<Rightarrow> timestamp_t \<Rightarrow> addon list \<Rightarrow> Terminal \<Rightarrow>
    ((exn + unit) \<times> Terminal) option" where
  "ServerCLI_loop E now scripts t =
     (if \<not> cli_running (console t) \<or> stdin t = [] then Some (Inr (), t)
      else case linux_round E now scripts t of
        (Inl e, t') \<Rightarrow> Some (Inl e, t')
      | (Inr _, t') \<Rightarrow> ServerCLI_loop E now scripts t')"

section \<open>The mode of the terminal\<close>

text \<open>
  The flags of \<open>termios.h\<close> as Linux numbers them. The system calls: whether \<open>tcgetattr\<close> succeeds, and
  which settings \<open>tcsetattr\<close> accepts. What was typed before the mode is set is discarded: \<open>stdin\<close> is what
  comes after.
\<close>

definition BRKINT :: u32 where "BRKINT = 0x2"
definition ICRNL :: u32 where "ICRNL = 0x100"
definition INPCK :: u32 where "INPCK = 0x10"
definition ISTRIP :: u32 where "ISTRIP = 0x20"
definition IXON :: u32 where "IXON = 0x400"
definition OPOST :: u32 where "OPOST = 0x1"
definition CS8 :: u32 where "CS8 = 0x30"
definition ECHO :: u32 where "ECHO = 0x8"
definition ICANON :: u32 where "ICANON = 0x2"
definition IEXTEN :: u32 where "IEXTEN = 0x8000"
definition ISIG :: u32 where "ISIG = 0x1"

record Tty =
  tcgetattr_ok :: bool
  tcsetattr_ok :: "termios \<Rightarrow> bool"

record TermState =
  ts_orig :: "termios option"
  ts_active :: bool

definition raw_mode :: "termios \<Rightarrow> termios" where
  "raw_mode orig = orig\<lparr>
     c_iflag := c_iflag orig AND NOT (BRKINT OR ICRNL OR INPCK OR ISTRIP OR IXON),
     c_oflag := c_oflag orig AND NOT OPOST,
     c_cflag := c_cflag orig OR CS8,
     c_lflag := c_lflag orig AND NOT (ECHO OR ICANON OR IEXTEN OR ISIG),
     cc_VMIN := 0, cc_VTIME := 1\<rparr>"

definition set_mode :: "Tty \<Rightarrow> termios \<Rightarrow> Terminal \<Rightarrow> Terminal" where
  "set_mode Y mode t = (if tcsetattr_ok Y mode then t\<lparr>tty_mode := mode\<rparr> else t)"

definition enableRaw :: "Tty \<Rightarrow> Terminal \<Rightarrow> TermState \<times> Terminal" where
  "enableRaw Y t =
     (if \<not> tcgetattr_ok Y then (\<lparr>ts_orig = None, ts_active = False\<rparr>, t)
      else (\<lparr>ts_orig = Some (tty_mode t), ts_active = tcsetattr_ok Y (raw_mode (tty_mode t))\<rparr>,
            set_mode Y (raw_mode (tty_mode t)) t))"

definition disableRaw :: "Tty \<Rightarrow> TermState \<Rightarrow> Terminal \<Rightarrow> TermState \<times> Terminal" where
  "disableRaw Y ts t = (ts\<lparr>ts_active := False\<rparr>,
     case ts_orig ts of Some mode \<Rightarrow> (if ts_active ts then set_mode Y mode t else t) | None \<Rightarrow> t)"

definition ServerCLI_run :: "Tty \<Rightarrow> ServerEnv \<Rightarrow> timestamp_t \<Rightarrow> addon list \<Rightarrow> Terminal \<Rightarrow>
    ((exn + unit) \<times> Terminal) option" where
  "ServerCLI_run Y E now scripts t =
     (case enableRaw Y t of (ts, t1) \<Rightarrow>
        (case ServerCLI_loop E now scripts t1 of
           None \<Rightarrow> None
         | Some (Inl e, t2) \<Rightarrow> Some (Inl e, t2)
         | Some (Inr _, t2) \<Rightarrow> Some (Inr (), if cli_running (console t2) then t2 else snd (disableRaw Y ts t2))))"

section \<open>The loop ends\<close>

definition console_ok :: "Console \<Rightarrow> bool" where
  "console_ok c \<longleftrightarrow> srv_ok (server c) \<and> cli_ok c"

definition blank :: "cstring \<Rightarrow> bool" where
  "blank line \<longleftrightarrow> line \<noteq> [] \<and> (\<forall>ch\<in>set line. isspace ch)"

definition blank_entered :: "Console \<Rightarrow> bool" where
  "blank_entered c \<longleftrightarrow> cli_commandHistory c \<noteq> [] \<and> blank (last (cli_commandHistory c))"

lemma remember_last: "remember line h \<noteq> [] \<and> last (remember line h) = line"
proof -
  have "tl xs \<noteq> [] \<and> last (tl xs) = last xs" if "100 < length xs" for xs :: "cstring list"
    using that by (cases xs) auto
  then show ?thesis by (simp add: remember_def Let_def)
qed

definition history_of :: "Console \<Rightarrow> cstring list \<times> int" where
  "history_of c = (cli_commandHistory c, historyIndex c)"

lemma commands_keep_history [frames]:
  "keeps history_of (log l)" "keeps history_of (liftsrv m)" "keeps history_of ServerCLI_stop"
  by (simp_all add: keeps_def log_def liftsrv_def ServerCLI_stop_def modifyM_def history_of_def split_beta)

lemma processCommand_keeps_history: "keeps history_of (ServerCLI_processCommand E now scripts command)"
proof -
  have d: "keeps history_of (drop_conn p)" for p
    unfolding drop_conn_def by (cases "stoul p") (auto intro!: frames)
  have l: "keeps history_of (online_line c)" for c unfolding online_line_def Let_def by (intro frames)
  have r: "keeps history_of (reload_addons E scripts)" unfolding reload_addons_def by (intro frames)
  show ?thesis
    unfolding ServerCLI_processCommand_def by (auto intro!: frames d l r split: list.split)
qed

lemma hookEnter_ok:
  assumes "DbEnv_ok (dbenv E)"
  shows "triple console_ok (ServerCLI_hookEnter E now scripts) (\<lambda>_. console_ok) (\<lambda>e c. e = undefined_behaviour \<and> blank_entered c)"
proof -
  let ?Q = "\<lambda>c r c'. case r of Inl e \<Rightarrow> e = undefined_behaviour \<and> blank_entered c' | Inr _ \<Rightarrow> console_ok c'"
  have "?Q c r c'" if c: "console_ok c" and run: "ServerCLI_hookEnter E now scripts c = (r, c')" for c r c'
  proof (cases "inputBuffer c = []")
    case True
    then show ?thesis using c run by (auto simp: ServerCLI_hookEnter_def monad_defs console_ok_def cli_ok_def)
  next
    case False
    let ?line = "inputBuffer c" and ?p = "ServerCLI_processCommand E now scripts (inputBuffer c)"
    let ?c = "c\<lparr>inputBuffer := [], cli_commandHistory := remember (inputBuffer c) (cli_commandHistory c), historyIndex := - 1, historyDraft := []\<rparr>"
    have p: "?p ?c = (r, c')" using False run by (simp add: ServerCLI_hookEnter_def monad_defs)
    have h: "history_of c' = history_of ?c" using keepsD [OF processCommand_keeps_history, of E now scripts ?line ?c] p by simp
    show ?thesis
    proof (cases "stream_tokens ?line = []")
      case True
      have "?p ?c = (Inl undefined_behaviour, ?c)"
        using False True by (simp add: ServerCLI_processCommand_def throw_def)
      moreover have "blank ?line" using False True by (simp add: stream_tokens_empty blank_def)
      ultimately have "blank ?line" "r = Inl undefined_behaviour" using p by auto
      then show ?thesis using h remember_last [of ?line] by (simp add: blank_entered_def history_of_def)
    next
      case False
      have "returns ?p" using command_returns [OF assms] False by blast
      moreover have "srv_ok (server ?c)" using c by (simp add: console_ok_def)
      ultimately obtain x s' where "?p ?c = (Inr x, s')" "srv_ok (server s')" unfolding returns_def by blast
      then show ?thesis using p h by (auto simp: console_ok_def cli_ok_def history_of_def)
    qed
  qed
  then show ?thesis unfolding triple_def by (fastforce split: prod.splits)
qed

definition pending_input :: "Terminal \<Rightarrow> nat" where
  "pending_input t = sum_list (map (\<lambda>c. Suc (length c)) (stdin t))"

definition term_ok :: "nat \<Rightarrow> Terminal \<Rightarrow> bool" where
  "term_ok n t \<longleftrightarrow> console_ok (console t) \<and> pending_input t \<le> n"

abbreviation fails :: "exn \<Rightarrow> Terminal \<Rightarrow> bool" where
  "fails e t \<equiv> e = undefined_behaviour \<and> blank_entered (console t)"

definition runs :: "nat \<Rightarrow> 'a termM \<Rightarrow> bool" where
  "runs n m \<longleftrightarrow> triple (term_ok n) m (\<lambda>_. term_ok n) fails"

lemma runs_bindM: "runs n m \<Longrightarrow> (\<And>x. runs n (f x)) \<Longrightarrow> runs n (bindM m f)"
  unfolding runs_def by (rule triple_bindM)

lemma runs_forEach: "(\<And>x. runs n (f x)) \<Longrightarrow> runs n (forEach f xs)"
proof (induction xs)
  case (Cons x xs)
  then show ?case using runs_bindM [of n "f x" "\<lambda>_. forEach f xs"] by (simp add: thenM_def)
qed (simp add: runs_def triple_def ret_def)

lemma runs_keys:
  "(\<And>c. console_ok c \<Longrightarrow> console_ok (f c)) \<Longrightarrow> runs n (key f)"
  "(\<And>c. console_ok c \<Longrightarrow> \<exists>c'. g c = Inr c' \<and> console_ok c') \<Longrightarrow> runs n (arrow g)"
  "runs n (ret x)" "runs n read_byte"
  by (force simp: runs_def triple_def key_def arrow_def ret_def modifyM_def term_ok_def pending_input_def read_byte_def
      split: list.split)+

lemma runs_cases:
  "(b \<Longrightarrow> runs n m) \<Longrightarrow> (\<not> b \<Longrightarrow> runs n m') \<Longrightarrow> runs n (if b then m else m')"
  "runs n m \<Longrightarrow> (\<And>y. runs n (f y)) \<Longrightarrow> runs n (case x of None \<Rightarrow> m | Some y \<Rightarrow> f y)"
  by (auto split: option.split)

lemma console_keys_ok:
  assumes "console_ok c"
  shows "console_ok (ServerCLI_hookEscape c)" "console_ok (ServerCLI_hookBackspace c)" "console_ok (ServerCLI_hookInputChar b c)"
    and "\<exists>c'. ServerCLI_hookArrowUp c = Inr c' \<and> console_ok c'" "\<exists>c'. ServerCLI_hookArrowDown c = Inr c' \<and> console_ok c'"
  using assms
  by (auto simp: console_ok_def cli_ok_def ServerCLI_hookEscape_def ServerCLI_hookBackspace_def ServerCLI_hookInputChar_def
      ServerCLI_hookArrowUp_def ServerCLI_hookArrowDown_def show_entry_def Let_def)

lemma handleByteLinux_runs:
  assumes "DbEnv_ok (dbenv E)"
  shows "runs n (handleByteLinux E now scripts b)"
proof -
  have "runs n (enter E now scripts)"
    using hookEnter_ok [OF assms, of now scripts]
    by (fastforce simp: runs_def triple_def enter_def term_ok_def pending_input_def split: prod.splits sum.splits)
  then show ?thesis
    unfolding handleByteLinux_def by (intro runs_bindM runs_cases runs_keys console_keys_ok)
qed

lemma read_piece_less:
  assumes "stdin t \<noteq> []"
  obtains s t1 where "read_piece t = (Inr s, t1)" "console t1 = console t" "pending_input t1 < pending_input t"
proof (cases "stdin t")
  case (Cons c cs)
  then show ?thesis using that by (cases "length c \<le> 64") (auto simp: read_piece_def pending_input_def)
qed (use assms in simp)

lemma linux_round_run:
  assumes "DbEnv_ok (dbenv E)" and "stdin t \<noteq> []" and "console_ok (console t)"
  shows "case linux_round E now scripts t of (Inl e, t') \<Rightarrow> fails e t'
     | (Inr _, t') \<Rightarrow> console_ok (console t') \<and> pending_input t' < pending_input t"
proof -
  obtain s t1 where p: "read_piece t = (Inr s, t1)" "console t1 = console t" "pending_input t1 < pending_input t"
    using read_piece_less [OF assms(2)] by blast
  have "runs (pending_input t1) (forEach (handleByteLinux E now scripts) s)"
    by (intro runs_forEach handleByteLinux_runs [OF assms(1)])
  then show ?thesis
    using p assms(3) by (fastforce simp: runs_def triple_def term_ok_def linux_round_def bindM_def split: prod.splits sum.splits)
qed

lemma round_keeps_mode: "keeps tty_mode (linux_round E now scripts)"
proof -
  have r: "keeps tty_mode read_byte" "keeps tty_mode read_piece" "keeps tty_mode (key f)" "keeps tty_mode (arrow g)"
    "keeps tty_mode (enter E now scripts)" for f g
    by (auto simp: keeps_def read_byte_def read_piece_def key_def modifyM_def arrow_def enter_def split: list.split sum.split prod.split)
  show ?thesis unfolding linux_round_def handleByteLinux_def by (intro frames r)
qed

lemma ServerCLI_loop_ends:
  assumes "DbEnv_ok (dbenv E)" and "console_ok (console t)"
  shows "\<exists>r t'. ServerCLI_loop E now scripts t = Some (r, t') \<and> tty_mode t' = tty_mode t \<and>
     (case r of Inr _ \<Rightarrow> console_ok (console t') \<and> (\<not> cli_running (console t') \<or> stdin t' = [])
      | Inl e \<Rightarrow> e = undefined_behaviour \<and> blank_entered (console t'))"
  using assms(2)
proof (induction "pending_input t" arbitrary: t rule: less_induct)
  case less
  show ?case
  proof (cases "\<not> cli_running (console t) \<or> stdin t = []")
    case True
    then show ?thesis using less.prems by (subst ServerCLI_loop.simps) auto
  next
    case False
    obtain r t1 where r: "linux_round E now scripts t = (r, t1)" by fastforce
    have m: "tty_mode t1 = tty_mode t" using keepsD [OF round_keeps_mode, of E now scripts t] r by simp
    show ?thesis
    proof (cases r)
      case (Inl e)
      then show ?thesis
        using False linux_round_run [OF assms(1) _ less.prems, of now scripts] r m by (subst ServerCLI_loop.simps) auto
    next
      case (Inr u)
      then have "console_ok (console t1)" "pending_input t1 < pending_input t"
        using False linux_round_run [OF assms(1) _ less.prems, of now scripts] r by auto
      moreover have "ServerCLI_loop E now scripts t = ServerCLI_loop E now scripts t1"
        using False r Inr by (subst ServerCLI_loop.simps) simp
      ultimately show ?thesis using less.hyps [of t1] m by simp
    qed
  qed
qed


definition Console_demo :: Console where
  "Console_demo = \<lparr>inputBuffer = [], cli_running = True, cli_commandHistory = [''/help''], historyIndex = - 1,
     historyDraft = [], logged = [], server = Server_demo\<rparr>"

definition Terminal_demo :: "cstring list \<Rightarrow> Terminal" where
  "Terminal_demo input = \<lparr>console = Console_demo, stdin = input,
     tty_mode = \<lparr>c_iflag = 0x500, c_oflag = 5, c_cflag = 0xBF, c_lflag = 0x8A3B, cc_VMIN = 1, cc_VTIME = 0\<rparr>\<rparr>"


text \<open>
  In raw mode the terminal echoes nothing, delivers single bytes, and makes no signal of Ctrl-C, whose
  byte the console ignores.
\<close>

lemma raw_mode_flags:
  "c_lflag (raw_mode m) AND (ECHO OR ICANON OR ISIG) = 0" "c_oflag (raw_mode m) AND OPOST = 0"
  "c_cflag (raw_mode m) AND CS8 = CS8" "raw_mode (raw_mode m) = raw_mode m"
proof -
  show "c_lflag (raw_mode m) AND (ECHO OR ICANON OR ISIG) = 0" "c_oflag (raw_mode m) AND OPOST = 0"
    "c_cflag (raw_mode m) AND CS8 = CS8"
    by (rule bit_eqI; auto simp: raw_mode_def bit_simps)+
  have "x AND NOT y AND NOT y = x AND NOT y" "(x OR y) OR y = x OR y" for x y :: u32 by (simp_all add: ac_simps)
  then show "raw_mode (raw_mode m) = raw_mode m" by (simp add: raw_mode_def)
qed

lemma control_c_ignored: "stdin t = [[CHR 0x03]] \<Longrightarrow> linux_round E now scripts t = (Inr (), t\<lparr>stdin := []\<rparr>)"
  by (simp add: linux_round_def bindM_def read_piece_def handleByteLinux_def thenM_def ret_def ESC_def)

text \<open>
  An arrow key is three bytes that a terminal sends at once. The loop reads them in one piece; the
  handler looks for the second at the terminal, finds none, and takes the key for Escape: the line is
  cleared, the other two bytes are typed into it, and the history is not shown.
\<close>

theorem arrow_key_is_typed:
  assumes "stdin t = [[ESC, CHR ''['', CHR ''A'']]"
  shows "\<exists>t'. linux_round E now scripts t = (Inr (), t') \<and> inputBuffer (console t') = ''[A'' \<and>
     cli_commandHistory (console t') = cli_commandHistory (console t) \<and> historyIndex (console t') = - 1"
  by (simp add: assms linux_round_def bindM_def read_piece_def handleByteLinux_def read_byte_def thenM_def key_def modifyM_def
      ServerCLI_hookEscape_def ServerCLI_hookInputChar_def ret_def ESC_def)

end
