(* ===== verification/Ini.thy ===== *)
theory Ini
  imports Prelude
begin

text \<open>
  \<open>TeleCrap.Server/include/ini.h\<close>, the reader and writer of the settings files: strings, the ordered
  map with its index, the line parser, the reader, the generator and the lazy writer. A file is its
  bytes; \<open>endl\<close> is that of the POSIX branch.
\<close>

section \<open>Strings\<close>

definition isws :: "char \<Rightarrow> bool" where
  "isws c \<longleftrightarrow> c \<in> {CHR '' '', CHR 0x09, CHR 0x0A, CHR 0x0D, CHR 0x0C, CHR 0x0B}"

definition trim :: "cstring \<Rightarrow> cstring" where
  "trim str = (let str = rev (dropWhile isws (rev str)) in dropWhile isws str)"

text \<open>\<open>std::tolower\<close> in the C locale.\<close>

definition tolower :: "char \<Rightarrow> char" where
  "tolower c = (let n = (of_char c :: nat) in if 65 \<le> n \<and> n \<le> 90 then char_of (n + 32) else c)"

definition toLower :: "cstring \<Rightarrow> cstring" where
  "toLower str = map tolower str"

text \<open>\<open>std::string::find\<close>: the first position from \<open>pos\<close> on where the needle stands.\<close>

fun str_find :: "cstring \<Rightarrow> cstring \<Rightarrow> nat \<Rightarrow> nat option" where
  "str_find a str pos = (if pos > length str then None
     else List.find (\<lambda>p. take (length a) (drop p str) = a) [pos..<Suc (length str)])"

declare str_find.simps [simp del]

lemma str_find_Some:
  assumes "str_find a str pos = Some p"
  shows "pos \<le> p" and "p + length a \<le> length str" and "take (length a) (drop p str) = a"
proof -
  show "pos \<le> p" and *: "take (length a) (drop p str) = a"
    using assms by (auto simp: str_find.simps dest!: find_SomeD split: if_splits)
  have "p \<le> length str"
    using assms by (auto simp: str_find.simps dest!: find_SomeD split: if_splits)
  then show "p + length a \<le> length str"
    using arg_cong [OF *, of length] by simp
qed

function replaceLoop :: "cstring \<Rightarrow> cstring \<Rightarrow> cstring \<Rightarrow> nat \<Rightarrow> cstring" where
  "replaceLoop a b str pos =
     (if a = [] then str
      else case str_find a str pos of
        None \<Rightarrow> str
      | Some p \<Rightarrow> replaceLoop a b (take p str @ b @ drop (p + length a) str) (p + length b))"
  by pat_completeness auto
termination
proof (relation "measure (\<lambda>(a, b, str, pos). length str - pos)")
  fix a b str :: cstring and pos p
  assume "a \<noteq> []" and p: "str_find a str pos = Some p"
  then show "((a, b, take p str @ b @ drop (p + length a) str, p + length b), a, b, str, pos)
     \<in> measure (\<lambda>(a, b, str, pos). length str - pos)"
    using str_find_Some [OF p] by (cases a) auto
qed simp

declare replaceLoop.simps [simp del]

definition replace :: "cstring \<Rightarrow> cstring \<Rightarrow> cstring \<Rightarrow> cstring" where
  "replace str a b = replaceLoop a b str 0"

text \<open>What \<open>replace\<close> is for: every occurrence from left to right, without overlap.\<close>

function replace_all :: "cstring \<Rightarrow> cstring \<Rightarrow> cstring \<Rightarrow> cstring" where
  "replace_all a b [] = []"
| "replace_all a b (c # s) =
     (if a \<noteq> [] \<and> take (length a) (c # s) = a then b @ replace_all a b (drop (length a) (c # s))
      else c # replace_all a b s)"
  by pat_completeness auto
termination
  by (relation "measure (\<lambda>(a, b, s). length s)") (auto simp: neq_Nil_conv)

lemma str_find_step:
  "str_find a (pre @ s) (length pre) = (if take (length a) s = a then Some (length pre)
     else case s of [] \<Rightarrow> None | c # s' \<Rightarrow> str_find a (pre @ [c] @ s') (length (pre @ [c])))"
proof -
  have "[length pre..<Suc (length (pre @ s))] = length pre # [Suc (length pre)..<Suc (length (pre @ s))]"
    by (rule upt_conv_Cons) simp
  then show ?thesis
    by (cases s) (auto simp: str_find.simps upt_conv_Cons)
qed

lemma replaceLoop_all: "a \<noteq> [] \<Longrightarrow> replaceLoop a b (pre @ s) (length pre) = pre @ replace_all a b s"
proof (induction "length s" arbitrary: pre s rule: less_induct)
  case less
  show ?case
  proof (cases s)
    case Nil
    then show ?thesis
      using less.prems by (subst replaceLoop.simps) (simp add: str_find_step [of a pre "[]"] del: append_Nil2)
  next
    case (Cons c s')
    show ?thesis
    proof (cases "take (length a) s = a")
      case True
      have "replaceLoop a b (pre @ s) (length pre) =
          replaceLoop a b ((pre @ b) @ drop (length a) s) (length (pre @ b))"
        using True less.prems by (subst replaceLoop.simps) (simp add: str_find_step)
      also have "\<dots> = (pre @ b) @ replace_all a b (drop (length a) s)"
        using less.prems Cons by (intro less.hyps) (auto simp: neq_Nil_conv)
      finally show ?thesis using True Cons less.prems by simp
    next
      case False
      have "replaceLoop a b (pre @ s) (length pre) = replaceLoop a b (pre @ c # s') (Suc (length pre))"
        using False less.prems unfolding Cons
        by (subst (1 2) replaceLoop.simps) (simp add: str_find_step [of a pre "c # s'"])
      also have "\<dots> = replaceLoop a b ((pre @ [c]) @ s') (length (pre @ [c]))" by simp
      also have "\<dots> = (pre @ [c]) @ replace_all a b s'"
        using less.prems Cons by (intro less.hyps) auto
      finally show ?thesis using False Cons by simp
    qed
  qed
qed

text \<open>
  The loop of \<open>replace\<close>, which searches from a moving position in the string it is changing, ends
  on every input and replaces every non-overlapping occurrence from left to right, once, leaving what
  it put in alone even where that contains the needle.
\<close>

theorem replace_equivalent: "replace str a b = (if a = [] then str else replace_all a b str)"
  using replaceLoop_all [of a b "[]" str] by (simp add: replace_def replaceLoop.simps)

section \<open>The ordered map\<close>

record 'a INIMap =
  dataIndexMap :: "cstring \<rightharpoonup> nat"
  inidata :: "(cstring \<times> 'a) list"

definition norm_key :: "cstring \<Rightarrow> cstring" where
  "norm_key key = toLower (trim key)"

definition INIMap_new :: "'a INIMap" where
  "INIMap_new = \<lparr>dataIndexMap = Map.empty, inidata = []\<rparr>"

text \<open>\<open>T()\<close> is a parameter, the empty string or the empty map.\<close>

definition setEmpty :: "'a \<Rightarrow> cstring \<Rightarrow> 'a INIMap \<Rightarrow> nat \<times> 'a INIMap" where
  "setEmpty T key m =
     (let index = length (inidata m) in
      (index, m\<lparr>dataIndexMap := (dataIndexMap m)(key \<mapsto> index), inidata := inidata m @ [(key, T)]\<rparr>))"

text \<open>
  \<open>operator[]\<close> gives a reference: the position in \<open>data\<close>. An assignment through it, or the use of
  the object it names, is \<open>ini_modify\<close>.
\<close>

definition ini_at :: "'a \<Rightarrow> cstring \<Rightarrow> 'a INIMap \<Rightarrow> nat \<times> 'a INIMap" where
  "ini_at T key m =
     (let key = norm_key key in
      case dataIndexMap m key of Some index \<Rightarrow> (index, m) | None \<Rightarrow> setEmpty T key m)"

definition ini_modify :: "'a \<Rightarrow> cstring \<Rightarrow> ('a \<Rightarrow> 'a) \<Rightarrow> 'a INIMap \<Rightarrow> 'a INIMap" where
  "ini_modify T key f m =
     (let (index, m) = ini_at T key m
      in m\<lparr>inidata := (inidata m)[index := (fst (inidata m ! index), f (snd (inidata m ! index)))]\<rparr>)"

definition ini_get :: "'a \<Rightarrow> cstring \<Rightarrow> 'a INIMap \<Rightarrow> 'a" where
  "ini_get T key m =
     (let key = norm_key key in
      case dataIndexMap m key of None \<Rightarrow> T | Some index \<Rightarrow> snd (inidata m ! index))"

definition ini_has :: "cstring \<Rightarrow> 'a INIMap \<Rightarrow> bool" where
  "ini_has key m = (dataIndexMap m (norm_key key) \<noteq> None)"

definition ini_set :: "cstring \<Rightarrow> 'a \<Rightarrow> 'a INIMap \<Rightarrow> 'a INIMap" where
  "ini_set key obj m =
     (let key = norm_key key in
      case dataIndexMap m key of
        Some index \<Rightarrow> m\<lparr>inidata := (inidata m)[index := (fst (inidata m ! index), obj)]\<rparr>
      | None \<Rightarrow> m\<lparr>dataIndexMap := (dataIndexMap m)(key \<mapsto> length (inidata m)),
                  inidata := inidata m @ [(key, obj)]\<rparr>)"

definition ini_setMulti :: "(cstring \<times> 'a) list \<Rightarrow> 'a INIMap \<Rightarrow> 'a INIMap" where
  "ini_setMulti multiArgs m = foldl (\<lambda>m (key, obj). ini_set key obj m) m multiArgs"

definition ini_remove :: "cstring \<Rightarrow> 'a INIMap \<Rightarrow> bool \<times> 'a INIMap" where
  "ini_remove key m =
     (let key = norm_key key in
      case dataIndexMap m key of
        None \<Rightarrow> (False, m)
      | Some index \<Rightarrow> (True, m\<lparr>
          inidata := take index (inidata m) @ drop (Suc index) (inidata m),
          dataIndexMap := (\<lambda>k. map_option (\<lambda>vi. if vi > index then vi - 1 else vi)
                                 (((dataIndexMap m)(key := None)) k))\<rparr>))"

definition ini_clear :: "'a INIMap \<Rightarrow> 'a INIMap" where
  "ini_clear m = m\<lparr>inidata := [], dataIndexMap := Map.empty\<rparr>"

definition ini_size :: "'a INIMap \<Rightarrow> nat" where
  "ini_size m = length (inidata m)"

text \<open>
  The index tells exactly where each key stands, so no access to \<open>data\<close> is out of range, and the keys
  are distinct and in normal form.
\<close>

definition INIMap_ok :: "'a INIMap \<Rightarrow> bool" where
  "INIMap_ok m \<longleftrightarrow> (\<forall>k i. dataIndexMap m k = Some i \<longleftrightarrow> i < length (inidata m) \<and> fst (inidata m ! i) = k) \<and>
     (\<forall>k\<in>fst ` set (inidata m). norm_key k = k)"

lemma trim_strip: "trim s = strip isws s"
proof (cases "\<forall>c\<in>set s. isws c")
  case True
  then have "dropWhile isws s = []" "dropWhile isws (rev s) = []" by (simp_all add: dropWhile_eq_Nil_conv)
  then show ?thesis by (simp add: trim_def strip_def del: dropWhile_eq_Nil_conv)
next
  case False
  then obtain x where x: "x \<in> set s" "\<not> isws x" by blast
  then obtain u v where "s = u @ x # v" by (meson split_list)
  then show ?thesis
    using x by (simp add: trim_def strip_def dropWhile_append)
qed

lemma trim_trim [simp]: "trim (trim s) = trim s"
  by (simp add: trim_strip)

lemma set_trim: "set (trim s) \<subseteq> set s"
  unfolding trim_strip by (rule set_strip)

lemma tolower_tolower [simp]: "tolower (tolower c) = tolower c"
proof -
  have "of_char c < (256::nat)" by simp
  then show ?thesis by (auto simp: tolower_def Let_def)
qed

lemma isws_tolower [simp]: "isws (tolower c) = isws c"
proof (cases "65 \<le> (of_char c :: nat) \<and> (of_char c :: nat) \<le> 90")
  case True
  have "isws c \<longleftrightarrow> (of_char c :: nat) \<in> {32, 9, 10, 13, 12, 11}" for c
  proof -
    have "c = d \<longleftrightarrow> (of_char c :: nat) = of_char d" for d by (simp add: of_char_eq_iff)
    then show ?thesis unfolding isws_def by (simp only: insert_iff empty_iff) simp
  qed
  with True show ?thesis by (simp add: tolower_def)
next
  case False
  then show ?thesis by (simp only: tolower_def Let_def) simp
qed

lemma trim_toLower: "trim (toLower s) = toLower (trim s)"
  by (simp add: trim_def toLower_def rev_map dropWhile_map o_def Let_def)

lemma norm_key_norm_key [simp]: "norm_key (norm_key k) = norm_key k"
  by (simp add: norm_key_def trim_toLower) (simp add: toLower_def o_def)

lemma norm_key_trim: "norm_key k = k \<Longrightarrow> trim k = k"
  by (metis norm_key_def trim_toLower trim_trim)

lemma map_of_update_nth:
  "distinct (map fst xs) \<Longrightarrow> i < length xs \<Longrightarrow>
   map_of (xs[i := (fst (xs ! i), v)]) = (map_of xs)(fst (xs ! i) \<mapsto> v)"
proof (induction xs arbitrary: i)
  case (Cons x xs)
  then show ?case
    by (cases i; cases x) (auto simp: fun_eq_iff dest: nth_mem)
qed simp

lemma map_of_delete_nth:
  "distinct (map fst xs) \<Longrightarrow> i < length xs \<Longrightarrow>
   map_of (take i xs @ drop (Suc i) xs) = (map_of xs)(fst (xs ! i) := None)"
proof (induction xs arbitrary: i)
  case (Cons x xs)
  then show ?case
    by (cases i; cases x) (auto simp: fun_eq_iff map_of_eq_None_iff dest: nth_mem)
qed simp

definition ini_abs :: "'a INIMap \<Rightarrow> cstring \<rightharpoonup> 'a" where
  "ini_abs m = map_of (inidata m)"

definition ini_keys :: "'a INIMap \<Rightarrow> cstring list" where
  "ini_keys m = map fst (inidata m)"

lemma ok_distinct: "INIMap_ok m \<Longrightarrow> distinct (ini_keys m)"
proof -
  assume ok: "INIMap_ok m"
  have "dataIndexMap m (fst (inidata m ! i)) = Some i" if "i < length (inidata m)" for i
    using ok that by (simp add: INIMap_ok_def)
  then have "i = j" if "i < length (inidata m)" "j < length (inidata m)"
      "fst (inidata m ! i) = fst (inidata m ! j)" for i j
    using that by (metis option.inject)
  then show ?thesis by (auto simp: ini_keys_def distinct_conv_nth)
qed

lemma ok_index:
  assumes "INIMap_ok m"
  shows "dataIndexMap m k = None \<longleftrightarrow> k \<notin> set (ini_keys m)"
    and "dataIndexMap m k = Some i \<Longrightarrow> i < length (inidata m) \<and> fst (inidata m ! i) = k \<and>
      ini_abs m k = Some (snd (inidata m ! i))"
proof -
  have iff: "dataIndexMap m k = Some i \<longleftrightarrow> i < length (inidata m) \<and> fst (inidata m ! i) = k" for k i
    using assms by (simp add: INIMap_ok_def)
  show "dataIndexMap m k = None \<longleftrightarrow> k \<notin> set (ini_keys m)"
  proof (cases "dataIndexMap m k")
    case None
    then show ?thesis using iff [of k] by (fastforce simp: ini_keys_def in_set_conv_nth)
  next
    case (Some i)
    then show ?thesis using iff [of k i] by (auto simp: ini_keys_def)
  qed
  show "dataIndexMap m k = Some i \<Longrightarrow> i < length (inidata m) \<and> fst (inidata m ! i) = k \<and>
      ini_abs m k = Some (snd (inidata m ! i))"
    using iff [of k i] ok_distinct [OF assms] by (auto simp: ini_abs_def ini_keys_def)
qed

lemma append_ok:
  assumes "INIMap_ok m" and "dataIndexMap m k = None" and "norm_key k = k"
  shows "INIMap_ok (m\<lparr>dataIndexMap := (dataIndexMap m)(k \<mapsto> length (inidata m)), inidata := inidata m @ [(k, v)]\<rparr>)"
  using assms ok_index(1) [OF assms(1), of k] unfolding INIMap_ok_def
  by (auto simp: nth_append ini_keys_def less_Suc_eq)

lemma map_fst_update: "map fst (xs[i := (fst (xs ! i), v)]) = map fst xs"
  by (cases "i < length xs") (auto simp: list_eq_iff_nth_eq nth_list_update)

lemma update_ok: "INIMap_ok m \<Longrightarrow> INIMap_ok (m\<lparr>inidata := (inidata m)[i := (fst (inidata m ! i), v)]\<rparr>)"
proof -
  have *: "fst ((inidata m)[i := (fst (inidata m ! i), v)] ! j) = fst (inidata m ! j)" if "j < length (inidata m)" for j
    using that by (cases "j = i") auto
  show "INIMap_ok m \<Longrightarrow> ?thesis"
    unfolding INIMap_ok_def set_map [symmetric] by (auto simp: map_fst_update * simp del: set_map)
qed

lemma ini_at_Some: "dataIndexMap m (norm_key key) = Some i \<Longrightarrow> ini_at T key m = (i, m)"
  and ini_at_None: "dataIndexMap m (norm_key key) = None \<Longrightarrow> ini_at T key m = (length (inidata m),
     m\<lparr>dataIndexMap := (dataIndexMap m)(norm_key key \<mapsto> length (inidata m)), inidata := inidata m @ [(norm_key key, T)]\<rparr>)"
  by (simp_all add: ini_at_def setEmpty_def Let_def)

lemma ini_modify_spec:
  assumes "INIMap_ok m"
  shows "INIMap_ok (ini_modify T key f m)"
    and "ini_abs (ini_modify T key f m) =
      (ini_abs m)(norm_key key \<mapsto> f (case ini_abs m (norm_key key) of None \<Rightarrow> T | Some v \<Rightarrow> v))"
    and "ini_keys (ini_modify T key f m) =
      (if norm_key key \<in> set (ini_keys m) then ini_keys m else ini_keys m @ [norm_key key])"
proof -
  let ?k = "norm_key key"
  have "INIMap_ok (ini_modify T key f m) \<and> ini_abs (ini_modify T key f m) =
      (ini_abs m)(?k \<mapsto> f (case ini_abs m ?k of None \<Rightarrow> T | Some v \<Rightarrow> v)) \<and>
    ini_keys (ini_modify T key f m) = (if ?k \<in> set (ini_keys m) then ini_keys m else ini_keys m @ [?k])"
  proof (cases "dataIndexMap m ?k")
    case None
    then have k: "?k \<notin> set (ini_keys m)" by (simp add: ok_index(1) [OF assms])
    then have "map_of (inidata m) ?k = None" by (simp add: ini_keys_def map_of_eq_None_iff)
    then show ?thesis
      using k append_ok [OF assms None] map_of_append [of "inidata m" "[(?k, f T)]"]
      by (auto simp: ini_modify_def ini_at_None [OF None] ini_abs_def ini_keys_def fun_eq_iff map_add_def
          split: option.splits)
  next
    case (Some i)
    then have k: "?k \<in> set (ini_keys m)" using ok_index(1) [OF assms, of ?k] by simp
    note i = ok_index(2) [OF assms Some]
    let ?v = "f (snd (inidata m ! i))"
    have run: "ini_modify T key f m = m\<lparr>inidata := (inidata m)[i := (fst (inidata m ! i), ?v)]\<rparr>"
      by (simp add: ini_modify_def ini_at_Some [OF Some])
    have "ini_abs (ini_modify T key f m) = (ini_abs m)(?k \<mapsto> ?v)"
      using map_of_update_nth [of "inidata m" i ?v] i ok_distinct [OF assms]
      by (simp add: run ini_abs_def ini_keys_def)
    moreover have "INIMap_ok (ini_modify T key f m)" "ini_keys (ini_modify T key f m) = ini_keys m"
      unfolding run using update_ok [OF assms] by (simp_all add: ini_keys_def map_fst_update)
    ultimately show ?thesis using i k by simp
  qed
  then show "INIMap_ok (ini_modify T key f m)"
    and "ini_abs (ini_modify T key f m) =
      (ini_abs m)(?k \<mapsto> f (case ini_abs m ?k of None \<Rightarrow> T | Some v \<Rightarrow> v))"
    and "ini_keys (ini_modify T key f m) =
      (if ?k \<in> set (ini_keys m) then ini_keys m else ini_keys m @ [?k])"
    by blast+
qed

lemma ini_set_modify: "ini_set key v m = ini_modify v key (\<lambda>_. v) m"
  by (simp add: ini_set_def ini_modify_def ini_at_def setEmpty_def Let_def split: option.splits)

lemma ini_get_abs:
  assumes "INIMap_ok m"
  shows "ini_get T key m = (case ini_abs m (norm_key key) of None \<Rightarrow> T | Some v \<Rightarrow> v)"
proof (cases "dataIndexMap m (norm_key key)")
  case None
  then have "ini_abs m (norm_key key) = None"
    by (simp add: ok_index(1) [OF assms] ini_abs_def ini_keys_def map_of_eq_None_iff)
  with None show ?thesis by (simp add: ini_get_def)
next
  case (Some i)
  then show ?thesis using ok_index(2) [OF assms Some] by (simp add: ini_get_def)
qed

lemma ini_has_abs: "INIMap_ok m \<Longrightarrow> ini_has key m = (norm_key key \<in> dom (ini_abs m))"
  by (simp add: ini_has_def ok_index(1) ini_abs_def ini_keys_def dom_map_of_conv_image_fst)

lemma nth_delete: "j < length xs - 1 \<Longrightarrow> i < length xs \<Longrightarrow>
  (take i xs @ drop (Suc i) xs) ! j = xs ! (if j < i then j else Suc j)"
  by (simp add: nth_append)

lemma ini_remove_ok:
  assumes ok: "INIMap_ok m"
  shows "INIMap_ok (snd (ini_remove key m))"
proof (cases "dataIndexMap m (norm_key key)")
  case None
  then show ?thesis using ok by (simp add: ini_remove_def)
next
  case (Some i)
  let ?xs = "inidata m" and ?m = "snd (ini_remove key m)"
  note i = ok_index(2) [OF ok Some]
  have iff: "dataIndexMap m k = Some j \<longleftrightarrow> j < length ?xs \<and> fst (?xs ! j) = k" for k j
    using ok by (simp add: INIMap_ok_def)
  have ne: "k \<noteq> norm_key key \<longleftrightarrow> v \<noteq> i" if "v < length ?xs" "fst (?xs ! v) = k" for v k
    using iff [of k v] Some that i by auto
  have d: "inidata ?m = take i ?xs @ drop (Suc i) ?xs"
    and x: "dataIndexMap ?m k = map_option (\<lambda>vi. if vi > i then vi - 1 else vi)
      (if k = norm_key key then None else dataIndexMap m k)" for k
    using Some by (simp_all add: ini_remove_def)
  have len: "length (inidata ?m) = length ?xs - 1" using i by (simp add: d)
  have "dataIndexMap ?m k = Some j \<longleftrightarrow> j < length (inidata ?m) \<and> fst (inidata ?m ! j) = k" for k j
  proof -
    have "dataIndexMap ?m k = Some j \<longleftrightarrow> k \<noteq> norm_key key \<and>
        (\<exists>v. dataIndexMap m k = Some v \<and> (if v > i then v - 1 else v) = j)"
      by (auto simp: x)
    also have "\<dots> \<longleftrightarrow> (\<exists>v<length ?xs. fst (?xs ! v) = k \<and> v \<noteq> i \<and> (if v > i then v - 1 else v) = j)"
      unfolding iff using ne by blast
    also have "\<dots> \<longleftrightarrow> j < length ?xs - 1 \<and> fst (?xs ! (if j < i then j else Suc j)) = k"
      (is "?L = ?R")
    proof
      assume ?L
      then obtain v where v: "v < length ?xs" "fst (?xs ! v) = k" "v \<noteq> i" "(if v > i then v - 1 else v) = j" by blast
      show ?R by (cases "v > i") (use v i in auto)
    next
      assume ?R
      then show ?L using i by (intro exI [of _ "if j < i then j else Suc j"]) auto
    qed
    also have "\<dots> \<longleftrightarrow> j < length (inidata ?m) \<and> fst (inidata ?m ! j) = k"
      unfolding len unfolding d using nth_delete [of j ?xs i] i by (metis (no_types, lifting))
    finally show ?thesis .
  qed
  moreover have "set (inidata ?m) \<subseteq> set ?xs" unfolding d by (auto dest: in_set_takeD in_set_dropD)
  ultimately show ?thesis using ok by (force simp: INIMap_ok_def)
qed

lemma filter_delete:
  "distinct (map f xs) \<Longrightarrow> i < length xs \<Longrightarrow>
   map f (take i xs @ drop (Suc i) xs) = filter (\<lambda>k. k \<noteq> f (xs ! i)) (map f xs)"
proof (induction xs arbitrary: i)
  case (Cons x xs)
  show ?case
  proof (cases i)
    case 0
    then show ?thesis using Cons.prems by (auto intro!: filter_True [symmetric])
  next
    case (Suc j)
    then show ?thesis using Cons.prems Cons.IH [of j] by (auto dest: nth_mem)
  qed
qed simp

lemma ini_remove_spec:
  assumes ok: "INIMap_ok m"
  shows "ini_abs (snd (ini_remove key m)) = (ini_abs m)(norm_key key := None)"
    and "fst (ini_remove key m) \<longleftrightarrow> ini_has key m"
    and "ini_keys (snd (ini_remove key m)) = filter (\<lambda>k. k \<noteq> norm_key key) (ini_keys m)"
proof -
  show "fst (ini_remove key m) \<longleftrightarrow> ini_has key m"
    by (simp add: ini_remove_def ini_has_def Let_def split: option.splits)
  have "ini_abs (snd (ini_remove key m)) = (ini_abs m)(norm_key key := None) \<and>
     ini_keys (snd (ini_remove key m)) = filter (\<lambda>k. k \<noteq> norm_key key) (ini_keys m)"
  proof (cases "dataIndexMap m (norm_key key)")
    case None
    then have "norm_key key \<notin> set (ini_keys m)" by (simp add: ok_index(1) [OF ok])
    moreover from this have "ini_abs m (norm_key key) = None"
      by (simp add: ini_abs_def ini_keys_def map_of_eq_None_iff)
    ultimately show ?thesis
      using None by (auto simp: ini_remove_def fun_upd_idem intro!: filter_True [symmetric])
  next
    case (Some i)
    then show ?thesis
      using ok_index(2) [OF ok Some] ok_distinct [OF ok]
        map_of_delete_nth [of "inidata m" i] filter_delete [of fst "inidata m" i]
      by (simp add: ini_remove_def ini_abs_def ini_keys_def)
  qed
  then show "ini_abs (snd (ini_remove key m)) = (ini_abs m)(norm_key key := None)"
    and "ini_keys (snd (ini_remove key m)) = filter (\<lambda>k. k \<noteq> norm_key key) (ini_keys m)" by blast+
qed

text \<open>
  What a client of the map relies on: a partial function on normalised keys, with the keys in the
  order they were first set.
\<close>

locale string_dict =
  fixes ok :: "'m \<Rightarrow> bool" and abs :: "'m \<Rightarrow> cstring \<rightharpoonup> 'v" and keys :: "'m \<Rightarrow> cstring list"
    and put :: "cstring \<Rightarrow> 'v \<Rightarrow> 'm \<Rightarrow> 'm" and norm :: "cstring \<Rightarrow> cstring"
  assumes keys_abs: "ok m \<Longrightarrow> distinct (keys m) \<and> set (keys m) = dom (abs m)"
    and put_ok: "ok m \<Longrightarrow> ok (put k v m)"
    and put_abs: "ok m \<Longrightarrow> abs (put k v m) = (abs m)(norm k \<mapsto> v)"
    and put_keys: "ok m \<Longrightarrow> keys (put k v m) = (if norm k \<in> set (keys m) then keys m else keys m @ [norm k])"
begin

lemma put_many_ok: "ok m \<Longrightarrow> ok (foldl (\<lambda>m (k, v). put k v m) m kvs)"
  by (induction kvs arbitrary: m) (auto intro: put_ok)

lemma put_many_abs:
  "ok m \<Longrightarrow> abs (foldl (\<lambda>m (k, v). put k v m) m kvs) = abs m ++ map_of (rev (map (\<lambda>(k, v). (norm k, v)) kvs))"
proof (induction kvs arbitrary: m)
  case (Cons kv kvs)
  then show ?case by (cases kv) (auto simp: put_ok put_abs fun_eq_iff map_add_def split: option.splits)
qed simp

lemma put_many_keys: "ok m \<Longrightarrow> \<exists>ks. keys (foldl (\<lambda>m (k, v). put k v m) m kvs) = keys m @ ks"
proof (induction kvs arbitrary: m)
  case (Cons kv kvs)
  obtain k v where kv: "kv = (k, v)" by force
  from Cons.IH [OF put_ok [OF Cons.prems]] obtain ks
    where "keys (foldl (\<lambda>m (k, v). put k v m) (put k v m) kvs) = keys (put k v m) @ ks" by blast
  then show ?case by (simp add: kv put_keys [OF Cons.prems])
qed simp

end

lemma ini_keys_abs: "INIMap_ok m \<Longrightarrow> distinct (ini_keys m) \<and> set (ini_keys m) = dom (ini_abs m)"
  by (simp add: ok_distinct) (simp add: ini_keys_def ini_abs_def dom_map_of_conv_image_fst)

interpretation ini: string_dict INIMap_ok ini_abs ini_keys ini_set norm_key
  by unfold_locales (simp_all add: ini_keys_abs ini_set_modify ini_modify_spec)

lemma INIMap_new_ok [simp]: "INIMap_ok INIMap_new" "ini_abs INIMap_new = Map.empty" "ini_keys INIMap_new = []"
  by (simp_all add: INIMap_ok_def INIMap_new_def ini_abs_def ini_keys_def)

text \<open>
  C25. The vector with its hash index implements a map from trimmed, lower-case keys to values that
  keeps the order of insertion: every operation does on the pair of them what it says on the map, and
  keeps the index right, so that no position it gives is out of range.
\<close>

theorem ini_map_refines:
  assumes "INIMap_ok m"
  shows "(INIMap_ok (ini_set k v m) \<and> ini_abs (ini_set k v m) = (ini_abs m)(norm_key k \<mapsto> v)) \<and>
     (INIMap_ok (snd (ini_remove k m)) \<and> ini_abs (snd (ini_remove k m)) = (ini_abs m)(norm_key k := None) \<and>
      ini_keys (snd (ini_remove k m)) = filter (\<lambda>x. x \<noteq> norm_key k) (ini_keys m) \<and>
      (fst (ini_remove k m) \<longleftrightarrow> norm_key k \<in> dom (ini_abs m))) \<and>
     (INIMap_ok (ini_setMulti kvs m) \<and> (\<exists>ks. ini_keys (ini_setMulti kvs m) = ini_keys m @ ks) \<and>
      ini_abs (ini_setMulti kvs m) = ini_abs m ++ map_of (rev (map (\<lambda>(k, v). (norm_key k, v)) kvs))) \<and>
     ini_get T k m = (case ini_abs m (norm_key k) of None \<Rightarrow> T | Some v \<Rightarrow> v) \<and>
     (ini_has k m \<longleftrightarrow> norm_key k \<in> dom (ini_abs m)) \<and> ini_size m = card (dom (ini_abs m)) \<and>
     (dataIndexMap m x = Some i \<longrightarrow> i < ini_size m)"
proof -
  have "ini_size m = card (dom (ini_abs m))"
    using ini.keys_abs [OF assms] distinct_card [of "ini_keys m"] by (simp add: ini_size_def) (simp add: ini_keys_def)
  then show ?thesis
    using ini.put_many_ok [OF assms] ini.put_many_abs [OF assms] ini.put_many_keys [OF assms]
      ok_index(2) [OF assms, of x i] assms
    by (simp add: ini.put_ok ini.put_abs ini_remove_ok ini_remove_spec ini_get_abs ini_has_abs ini_setMulti_def)
      (simp add: ini_size_def)
qed

theorem ini_map_refines_witness:
  "ini_get ''none'' '' PORT '' (ini_setMulti [('' Port'', ''7777''), (''path'', ''x'')] INIMap_new) = ''7777''"
proof -
  let ?kvs = "[('' Port'', ''7777''), (''path'', ''x'')]"
  have n: "norm_key '' PORT '' = ''port''" "norm_key '' Port'' = ''port''" "norm_key ''path'' = ''path''"
    by code_simp+
  have m: "INIMap_ok (ini_setMulti ?kvs INIMap_new)"
    "ini_abs (ini_setMulti ?kvs INIMap_new) = [''port'' \<mapsto> ''7777'', ''path'' \<mapsto> ''x'']"
    using ini_map_refines [OF INIMap_new_ok(1), where kvs = ?kvs] by (simp_all add: n)
  show ?thesis using ini_map_refines [OF m(1), of "'' PORT ''" _ _ "''none''"] by (simp add: n m(2))
qed

end
