(* ===== verification/IniFile.thy ===== *)
theory IniFile
  imports Ini "HOL-Library.Sublist"
begin

text \<open>
  \<open>TeleCrap.Server/include/ini.h\<close>, the files: the parser of a line, \<open>INIReader\<close>, \<open>INIGenerator\<close>, the
  lazy \<open>INIWriter\<close> and \<open>INIFile\<close>, over a disk of named byte strings.
\<close>

section \<open>Parsing a line\<close>

type_synonym INIStructure = "cstring INIMap INIMap"

datatype PDataType = PDATA_NONE | PDATA_COMMENT | PDATA_SECTION | PDATA_KEYVALUE | PDATA_UNKNOWN

definition find_first_of :: "char \<Rightarrow> cstring \<Rightarrow> nat option" where
  "find_first_of c s = (if c \<in> set s then Some (length (takeWhile (\<lambda>x. x \<noteq> c) s)) else None)"

definition find_last_of :: "char \<Rightarrow> cstring \<Rightarrow> nat option" where
  "find_last_of c s = map_option (\<lambda>n. length s - 1 - n) (find_first_of c (rev s))"

definition escaped_equals :: cstring where
  "escaped_equals = [CHR 0x5C, CHR ''='']"

definition parseKeyValue :: "cstring \<Rightarrow> PDataType \<times> cstring \<times> cstring" where
  "parseKeyValue line =
     (let lineNorm = replace line escaped_equals ''  '' in
      case find_first_of CHR ''='' lineNorm of
        Some equalsAt \<Rightarrow> (PDATA_KEYVALUE, replace (trim (take equalsAt line)) escaped_equals ''='',
                          trim (drop (equalsAt + 1) line))
      | None \<Rightarrow> (PDATA_UNKNOWN, [], []))"

definition parseLine :: "cstring \<Rightarrow> PDataType \<times> cstring \<times> cstring" where
  "parseLine line =
     (let line = trim line in
      if line = [] then (PDATA_NONE, [], [])
      else if hd line = CHR '';'' then (PDATA_COMMENT, [], [])
      else if hd line = CHR ''['' then
        let line = (case find_first_of CHR '';'' line of None \<Rightarrow> line | Some commentAt \<Rightarrow> take commentAt line) in
        case find_last_of CHR '']'' line of
          Some closingBracketAt \<Rightarrow> (PDATA_SECTION, trim (take (closingBracketAt - 1) (drop 1 line)), [])
        | None \<Rightarrow> parseKeyValue line
      else parseKeyValue line)"

section \<open>Reading\<close>

definition NL :: char where "NL = CHR 0x0A"
definition CR :: char where "CR = CHR 0x0D"

definition utf8_BOM :: cstring where
  "utf8_BOM = [CHR 0xEF, CHR 0xBB, CHR 0xBF]"

definition isBOM :: "cstring \<Rightarrow> bool" where
  "isBOM file = (length file \<ge> 3 \<and> take 3 file = utf8_BOM)"

fun splitLines :: "cstring \<Rightarrow> cstring \<Rightarrow> cstring list" where
  "splitLines buffer [] = [buffer]"
| "splitLines buffer (c # cs) =
     (if c = NL then buffer # splitLines [] cs
      else if c \<noteq> NUL \<and> c \<noteq> CR then splitLines (buffer @ [c]) cs
      else splitLines buffer cs)"

text \<open>After a mark the read is three bytes short: the end of the buffer stays zero.\<close>

definition readFile :: "cstring \<Rightarrow> cstring list" where
  "readFile file =
     (let fileContents = (if isBOM file then drop 3 file @ replicate 3 NUL else file) in
      if length file = 0 then [] else splitLines [] fileContents)"

record reader =
  rd_data :: INIStructure
  rd_section :: cstring
  rd_inSection :: bool
  rd_lineData :: "cstring list"

definition readLine :: "bool \<Rightarrow> reader \<Rightarrow> cstring \<Rightarrow> reader" where
  "readLine keepLineData st line =
     (let (parseResult, first, second) = parseLine line;
          st = (if parseResult = PDATA_SECTION
                then st\<lparr>rd_inSection := True, rd_section := first,
                        rd_data := snd (ini_at INIMap_new first (rd_data st))\<rparr>
                else if rd_inSection st \<and> parseResult = PDATA_KEYVALUE
                then st\<lparr>rd_data := ini_modify INIMap_new (rd_section st)
                          (ini_modify [] first (\<lambda>_. second)) (rd_data st)\<rparr>
                else st)
      in if keepLineData \<and> parseResult \<noteq> PDATA_UNKNOWN
         then if parseResult = PDATA_KEYVALUE \<and> \<not> rd_inSection st then st
              else st\<lparr>rd_lineData := rd_lineData st @ [line]\<rparr>
         else st)"

definition INIReader_read :: "bool \<Rightarrow> cstring \<Rightarrow> INIStructure \<Rightarrow> reader" where
  "INIReader_read keepLineData file data =
     foldl (readLine keepLineData)
       \<lparr>rd_data = data, rd_section = [], rd_inSection = False, rd_lineData = []\<rparr> (readFile file)"

section \<open>Generating\<close>

definition endl :: cstring where "endl = [NL]"

definition keyvalue_line :: "bool \<Rightarrow> cstring \<times> cstring \<Rightarrow> cstring" where
  "keyvalue_line prettyPrint it =
     replace (fst it) ''='' escaped_equals @ (if prettyPrint then '' = '' else ''='') @ trim (snd it)"

fun generateKeys :: "bool \<Rightarrow> (cstring \<times> cstring) list \<Rightarrow> cstring" where
  "generateKeys prettyPrint [] = []"
| "generateKeys prettyPrint [it2] = keyvalue_line prettyPrint it2"
| "generateKeys prettyPrint (it2 # rest) = keyvalue_line prettyPrint it2 @ endl @ generateKeys prettyPrint rest"

definition generateSection :: "bool \<Rightarrow> cstring \<times> cstring INIMap \<Rightarrow> cstring" where
  "generateSection prettyPrint it =
     ''['' @ fst it @ '']'' @
     (if ini_size (snd it) \<noteq> 0 then endl @ generateKeys prettyPrint (inidata (snd it)) else [])"

fun generateSections :: "bool \<Rightarrow> (cstring \<times> cstring INIMap) list \<Rightarrow> cstring" where
  "generateSections prettyPrint [] = []"
| "generateSections prettyPrint [it] = generateSection prettyPrint it"
| "generateSections prettyPrint (it # rest) =
     generateSection prettyPrint it @ endl @ (if prettyPrint then endl else []) @ generateSections prettyPrint rest"

definition INIGenerator_write :: "bool \<Rightarrow> INIStructure \<Rightarrow> cstring" where
  "INIGenerator_write prettyPrint data = (if ini_size data = 0 then [] else generateSections prettyPrint (inidata data))"

section \<open>Writing lazily\<close>

record lazy =
  lz_output :: "cstring list"
  lz_sectionCurrent :: cstring
  lz_parsingSection :: bool
  lz_continueToNextSection :: bool
  lz_discardNextEmpty :: bool
  lz_writeNewKeys :: bool
  lz_lastKeyLine :: nat

text \<open>
  How the body of the loop goes on after the first half: \<open>--line; continue\<close>, \<open>continue\<close>, or the
  second half.
\<close>

datatype flow = SameLine | NextLine | Fall

definition lazyValueLine :: "bool \<Rightarrow> cstring \<Rightarrow> cstring \<Rightarrow> cstring" where
  "lazyValueLine prettyPrint line value =
     (let outputValue = trim value;
          lineNorm = replace line escaped_equals ''  '';
          afterEquals = (case find_first_of CHR ''='' lineNorm of Some equalsAt \<Rightarrow> equalsAt + 1 | None \<Rightarrow> 0);
          valueAt = afterEquals + length (takeWhile isws (drop afterEquals lineNorm));
          outputLine = take valueAt line
      in outputLine @ (if prettyPrint \<and> afterEquals = valueAt \<and> valueAt < length lineNorm then '' '' else [])
           @ outputValue)"

definition lazyParse :: "bool \<Rightarrow> INIStructure \<Rightarrow> cstring \<Rightarrow> lazy \<Rightarrow> flow \<times> lazy" where
  "lazyParse prettyPrint data line st =
     (let (parseResult, first, second) = parseLine line in
      if parseResult = PDATA_SECTION then
        if lz_parsingSection st
        then (SameLine, st\<lparr>lz_writeNewKeys := True, lz_parsingSection := False\<rparr>)
        else let st = st\<lparr>lz_sectionCurrent := first\<rparr> in
          if ini_has first data
          then (Fall, st\<lparr>lz_parsingSection := True, lz_continueToNextSection := False,
                  lz_discardNextEmpty := False, lz_output := lz_output st @ [line],
                  lz_lastKeyLine := Suc (length (lz_output st))\<rparr>)
          else (NextLine, st\<lparr>lz_continueToNextSection := True, lz_discardNextEmpty := True\<rparr>)
      else if parseResult = PDATA_KEYVALUE then
        if lz_continueToNextSection st then (NextLine, st)
        else if ini_has (lz_sectionCurrent st) data then
          let collection = ini_get INIMap_new (lz_sectionCurrent st) data in
          if ini_has first collection then
            let outputValue = ini_get [] first collection;
                line' = (if second = outputValue then line else lazyValueLine prettyPrint line outputValue)
            in (Fall, st\<lparr>lz_output := lz_output st @ [line'], lz_lastKeyLine := Suc (length (lz_output st))\<rparr>)
          else (Fall, st)
        else (Fall, st)
      else if lz_discardNextEmpty st \<and> line = [] then (Fall, st\<lparr>lz_discardNextEmpty := False\<rparr>)
      else if parseResult \<noteq> PDATA_UNKNOWN then (Fall, st\<lparr>lz_output := lz_output st @ [line]\<rparr>)
      else (Fall, st))"

definition linesToAdd :: "bool \<Rightarrow> INIStructure \<Rightarrow> INIStructure \<Rightarrow> cstring \<Rightarrow> cstring list" where
  "linesToAdd prettyPrint data original sectionCurrent =
     (if ini_has sectionCurrent data \<and> ini_has sectionCurrent original
      then map (keyvalue_line prettyPrint)
             (filter (\<lambda>it. \<not> ini_has (fst it) (ini_get INIMap_new sectionCurrent original))
               (inidata (ini_get INIMap_new sectionCurrent data)))
      else [])"

definition addNewKeys :: "bool \<Rightarrow> INIStructure \<Rightarrow> INIStructure \<Rightarrow> lazy \<Rightarrow> lazy" where
  "addNewKeys prettyPrint data original st =
     st\<lparr>lz_output := take (lz_lastKeyLine st) (lz_output st) @
          linesToAdd prettyPrint data original (lz_sectionCurrent st) @ drop (lz_lastKeyLine st) (lz_output st)\<rparr>"

lemma lazyParse_SameLine:
  "lazyParse p d line st = (SameLine, st') \<Longrightarrow>
   lz_parsingSection st \<and> \<not> lz_parsingSection st' \<and> lz_writeNewKeys st' \<and> lz_output st' = lz_output st"
  by (auto simp: lazyParse_def Let_def split: if_splits prod.splits)

lemma lazyParse_Fall: "lazyParse p d line st = (Fall, st') \<Longrightarrow> lz_writeNewKeys st' = lz_writeNewKeys st"
  by (auto simp: lazyParse_def Let_def split: if_splits prod.splits)

lemma addNewKeys_flags [simp]: "lz_writeNewKeys (addNewKeys p d o' st) = lz_writeNewKeys st"
  "lz_parsingSection (addNewKeys p d o' st) = lz_parsingSection st"
  by (simp_all add: addNewKeys_def)

function lazyLoop :: "bool \<Rightarrow> INIStructure \<Rightarrow> INIStructure \<Rightarrow> cstring list \<Rightarrow> lazy \<Rightarrow> lazy" where
  "lazyLoop prettyPrint data original [] st = st"
| "lazyLoop prettyPrint data original (line # rest) st =
     (case (if lz_writeNewKeys st then (Fall, st) else lazyParse prettyPrint data line st) of
        (SameLine, st) \<Rightarrow> lazyLoop prettyPrint data original (line # rest) st
      | (NextLine, st) \<Rightarrow> lazyLoop prettyPrint data original rest st
      | (Fall, st) \<Rightarrow>
          (if lz_writeNewKeys st \<or> rest = [] then
             let st = addNewKeys prettyPrint data original st in
             if lz_writeNewKeys st
             then lazyLoop prettyPrint data original (line # rest) (st\<lparr>lz_writeNewKeys := False\<rparr>)
             else lazyLoop prettyPrint data original rest st
           else lazyLoop prettyPrint data original rest st))"
  by pat_completeness auto

termination
  by (relation "measure (\<lambda>(p, d, o', ls, st). 4 * length ls + (if lz_parsingSection st then 2 else 0) +
      (if lz_writeNewKeys st then 1 else 0))")
    (auto split: if_splits dest: lazyParse_SameLine [OF sym] lazyParse_Fall [OF sym])

declare lazyLoop.simps [simp del]

definition lazyNewSection :: "bool \<Rightarrow> cstring list \<Rightarrow> cstring \<times> cstring INIMap \<Rightarrow> cstring list" where
  "lazyNewSection prettyPrint output it =
     output @ (if prettyPrint \<and> output \<noteq> [] \<and> last output \<noteq> [] then [[]] else []) @
     [''['' @ fst it @ '']''] @ map (keyvalue_line prettyPrint) (inidata (snd it))"

definition getLazyOutput :: "bool \<Rightarrow> cstring list \<Rightarrow> INIStructure \<Rightarrow> INIStructure \<Rightarrow> cstring list" where
  "getLazyOutput prettyPrint lineData data original =
     (let st = lazyLoop prettyPrint data original lineData \<lparr>lz_output = [], lz_sectionCurrent = [],
            lz_parsingSection = False, lz_continueToNextSection = False, lz_discardNextEmpty = False,
            lz_writeNewKeys = False, lz_lastKeyLine = 0\<rparr>
      in foldl (lazyNewSection prettyPrint) (lz_output st)
           (filter (\<lambda>it. \<not> ini_has (fst it) original) (inidata data)))"

fun joinLines :: "cstring list \<Rightarrow> cstring" where
  "joinLines [] = []"
| "joinLines [line] = line"
| "joinLines (line # rest) = line @ endl @ joinLines rest"

text \<open>The disk: which files there are, and which can be opened to read and to write.\<close>

record Disk =
  files :: "cstring \<rightharpoonup> cstring"
  readable :: "cstring \<Rightarrow> bool"
  writable :: "cstring \<Rightarrow> bool"

definition INIFile_read :: "cstring \<Rightarrow> INIStructure \<Rightarrow> Disk \<Rightarrow> bool \<times> INIStructure" where
  "INIFile_read filename data D =
     (let data = (if ini_size data \<noteq> 0 then ini_clear data else data) in
      if filename = [] then (False, data)
      else case files D filename of
        Some file \<Rightarrow> (if readable D filename then (True, rd_data (INIReader_read False file data)) else (False, data))
      | None \<Rightarrow> (False, data))"

definition INIFile_generate :: "cstring \<Rightarrow> INIStructure \<Rightarrow> bool \<Rightarrow> Disk \<Rightarrow> bool \<times> Disk" where
  "INIFile_generate filename data pretty D =
     (if filename = [] \<or> \<not> writable D filename then (False, D)
      else (True, D\<lparr>files := (files D)(filename \<mapsto> INIGenerator_write pretty data)\<rparr>))"

definition INIWriter_write :: "cstring \<Rightarrow> INIStructure \<Rightarrow> bool \<Rightarrow> Disk \<Rightarrow> bool \<times> Disk" where
  "INIWriter_write filename data prettyPrint D =
     (case files D filename of
        None \<Rightarrow> INIFile_generate filename data prettyPrint D
      | Some file \<Rightarrow>
          (if \<not> readable D filename then (False, D)
           else let r = INIReader_read True file INIMap_new;
                    output = getLazyOutput prettyPrint (rd_lineData r) data (rd_data r)
                in if writable D filename
                   then (True, D\<lparr>files := (files D)(filename \<mapsto>
                          (if isBOM file then utf8_BOM else []) @ joinLines output)\<rparr>)
                   else (False, D)))"

definition INIFile_write :: "cstring \<Rightarrow> INIStructure \<Rightarrow> bool \<Rightarrow> Disk \<Rightarrow> bool \<times> Disk" where
  "INIFile_write filename data pretty D =
     (if filename = [] then (False, D) else INIWriter_write filename data pretty D)"

section \<open>Comments survive a lazy write\<close>

definition is_comment :: "cstring \<Rightarrow> bool" where
  "is_comment line = (fst (parseLine line) = PDATA_COMMENT)"

lemma lazyParse_output:
  "lazyParse p d line st = (flow, st') \<Longrightarrow> flow \<noteq> SameLine \<Longrightarrow>
   (is_comment line \<longrightarrow> lz_output st' = lz_output st @ [line]) \<and> subseq (lz_output st) (lz_output st')"
  by (cases "line = []")
    (auto simp: lazyParse_def Let_def is_comment_def parseLine_def trim_def split: if_splits prod.splits)

lemma subseq_insert: "subseq xs ys \<Longrightarrow> subseq xs (take n ys @ zs @ drop n ys)"
proof -
  have "subseq (take n ys @ drop n ys) (take n ys @ zs @ drop n ys)"
    by (intro list_emb_append_mono list_emb_append2) auto
  then show "subseq xs ys \<Longrightarrow> ?thesis" by (auto intro: subseq_order.order_trans)
qed

lemma lazyLoop_comments:
  "subseq C (lz_output st) \<Longrightarrow>
   subseq (C @ filter is_comment ls) (lz_output (lazyLoop p d o' ls st))"
proof (induction p d o' ls st arbitrary: C rule: lazyLoop.induct)
  case (1 p d o' st)
  then show ?case by (simp add: lazyLoop.simps)
next
  case (2 p d o' line rest st)
  let ?step = "if lz_writeNewKeys st then (Fall, st) else lazyParse p d line st"
  obtain flow st1 where r: "?step = (flow, st1)" by fastforce
  show ?case
  proof (cases "flow = SameLine")
    case True
    then have "lazyParse p d line st = (SameLine, st1)" using r by (simp split: if_splits)
    then show ?thesis
      using 2(1) [OF r [symmetric] True] lazyParse_SameLine 2(6) True r by (simp add: lazyLoop.simps(2))
  next
    case same: False
    show ?thesis
    proof (cases "lz_writeNewKeys st")
      case True
      then have r': "flow = Fall" "st1 = st" using r by simp_all
      have "subseq C (lz_output (addNewKeys p d o' st))"
        unfolding addNewKeys_def using subseq_insert [OF 2(6)] by simp
      then show ?thesis
        using 2(3) [OF r [symmetric] r'(1) _ refl, of C] True r r' by (simp add: lazyLoop.simps(2))
    next
      case False
      then have p: "lazyParse p d line st = (flow, st1)" using r by simp
      let ?C = "C @ (if is_comment line then [line] else [])"
      have C: "subseq ?C (lz_output st1)"
        using lazyParse_output [OF p same] 2(6)
        by (auto intro: list_emb_append_mono subseq_order.order_trans)
      show ?thesis
      proof (cases "flow = NextLine")
        case True
        then show ?thesis using 2(2) [OF r [symmetric] True C] r by (simp add: lazyLoop.simps(2) split: if_splits)
      next
        case nl: False
        with same have f: "flow = Fall" by (cases flow) auto
        have w: "\<not> lz_writeNewKeys st1" using lazyParse_Fall p f False by blast
        have "subseq ?C (lz_output (addNewKeys p d o' st1))"
          unfolding addNewKeys_def using subseq_insert [OF C] by simp
        then show ?thesis
          using 2(4) [OF r [symmetric] f _ refl, of ?C] 2(5) [OF r [symmetric] f _ C] w r f
          by (cases "rest = []") (auto simp: lazyLoop.simps(2))
      qed
    qed
  qed
qed

lemma foldl_new_section: "subseq xs ys \<Longrightarrow> subseq xs (foldl (lazyNewSection p) ys its)"
proof (induction its arbitrary: ys)
  case (Cons it its)
  have "subseq xs (lazyNewSection p ys it)"
    unfolding lazyNewSection_def by (rule list_emb_prefix [OF Cons.prems])
  then show ?case using Cons.IH by simp
qed simp


section \<open>What is generated is read back\<close>

text \<open>Lines.\<close>

definition plain :: "cstring \<Rightarrow> bool" where
  "plain s \<longleftrightarrow> NL \<notin> set s \<and> NUL \<notin> set s \<and> CR \<notin> set s"

lemma splitLines_plain: "plain s \<Longrightarrow> splitLines b (s @ cs) = splitLines (b @ s) cs"
  by (induction s arbitrary: b) (auto simp: plain_def)

lemma splitLines_joinLines: "ls \<noteq> [] \<Longrightarrow> \<forall>l\<in>set ls. plain l \<Longrightarrow> splitLines [] (joinLines ls) = ls"
proof (induction ls rule: joinLines.induct)
  case (2 l)
  then show ?case using splitLines_plain [of l "[]" "[]"] by simp
next
  case (3 l x rest)
  then show ?case by (simp add: splitLines_plain endl_def)
qed simp

lemma joinLines_append: "xs \<noteq> [] \<Longrightarrow> ys \<noteq> [] \<Longrightarrow> joinLines (xs @ ys) = joinLines xs @ endl @ joinLines ys"
proof (induction xs rule: joinLines.induct)
  case (2 l)
  then show ?case by (cases ys) auto
qed auto

definition section_lines :: "bool \<Rightarrow> cstring \<times> cstring INIMap \<Rightarrow> cstring list" where
  "section_lines p it = (''['' @ fst it @ '']'') # map (keyvalue_line p) (inidata (snd it))"

fun all_lines :: "bool \<Rightarrow> (cstring \<times> cstring INIMap) list \<Rightarrow> cstring list" where
  "all_lines p [] = []"
| "all_lines p [it] = section_lines p it"
| "all_lines p (it # rest) = section_lines p it @ (if p then [[]] else []) @ all_lines p rest"

lemma generateKeys_lines: "generateKeys p kvs = joinLines (map (keyvalue_line p) kvs)"
  by (induction p kvs rule: generateKeys.induct) auto

lemma generateSection_lines: "generateSection p it = joinLines (section_lines p it)"
  by (cases "inidata (snd it)")
    (auto simp: generateSection_def section_lines_def ini_size_def generateKeys_lines)

lemma all_lines_ne: "its \<noteq> [] \<Longrightarrow> all_lines p its \<noteq> []"
  by (cases "(p, its)" rule: all_lines.cases) (auto simp: section_lines_def)

lemma generateSections_lines: "its \<noteq> [] \<Longrightarrow> generateSections p its = joinLines (all_lines p its)"
proof (induction p its rule: generateSections.induct)
  case (3 p it x rest)
  have ne: "section_lines p it \<noteq> []" by (simp add: section_lines_def)
  have "joinLines ((if p then [[]] else []) @ all_lines p (x # rest)) =
      (if p then endl else []) @ joinLines (all_lines p (x # rest))"
    using all_lines_ne [of "x # rest" p] joinLines_append [of "[[]]" "all_lines p (x # rest)"] by (cases p) auto
  then show ?case
    using 3 ne all_lines_ne [of "x # rest" p]
    by (simp add: generateSection_lines joinLines_append del: all_lines.simps(2))
qed (simp_all add: generateSection_lines)

text \<open>Escaped keys.\<close>

definition escape :: "cstring \<Rightarrow> cstring" where
  "escape k = concat (map (\<lambda>c. if c = CHR ''='' then escaped_equals else [c]) k)"

lemma replace_single: "replace s [c] b = concat (map (\<lambda>x. if x = c then b else [x]) s)"
proof -
  have "replace_all [c] b s = concat (map (\<lambda>x. if x = c then b else [x]) s)"
    by (induction s) auto
  then show ?thesis by (simp add: replace_equivalent)
qed

lemma escape_simps [simp]: "escape [] = []" "escape (c # k) = (if c = CHR ''='' then escaped_equals else [c]) @ escape k"
  by (simp_all add: escape_def)

lemma replace_all_escaped:
  "replace_all escaped_equals b (escaped_equals @ s) = b @ replace_all escaped_equals b s"
  "take 2 (c # s) \<noteq> escaped_equals \<Longrightarrow> replace_all escaped_equals b (c # s) = c # replace_all escaped_equals b s"
  by (auto simp: escaped_equals_def numeral_2_eq_2)

lemma replace_all_escape:
  assumes "k = [] \<or> last k \<noteq> CHR 0x5C \<or> rest = [] \<or> hd rest \<noteq> CHR ''=''"
  shows "replace_all escaped_equals b (escape k @ rest) =
    concat (map (\<lambda>c. if c = CHR ''='' then b else [c]) k) @ replace_all escaped_equals b rest"
  using assms
proof (induction k)
  case (Cons c k)
  have IH: "replace_all escaped_equals b (escape k @ rest) =
    concat (map (\<lambda>c. if c = CHR ''='' then b else [c]) k) @ replace_all escaped_equals b rest"
    using Cons by (cases k) auto
  have "take 2 (c # escape k @ rest) \<noteq> escaped_equals" if "c \<noteq> CHR ''=''"
  proof (cases k)
    case Nil
    then show ?thesis using Cons.prems by (cases rest) (auto simp: escaped_equals_def)
  qed (auto simp: escaped_equals_def)
  then show ?case
    using replace_all_escaped(1) [of b "escape k @ rest"] replace_all_escaped(2) [of c "escape k @ rest" b] IH
    by (cases "c = CHR ''=''") (simp_all del: replace_all.simps)
qed simp

lemma replace_escape: "replace k ''='' escaped_equals = escape k"
  by (simp add: replace_single escape_def)

lemma unescape: "replace (escape k) escaped_equals ''='' = k"
proof -
  have "concat (map (\<lambda>c. if c = CHR ''='' then ''='' else [c]) k) = k" by (induction k) auto
  then show ?thesis
    using replace_all_escape [of k "[]" "''=''"] by (simp add: replace_equivalent escaped_equals_def)
qed

lemma trim_prefix:
  assumes "x \<noteq> []" and "\<not> isws (hd x)" and "\<not> isws (last x)"
  shows "trim (x @ y) = x @ rev (dropWhile isws (rev y))"
proof -
  have "dropWhile isws (rev x) = rev x" using assms by (intro dropWhile_ends) (auto simp: hd_rev)
  then have "dropWhile isws (rev y @ rev x) = dropWhile isws (rev y) @ rev x"
    by (auto simp: dropWhile_append)
  moreover have "dropWhile isws (x @ z) = x @ z" for z using assms by (intro dropWhile_ends) auto
  ultimately show ?thesis by (simp add: trim_def)
qed

lemma trim_ws: "\<forall>c\<in>set w. isws c \<Longrightarrow> trim (w @ s) = trim s" "\<forall>c\<in>set w. isws c \<Longrightarrow> trim (s @ w) = trim s"
  using dropWhile_append2 [of w isws s] dropWhile_append2 [of "rev w" isws "rev s"]
  by (simp add: trim_strip strip_def, simp add: trim_def)

lemma trim_rtrim: "trim (rev (dropWhile isws (rev s))) = trim s"
  by (simp add: trim_def)

lemma trim_ends: "trim k = k \<Longrightarrow> k \<noteq> [] \<Longrightarrow> \<not> isws (hd k) \<and> \<not> isws (last k)"
  using hd_dropWhile_rev [of isws k] by (simp add: trim_strip)

definition key_ok :: "bool \<Rightarrow> cstring \<Rightarrow> bool" where
  "key_ok p k \<longleftrightarrow> plain k \<and> k \<noteq> [] \<and> hd k \<noteq> CHR '';'' \<and> hd k \<noteq> CHR ''['' \<and> (p \<or> last k \<noteq> CHR 0x5C)"

lemma escape_ends:
  assumes "k \<noteq> []"
  shows "escape k \<noteq> []" and "hd (escape k) = (if hd k = CHR ''='' then CHR 0x5C else hd k)"
    and "last (escape k) = last k"
proof -
  show "escape k \<noteq> []" using assms by (cases k) (auto simp: escaped_equals_def)
  show "hd (escape k) = (if hd k = CHR ''='' then CHR 0x5C else hd k)"
    using assms by (cases k) (auto simp: escaped_equals_def)
  have "escape (xs @ [c]) = escape xs @ (if c = CHR ''='' then escaped_equals else [c])" for xs c
    by (simp add: escape_def)
  then show "last (escape k) = last k"
    using assms by (cases k rule: rev_cases) (auto simp: escaped_equals_def)
qed

lemma find_first_append: "c \<notin> set xs \<Longrightarrow> find_first_of c (xs @ c # ys) = Some (length xs)"
  by (auto simp: find_first_of_def takeWhile_append)

lemma parseKeyValue_escaped:
  assumes k: "key_ok p k" "trim k = k" and s: "s = (if p then '' '' else [])"
  shows "parseKeyValue (escape k @ s @ ''='' @ w) = (PDATA_KEYVALUE, k, trim w)"
proof -
  let ?blank = "concat (map (\<lambda>c. if c = CHR ''='' then ''  '' else [c]) k)"
  have len: "length ?blank = length (escape k)" by (induction k) (auto simp: escaped_equals_def)
  have "replace_all escaped_equals ''  '' (s @ ''='' @ w) = s @ ''='' @ replace_all escaped_equals ''  '' w"
    by (simp add: s escaped_equals_def)
  then have "replace (escape k @ s @ ''='' @ w) escaped_equals ''  '' =
      (?blank @ s) @ CHR ''='' # replace_all escaped_equals ''  '' w"
    using replace_all_escape [of k "s @ ''='' @ w" "''  ''"] k(1)
    by (auto simp: replace_equivalent key_ok_def s) (simp_all add: escaped_equals_def)
  moreover have "CHR ''='' \<notin> set (?blank @ s)" by (auto simp: s split: if_splits)
  ultimately have f: "find_first_of CHR ''='' (replace (escape k @ s @ ''='' @ w) escaped_equals ''  '') =
      Some (length (escape k @ s))"
    using find_first_append [of "CHR ''=''" "?blank @ s"] len by simp
  have "trim (escape k) = escape k"
    using trim_prefix [of "escape k" "[]"] trim_ends [OF k(2)] k(1) escape_ends [of k]
    by (auto simp: key_ok_def isws_def)
  then have "trim (escape k @ s) = escape k"
    using trim_ws(2) [of s "escape k"] by (simp add: s isws_def)
  then show ?thesis
    using f by (simp add: parseKeyValue_def unescape)
qed

lemma parse_keyvalue:
  assumes k: "key_ok p k" "trim k = k" and v: "trim v = v"
  shows "parseLine (keyvalue_line p (k, v)) = (PDATA_KEYVALUE, k, v)"
proof -
  define s where "s = (if p then '' '' else [])"
  let ?x = "escape k @ s @ ''=''" and ?w = "rev (dropWhile isws (rev (s @ v)))"
  have ne: "k \<noteq> []" using k by (simp add: key_ok_def)
  have line: "keyvalue_line p (k, v) = ?x @ s @ v"
    by (simp add: keyvalue_line_def replace_escape s_def v)
  have h: "hd (escape k) \<noteq> CHR '';''" "hd (escape k) \<noteq> CHR ''[''" "\<not> isws (hd (escape k))"
    using escape_ends [OF ne] trim_ends [OF k(2) ne] k(1) by (auto simp: key_ok_def isws_def)
  have "trim (keyvalue_line p (k, v)) = ?x @ ?w"
    unfolding line using escape_ends(1) [OF ne] h(3) by (intro trim_prefix) (auto simp: isws_def)
  moreover have "trim ?w = v"
    using trim_ws(1) [of s v] v by (simp add: trim_rtrim s_def isws_def del: rev_append)
  ultimately show ?thesis
    using parseKeyValue_escaped [OF k s_def, of ?w] h(1,2) escape_ends(1) [OF ne]
    by (simp add: parseLine_def)
qed

lemma parse_section:
  assumes "trim s = s" and "CHR '';'' \<notin> set s"
  shows "parseLine (''['' @ s @ '']'') = (PDATA_SECTION, s, [])"
proof -
  have "trim (''['' @ s @ '']'') = ''['' @ s @ '']''"
    using trim_prefix [of "''['' @ s @ '']''" "[]"] by (simp add: isws_def)
  moreover have "find_last_of CHR '']'' (''['' @ s @ '']'') = Some (Suc (length s))"
    using find_first_append [of "CHR '']''" "[]" "rev s @ ''[''"] by (simp add: find_last_of_def)
  moreover have "find_first_of CHR '';'' (''['' @ s @ '']'') = None" using assms(2) by (simp add: find_first_of_def)
  ultimately show ?thesis using assms(1) by (simp add: parseLine_def)
qed

text \<open>Reading the lines of a structure builds it up again, entry by entry.\<close>

lemma INIMap_ext: "INIMap_ok m \<Longrightarrow> INIMap_ok (m' :: 'a INIMap) \<Longrightarrow> inidata m = inidata m' \<Longrightarrow> m = m'"
  by (rule INIMap.equality) (auto simp: INIMap_ok_def fun_eq_iff, metis not_Some_eq)

lemma modify_new:
  assumes "INIMap_ok m" and "norm_key k = k" and "k \<notin> set (ini_keys m)"
  shows "inidata (ini_modify T k f m) = inidata m @ [(k, f T)]"
  using assms ok_index(1) [OF assms(1), of k] ini_at_None [of m k T] by (simp add: ini_modify_def)

lemma modify_last:
  assumes "INIMap_ok m" and "norm_key k = k" and "inidata m = xs @ [(k, v)]"
  shows "inidata (ini_modify T k f m) = xs @ [(k, f v)]"
proof -
  have "dataIndexMap m k = Some (length xs)" using assms(1,3) by (simp add: INIMap_ok_def)
  then show ?thesis using assms by (simp add: ini_modify_def ini_at_Some)
qed

definition entry_ok :: "bool \<Rightarrow> cstring \<times> cstring \<Rightarrow> bool" where
  "entry_ok p kv \<longleftrightarrow> key_ok p (fst kv) \<and> plain (snd kv) \<and> trim (snd kv) = snd kv"

definition section_ok :: "bool \<Rightarrow> cstring \<times> cstring INIMap \<Rightarrow> bool" where
  "section_ok p it \<longleftrightarrow> plain (fst it) \<and> CHR '';'' \<notin> set (fst it) \<and> INIMap_ok (snd it) \<and>
     (\<forall>kv\<in>set (inidata (snd it)). entry_ok p kv)"

definition representable :: "bool \<Rightarrow> INIStructure \<Rightarrow> bool" where
  "representable p data \<longleftrightarrow> INIMap_ok data \<and> (\<forall>it\<in>set (inidata data). section_ok p it)"

lemma read_keys:
  assumes "rd_inSection st" and "INIMap_ok (rd_data st)" and "inidata (rd_data st) = xs @ [(rd_section st, c)]"
    and "INIMap_ok c" and "\<forall>kv\<in>set kvs. entry_ok p kv \<and> norm_key (fst kv) = fst kv"
    and "distinct (map fst (inidata c @ kvs))"
  shows "\<exists>st' c'. foldl (readLine False) st (map (keyvalue_line p) kvs) = st' \<and> rd_inSection st' \<and>
     INIMap_ok (rd_data st') \<and> rd_section st' = rd_section st \<and> INIMap_ok c' \<and>
     inidata (rd_data st') = xs @ [(rd_section st, c')] \<and> inidata c' = inidata c @ kvs"
  using assms
proof (induction kvs arbitrary: st c)
  case Nil
  then show ?case by auto
next
  case (Cons kv kvs)
  obtain k v where kv: "kv = (k, v)" by force
  have k: "key_ok p k" "norm_key k = k" "trim v = v" using Cons.prems(5) kv by (auto simp: entry_ok_def)
  let ?c = "ini_modify [] k (\<lambda>_. v) c"
  let ?st = "st\<lparr>rd_data := ini_modify INIMap_new (rd_section st) (ini_modify [] k (\<lambda>_. v)) (rd_data st)\<rparr>"
  have sec: "norm_key (rd_section st) = rd_section st"
    using Cons.prems(2,3) by (auto simp: INIMap_ok_def)
  have step: "readLine False st (keyvalue_line p kv) = ?st"
    using parse_keyvalue [OF k(1) norm_key_trim [OF k(2)] k(3)] Cons.prems(1) by (simp add: readLine_def kv)
  have c: "INIMap_ok ?c" "inidata ?c = inidata c @ [(k, v)]"
    using ini_modify_spec(1) [OF Cons.prems(4)] modify_new [OF Cons.prems(4) k(2)] Cons.prems(6)
    by (auto simp: kv ini_keys_def)
  have "\<exists>st' c'. foldl (readLine False) ?st (map (keyvalue_line p) kvs) = st' \<and> rd_inSection st' \<and>
     INIMap_ok (rd_data st') \<and> rd_section st' = rd_section ?st \<and> INIMap_ok c' \<and>
     inidata (rd_data st') = xs @ [(rd_section ?st, c')] \<and> inidata c' = inidata ?c @ kvs"
    using Cons.prems c modify_last [OF Cons.prems(2) sec Cons.prems(3)] ini_modify_spec(1) [OF Cons.prems(2)]
    by (intro Cons.IH) (auto simp: kv)
  then show ?case using step c(2) by (simp add: kv)
qed

lemma read_section:
  assumes ok: "INIMap_ok (rd_data st)" and it: "section_ok p it" and s: "norm_key (fst it) = fst it"
    "fst it \<notin> set (ini_keys (rd_data st))"
  shows "INIMap_ok (rd_data (foldl (readLine False) st (section_lines p it))) \<and>
     inidata (rd_data (foldl (readLine False) st (section_lines p it))) = inidata (rd_data st) @ [it]"
proof -
  obtain n c where nc: "it = (n, c)" by force
  have c: "INIMap_ok c" "\<forall>kv\<in>set (inidata c). entry_ok p kv" using it by (auto simp: section_ok_def nc)
  let ?st = "st\<lparr>rd_inSection := True, rd_section := n, rd_data := snd (ini_at INIMap_new n (rd_data st))\<rparr>"
  have none: "dataIndexMap (rd_data st) n = None" using s(2) ok_index(1) [OF ok] by (simp add: nc)
  have "readLine False st (''['' @ n @ '']'') = ?st"
    using parse_section [of n] norm_key_trim [OF s(1)] it by (simp add: readLine_def nc section_ok_def)
  moreover have st: "INIMap_ok (rd_data ?st)" "inidata (rd_data ?st) = inidata (rd_data st) @ [(n, INIMap_new)]"
    using append_ok [OF ok none] s(1) none by (simp_all add: nc ini_at_None)
  moreover have "distinct (map fst (inidata INIMap_new @ inidata c))"
    using ok_distinct [OF c(1)] by (simp add: INIMap_new_def ini_keys_def)
  moreover have "\<forall>kv\<in>set (inidata c). entry_ok p kv \<and> norm_key (fst kv) = fst kv"
    using c by (auto simp: INIMap_ok_def)
  ultimately obtain c' where c': "INIMap_ok (rd_data (foldl (readLine False) st (section_lines p it)))" "INIMap_ok c'"
    "inidata (rd_data (foldl (readLine False) st (section_lines p it))) = inidata (rd_data st) @ [(n, c')]"
    "inidata c' = inidata (INIMap_new :: cstring INIMap) @ inidata c"
    using read_keys [of ?st "inidata (rd_data st)" INIMap_new "inidata c" p]
    by (auto simp: section_lines_def nc)
  then have "c' = c" using c(1) by (intro INIMap_ext) (auto simp: INIMap_new_def)
  then show ?thesis using c' by (simp add: nc)
qed

lemma read_blank: "readLine False st [] = st"
  by (simp add: readLine_def parseLine_def trim_def)

lemma read_all:
  assumes "INIMap_ok (rd_data st)" and "\<forall>it\<in>set its. section_ok p it \<and> norm_key (fst it) = fst it"
    and "distinct (map fst (inidata (rd_data st) @ its))"
  shows "INIMap_ok (rd_data (foldl (readLine False) st (all_lines p its))) \<and>
     inidata (rd_data (foldl (readLine False) st (all_lines p its))) = inidata (rd_data st) @ its"
  using assms
proof (induction p its arbitrary: st rule: all_lines.induct)
  case (2 p it)
  then show ?case using read_section [of st p it] by (auto simp: ini_keys_def)
next
  case (3 p it x rest)
  let ?st = "foldl (readLine False) st (section_lines p it)"
  have "INIMap_ok (rd_data ?st)" "inidata (rd_data ?st) = inidata (rd_data st) @ [it]"
    using read_section [of st p it] 3 by (auto simp: ini_keys_def)
  then have "INIMap_ok (rd_data (foldl (readLine False) ?st (all_lines p (x # rest)))) \<and>
     inidata (rd_data (foldl (readLine False) ?st (all_lines p (x # rest)))) = inidata (rd_data ?st) @ x # rest"
    using 3(3,4) by (intro 3(1)) auto
  then show ?case
    using \<open>inidata (rd_data ?st) = inidata (rd_data st) @ [it]\<close>
    by (cases p) (simp_all add: read_blank del: all_lines.simps(2))
qed simp

lemma plain_append: "plain (a @ b) \<longleftrightarrow> plain a \<and> plain b"
  by (auto simp: plain_def)

lemma keyvalue_line_plain:
  assumes "entry_ok p kv"
  shows "plain (keyvalue_line p kv)"
proof -
  have "set (escape k) \<subseteq> set k \<union> set escaped_equals" for k by (induction k) auto
  moreover have "plain escaped_equals" by (simp add: plain_def escaped_equals_def NL_def NUL_def CR_def)
  ultimately have "plain (escape (fst kv))"
    using assms by (auto simp: plain_def entry_ok_def key_ok_def)
  moreover have "plain (if p then '' = '' else ''='')" by (simp add: plain_def NL_def NUL_def CR_def)
  ultimately show ?thesis
    using assms by (simp add: keyvalue_line_def replace_escape plain_append entry_ok_def del: if_split)
qed

lemma section_lines_plain: "section_ok p it \<Longrightarrow> l \<in> set (section_lines p it) \<Longrightarrow> plain l"
  by (auto simp: section_lines_def section_ok_def keyvalue_line_plain)
    (simp_all add: plain_def NL_def NUL_def CR_def)

lemma all_lines_plain:
  "\<forall>it\<in>set its. section_ok p it \<Longrightarrow> \<forall>l\<in>set (all_lines p its). plain l"
proof (induction p its rule: all_lines.induct)
  case (2 p it)
  then show ?case by (auto dest: section_lines_plain)
next
  case (3 p it x rest)
  then show ?case using section_lines_plain [of p it] by (cases p) (auto simp: plain_def)
qed simp

lemma read_generated:
  assumes "representable p data"
  shows "rd_data (INIReader_read False (INIGenerator_write p data) INIMap_new) = data"
proof (cases "inidata data = []")
  case True
  then show ?thesis
    using assms INIMap_ext [of INIMap_new data]
    by (simp add: INIReader_read_def readFile_def INIGenerator_write_def ini_size_def representable_def)
      (simp add: INIMap_new_def)
next
  case False
  let ?ls = "all_lines p (inidata data)"
  have g: "INIGenerator_write p data = joinLines ?ls"
    using False by (simp add: INIGenerator_write_def ini_size_def generateSections_lines)
  have "\<exists>cs. generateSections p (inidata data) = CHR ''['' # cs"
    using False by (cases "(p, inidata data)" rule: generateSections.cases) (auto simp: generateSection_def)
  then have "\<exists>cs. joinLines ?ls = CHR ''['' # cs"
    using False by (simp add: generateSections_lines)
  then have "readFile (joinLines ?ls) = splitLines [] (joinLines ?ls)"
    by (auto simp: readFile_def isBOM_def utf8_BOM_def)
  also have "\<dots> = ?ls"
    using assms all_lines_ne [OF False] by (intro splitLines_joinLines all_lines_plain) (auto simp: representable_def)
  finally have r: "readFile (joinLines ?ls) = ?ls" .
  let ?st = "\<lparr>rd_data = INIMap_new, rd_section = [], rd_inSection = False, rd_lineData = []\<rparr>"
  have "INIMap_ok (rd_data (foldl (readLine False) ?st ?ls)) \<and>
      inidata (rd_data (foldl (readLine False) ?st ?ls)) = inidata (rd_data ?st) @ inidata data"
    using assms ok_distinct [of data]
    by (intro read_all) (auto simp: representable_def INIMap_new_def ini_keys_def INIMap_ok_def)
  then show ?thesis
    using assms by (intro INIMap_ext) (auto simp: INIReader_read_def g r representable_def INIMap_new_def)
qed

text \<open>
  C26. A structure saved by \<open>generate\<close> is read back by \<open>read\<close> as it was, in the same order, pretty-printed
  or not: for names without line breaks, sections without a semicolon, keys that do not begin like a
  comment or a section (and do not end in a backslash, unless pretty-printed), and trimmed values.
\<close>

theorem ini_file_roundtrip:
  assumes "representable pretty data" and "INIMap_ok data0" and "filename \<noteq> []"
    and "writable D filename" and "readable D filename"
  shows "\<exists>D'. INIFile_generate filename data pretty D = (True, D') \<and>
     INIFile_read filename data0 D' = (True, data)"
proof -
  have "inidata (INIMap_new :: cstring INIMap INIMap) = []" by (simp add: INIMap_new_def)
  then have "ini_size data0 = 0 \<Longrightarrow> data0 = INIMap_new"
    using INIMap_ext [OF assms(2) INIMap_new_ok(1)] by (simp add: ini_size_def)
  moreover have "ini_clear data0 = INIMap_new" by (simp add: ini_clear_def INIMap_new_def)
  ultimately have "(if ini_size data0 \<noteq> 0 then ini_clear data0 else data0) = INIMap_new" by simp
  then show ?thesis
    using assms read_generated [OF assms(1)] by (simp add: INIFile_generate_def INIFile_read_def)
qed


lemma inidata_set_new: "norm_key k = k \<Longrightarrow> inidata (ini_set k v INIMap_new) = [(k, v)]"
  by (simp add: ini_set_def INIMap_new_def)

theorem ini_file_roundtrip_witness:
  "\<exists>D'. INIFile_generate ''a.cfg'' (ini_set ''server'' (ini_set ''p=q'' ''7777'' INIMap_new) INIMap_new) True
       \<lparr>files = Map.empty, readable = (\<lambda>_. True), writable = (\<lambda>_. True)\<rparr> = (True, D') \<and>
     INIFile_read ''a.cfg'' INIMap_new D' = (True, ini_set ''server'' (ini_set ''p=q'' ''7777'' INIMap_new) INIMap_new)"
proof -
  have n: "norm_key ''server'' = ''server''" "norm_key ''p=q'' = ''p=q''" "trim ''7777'' = ''7777''" by code_simp+
  have "INIMap_ok (ini_set ''p=q'' ''7777'' INIMap_new)" "INIMap_ok (ini_set ''server'' c INIMap_new)"
    for c :: "cstring INIMap"
    by (simp_all add: ini.put_ok)
  then have "representable True (ini_set ''server'' (ini_set ''p=q'' ''7777'' INIMap_new) INIMap_new)"
    by (simp add: representable_def section_ok_def entry_ok_def key_ok_def inidata_set_new n plain_def NL_def NUL_def CR_def)
  then show ?thesis using ini_file_roundtrip by simp
qed

end
