(* ===== verification/ServerConfig.thy ===== *)
theory ServerConfig
  imports Backend IniFile
begin

text \<open>
  \<open>TeleCrap.Server/src/TeleCrap.Server.cpp\<close>, the settings: loading, saving, and the command line.
  The state is the file-level \<open>Settings\<close> and the disk.
\<close>

section \<open>Numbers in text\<close>

text \<open>\<open>strtol\<close> with base 10: white space, a sign, digits; what follows is ignored.\<close>

definition strtol :: "cstring \<Rightarrow> int option" where
  "strtol str =
     (let s = dropWhile isspace str;
          neg = (s \<noteq> [] \<and> hd s = CHR ''-'');
          s = (if s \<noteq> [] \<and> (hd s = CHR ''-'' \<or> hd s = CHR ''+'') then tl s else s);
          ds = takeWhile isdigit s;
          v = int (digits_value ds)
      in if ds = [] then None else Some (if neg then - v else v))"

definition sto :: "nat \<Rightarrow> cstring \<Rightarrow> exn + int" where
  "sto bits str = (case strtol str of
     None \<Rightarrow> Inl invalid_argument
   | Some v \<Rightarrow> (if - (2 ^ (bits - 1)) \<le> v \<and> v < 2 ^ (bits - 1) then Inr v else Inl out_of_range))"

definition stoi :: "cstring \<Rightarrow> exn + int" where "stoi = sto 32"
definition stol :: "cstring \<Rightarrow> exn + int" where "stol = sto 64"

definition safe_stoi :: "cstring \<Rightarrow> int \<Rightarrow> int" where
  "safe_stoi str defaultValue = (case stoi str of Inl _ \<Rightarrow> defaultValue | Inr v \<Rightarrow> v)"

section \<open>Settings\<close>

record ServerSettings =
  ListenPort :: u16
  DbConnection :: cstring

record Config =
  Settings :: ServerSettings
  disk :: Disk

type_synonym 'a cfgM = "(Config, exn, 'a) sem"

definition CONFIG_FILE :: cstring where
  "CONFIG_FILE = ''settings.cfg''"

definition settings_ini :: "ServerSettings \<Rightarrow> INIStructure" where
  "settings_ini S =
     (let ini = ini_modify INIMap_new ''Server'' (ini_modify [] ''ListenPort''
            (\<lambda>_. to_string (unat (ListenPort S)))) INIMap_new
      in ini_modify INIMap_new ''Server'' (ini_modify [] ''DbConnection'' (\<lambda>_. DbConnection S)) ini)"

definition configSave :: "unit cfgM" where
  "configSave = (\<lambda>c. case INIFile_generate CONFIG_FILE (settings_ini (Settings c)) True (disk c) of
     (generated, D) \<Rightarrow> (if generated then Inr () else Inl (runtime_error ''Could not save config file''),
       c\<lparr>disk := D\<rparr>))"

text \<open>\<open>ini["Server"]["..."]\<close> reads an empty string where there is no such entry.\<close>

definition configLoad :: "unit cfgM" where
  "configLoad = bindM (getsM (\<lambda>c. INIFile_read CONFIG_FILE INIMap_new (disk c))) (\<lambda>(found, ini).
     if found
     then modifyM (\<lambda>c. c\<lparr>Settings := \<lparr>
       ListenPort = word_of_int (safe_stoi (ini_get [] ''ListenPort'' (ini_get INIMap_new ''Server'' ini)) 7777),
       DbConnection = ini_get [] ''DbConnection'' (ini_get INIMap_new ''Server'' ini)\<rparr>\<rparr>)
     else thenM (modifyM (\<lambda>c. c\<lparr>Settings := \<lparr>ListenPort = 7777, DbConnection = ''telecrap.db''\<rparr>\<rparr>)) configSave)"

section \<open>The command line\<close>

text \<open>
  \<open>args\<close> are \<open>argv[0]\<close> to \<open>argv[argc - 1]\<close> as the system passes them; \<open>argv[argc]\<close> is null, and a
  \<open>std::string\<close> of it is undefined.
\<close>

definition argv :: "cstring list \<Rightarrow> nat \<Rightarrow> exn + cstring" where
  "argv args i = (if i < length args then Inr (args ! i) else Inl undefined_behaviour)"

function parseArgsLoop :: "cstring list \<Rightarrow> nat \<Rightarrow> nat \<Rightarrow> bool \<Rightarrow> bool cfgM" where
  "parseArgsLoop args argc i anyCfgChanges =
     (if \<not> i < argc then ret anyCfgChanges
      else case argv args i of
        Inl e \<Rightarrow> throw e
      | Inr arg \<Rightarrow>
          (if arg = ''-p'' then
             if int argc = int i - 1 then throw unknown_exception
             else case argv args (i + 1) of
               Inl e \<Rightarrow> throw e
             | Inr value \<Rightarrow> (case stol value of
                 Inl e \<Rightarrow> throw e
               | Inr v \<Rightarrow> thenM (modifyM (\<lambda>c. c\<lparr>Settings := (Settings c)\<lparr>ListenPort := word_of_int v\<rparr>\<rparr>))
                   (parseArgsLoop args (argc + 1) (i + 1) True))
           else parseArgsLoop args argc (i + 1) anyCfgChanges))"
  by pat_completeness auto
termination
  by (relation "measure (\<lambda>(args, argc, i, b). length args - i)") (auto simp: argv_def split: if_splits)

declare parseArgsLoop.simps [simp del]

definition parseArgs :: "cstring list \<Rightarrow> unit cfgM" where
  "parseArgs args = bindM (parseArgsLoop args (length args) 1 False) (\<lambda>anyCfgChanges.
     if anyCfgChanges then configSave else ret ())"

lemma parseArgsLoop_past:
  "argc > length args \<Longrightarrow> i \<le> length args \<Longrightarrow>
   (\<exists>e. fst (parseArgsLoop args argc i b c) = Inl e) \<and> disk (snd (parseArgsLoop args argc i b c)) = disk c"
proof (induction "length args - i" arbitrary: argc i b c)
  case 0
  then show ?case by (subst (1 2) parseArgsLoop.simps) (auto simp: argv_def throw_def)
next
  case (Suc n)
  then have IH: "(\<exists>e. fst (parseArgsLoop args k (Suc i) x d) = Inl e) \<and>
      disk (snd (parseArgsLoop args k (Suc i) x d)) = disk d" if "k > length args" for k x d
    using that by (intro Suc.hyps(1)) auto
  show ?case
    using Suc IH [of "Suc argc"] IH [of argc]
    by (subst (1 2) parseArgsLoop.simps)
      (auto simp: argv_def throw_def thenM_def bindM_def modifyM_def split: sum.splits)
qed

lemma parseArgsLoop_run:
  "i \<le> length args \<Longrightarrow> argc = length args \<Longrightarrow>
   (''-p'' \<in> set (drop i args) \<longrightarrow> (\<exists>e. fst (parseArgsLoop args argc i b c) = Inl e) \<and>
      disk (snd (parseArgsLoop args argc i b c)) = disk c) \<and>
   (''-p'' \<notin> set (drop i args) \<longrightarrow> parseArgsLoop args argc i b c = (Inr b, c))"
proof (induction "length args - i" arbitrary: i b c)
  case 0
  then show ?case by (subst (1 2 3) parseArgsLoop.simps) (auto simp: ret_def)
next
  case (Suc n)
  then have i: "i < length args" by simp
  then have d: "drop i args = args ! i # drop (Suc i) args" by (simp add: Cons_nth_drop_Suc)
  show ?case
  proof (cases "args ! i = ''-p''")
    case True
    then show ?thesis
      using i parseArgsLoop_past [of args "Suc argc" "Suc i"] Suc.prems
      by (subst (1 2 3) parseArgsLoop.simps)
        (auto simp: d argv_def throw_def thenM_def bindM_def modifyM_def split: sum.splits)
  next
    case False
    have "parseArgsLoop args argc i b c = parseArgsLoop args argc (Suc i) b c"
      using False i Suc.prems by (subst parseArgsLoop.simps) (simp add: argv_def)
    then show ?thesis using Suc.hyps(1) [of "Suc i" b c] Suc False i by (auto simp: d)
  qed
qed

text \<open>
  C28. The option \<open>-p\<close> cannot be used: the loop moves its bound where it means to move its index, so
  after any \<open>-p\<close> it runs off the end of \<open>argv\<close> (or stops earlier, at a value that is no number), and
  the port is never saved. Without \<open>-p\<close> nothing happens.
\<close>

theorem port_option_crashes:
  assumes "args \<noteq> []"
  shows "(''-p'' \<in> set (tl args) \<longrightarrow>
       (\<exists>e. fst (parseArgs args c) = Inl e) \<and> disk (snd (parseArgs args c)) = disk c) \<and>
     (''-p'' \<notin> set (tl args) \<longrightarrow> parseArgs args c = (Inr (), c))"
proof -
  have "1 \<le> length args" using assms by (cases args) auto
  then show ?thesis
    using parseArgsLoop_run [of 1 args "length args" False c]
    by (auto simp: parseArgs_def bindM_def drop_Suc ret_def split: prod.splits sum.splits)
qed

definition Config_demo :: Config where
  "Config_demo = \<lparr>Settings = \<lparr>ListenPort = 8080, DbConnection = ''chat.db''\<rparr>,
     disk = \<lparr>files = Map.empty, readable = (\<lambda>_. True), writable = (\<lambda>_. True)\<rparr>\<rparr>"

theorem port_option_crashes_witness:
  "\<exists>e. fst (parseArgs [''server'', ''-p'', ''8080''] Config_demo) = Inl e"
  using port_option_crashes [of "[''server'', ''-p'', ''8080'']" Config_demo] by simp

section \<open>Settings survive a restart\<close>

lemma to_string_digits: "to_string n \<noteq> []" "c \<in> set (to_string n) \<Longrightarrow> isdigit c"
proof (induction n rule: to_string.induct)
  case (1 n)
  { case 1 show ?case by (subst to_string.simps) simp }
  { case 2 then show ?case using 1 by (subst (asm) to_string.simps) (auto simp: isdigit_def split: if_splits) }
qed

lemma digits_value_to_string: "digits_value (to_string n) = n"
proof (induction n rule: to_string.induct)
  case (1 n)
  show ?case
  proof (cases "n < 10")
    case True
    then show ?thesis by (subst to_string.simps) (simp add: digits_value_def)
  next
    case False
    then show ?thesis using 1 by (subst to_string.simps) (simp add: digits_value_def)
  qed
qed

lemma isdigit_neq: "isdigit c \<Longrightarrow> \<not> isspace c \<and> \<not> isws c \<and> c \<noteq> CHR ''-'' \<and> c \<noteq> CHR ''+'' \<and> c \<noteq> NL \<and> c \<noteq> NUL \<and> c \<noteq> CR"
  by (auto simp: isdigit_def isspace_def isws_def NL_def NUL_def CR_def)

lemma strtol_to_string: "strtol (to_string n) = Some (int n)"
proof -
  obtain d ds where ds: "to_string n = d # ds" using to_string_digits(1) by (cases "to_string n") auto
  have d: "isdigit d" using to_string_digits(2) [of d n] by (simp add: ds)
  have "takeWhile isdigit (to_string n) = to_string n"
    using to_string_digits(2) by (simp add: takeWhile_eq_all_conv)
  then have "takeWhile isdigit ds = ds" using d by (simp add: ds)
  then show ?thesis
    using isdigit_neq [OF d] d digits_value_to_string [of n] by (simp add: strtol_def ds del: takeWhile_eq_all_conv)
qed

lemma safe_stoi_to_string: "n < 2 ^ 31 \<Longrightarrow> safe_stoi (to_string n) d = int n"
  by (simp add: safe_stoi_def stoi_def sto_def strtol_to_string)

lemma to_string_value: "plain (to_string n)" "trim (to_string n) = to_string n"
proof -
  show "plain (to_string n)" using to_string_digits(2) isdigit_neq unfolding plain_def by blast
  show "trim (to_string n) = to_string n"
    unfolding trim_strip using to_string_digits isdigit_neq
    by (intro strip_id disjI2) (meson hd_in_set last_in_set)
qed

lemma setting_keys: "norm_key ''Server'' = ''server''" "norm_key ''ListenPort'' = ''listenport''"
  "norm_key ''DbConnection'' = ''dbconnection''" "norm_key ''server'' = ''server''"
  "norm_key ''listenport'' = ''listenport''" "norm_key ''dbconnection'' = ''dbconnection''"
  by code_simp+

lemma ini_modify_key: "norm_key k = norm_key k' \<Longrightarrow> ini_modify T k = ini_modify T k'"
  by (simp add: ini_modify_def ini_at_def fun_eq_iff)

lemma settings_ini_data:
  "\<exists>c. inidata (settings_ini S) = [(''server'', c)] \<and> INIMap_ok c \<and>
     inidata c = [(''listenport'', to_string (unat (ListenPort S))), (''dbconnection'', DbConnection S)]"
proof -
  let ?f = "ini_modify [] ''listenport'' (\<lambda>_. to_string (unat (ListenPort S)))"
  let ?g = "ini_modify [] ''dbconnection'' (\<lambda>_. DbConnection S)"
  let ?m = "ini_modify INIMap_new ''server'' ?f INIMap_new"
  have "settings_ini S = ini_modify INIMap_new ''server'' ?g ?m"
    by (simp add: settings_ini_def ini_modify_key [of "''Server''" "''server''"] setting_keys
        ini_modify_key [of "''ListenPort''" "''listenport''"] ini_modify_key [of "''DbConnection''" "''dbconnection''"])
  moreover have m: "inidata ?m = [] @ [(''server'', ?f INIMap_new)]"
    using modify_new [OF INIMap_new_ok(1), of "''server''" INIMap_new ?f] by (simp add: setting_keys) (simp add: INIMap_new_def)
  ultimately have "inidata (settings_ini S) = [(''server'', ?g (?f INIMap_new))]"
    using modify_last [OF ini_modify_spec(1) [OF INIMap_new_ok(1)] setting_keys(4) m] by simp
  moreover have ok: "INIMap_ok (?f INIMap_new)" "INIMap_ok (?g (?f INIMap_new))"
    by (simp_all add: ini_modify_spec)
  moreover have f: "inidata (?f INIMap_new) = [(''listenport'', to_string (unat (ListenPort S)))]"
    using modify_new [OF INIMap_new_ok(1) setting_keys(5), of "[]"] by simp (simp add: INIMap_new_def)
  moreover have "inidata (?g (?f INIMap_new)) = [(''listenport'', to_string (unat (ListenPort S))), (''dbconnection'', DbConnection S)]"
    using modify_new [OF ok(1) setting_keys(6), of "[]"] by (simp add: f ini_keys_def)
  ultimately show ?thesis by blast
qed

lemma settings_ini_get:
  "ini_get [] ''ListenPort'' (ini_get INIMap_new ''Server'' (settings_ini S)) = to_string (unat (ListenPort S))"
  "ini_get [] ''DbConnection'' (ini_get INIMap_new ''Server'' (settings_ini S)) = DbConnection S"
  by (simp_all add: settings_ini_def ini_get_abs ini_modify_spec setting_keys)

lemma settings_representable:
  assumes "plain (DbConnection S)" and "trim (DbConnection S) = DbConnection S"
  shows "representable True (settings_ini S)"
proof -
  have "INIMap_ok (settings_ini S)" by (simp add: settings_ini_def ini_modify_spec)
  then show ?thesis
    using settings_ini_data [of S] assms to_string_value [of "unat (ListenPort S)"]
    by (auto simp: representable_def section_ok_def entry_ok_def key_ok_def plain_def NL_def NUL_def CR_def)
qed

text \<open>
  C29. The settings survive a restart: what \<open>configSave\<close> wrote \<open>configLoad\<close> reads back, whatever the
  settings were in between, for a database name without line breaks or white space at its ends.
\<close>

theorem settings_survive_restart:
  assumes "writable (disk c) CONFIG_FILE" and "readable (disk c) CONFIG_FILE"
    and "plain (DbConnection (Settings c))" and "trim (DbConnection (Settings c)) = DbConnection (Settings c)"
  shows "\<exists>c'. configSave c = (Inr (), c') \<and> Settings c' = Settings c \<and>
     configLoad (c'\<lparr>Settings := S\<rparr>) = (Inr (), c')"
proof -
  let ?D = "(disk c)\<lparr>files := (files (disk c))(CONFIG_FILE \<mapsto> INIGenerator_write True (settings_ini (Settings c)))\<rparr>"
  have "ini_size (INIMap_new :: INIStructure) = 0" by (simp add: ini_size_def INIMap_new_def)
  then have "INIFile_read CONFIG_FILE INIMap_new ?D = (True, settings_ini (Settings c))"
    using read_generated [OF settings_representable [OF assms(3,4)]] assms(2)
    by (simp add: INIFile_read_def) (simp add: CONFIG_FILE_def)
  moreover have "unat (ListenPort (Settings c)) < 2 ^ 31"
    using unat_lt [of "ListenPort (Settings c)"] by simp
  ultimately have "configLoad (c\<lparr>disk := ?D, Settings := S\<rparr>) = (Inr (), c\<lparr>disk := ?D\<rparr>)"
    by (simp add: configLoad_def monad_defs settings_ini_get safe_stoi_to_string)
  moreover have "configSave c = (Inr (), c\<lparr>disk := ?D\<rparr>)"
    using assms(1) by (simp add: configSave_def INIFile_generate_def) (simp add: CONFIG_FILE_def)
  ultimately show ?thesis by (intro exI [of _ "c\<lparr>disk := ?D\<rparr>"]) simp
qed

theorem settings_survive_restart_witness:
  "\<exists>c'. configSave Config_demo = (Inr (), c') \<and> Settings c' = Settings Config_demo \<and>
     configLoad (c'\<lparr>Settings := \<lparr>ListenPort = 0, DbConnection = []\<rparr>\<rparr>) = (Inr (), c')"
proof -
  have "trim ''chat.db'' = ''chat.db''" by code_simp
  then show ?thesis
    by (intro settings_survive_restart) (simp_all add: Config_demo_def plain_def NL_def NUL_def CR_def)
qed

end
