(* ===== verification/Moderation.thy ===== *)
theory Moderation
  imports Backend_Chat
begin

text \<open>
  Moderation as an invariant of the whole server: a banned user is not a member, and the owner of a
  group chat cannot be expelled from it. Both hold for every sequence of requests as long as the ids
  of chats fit in 32 bits and the installed addons keep off the calls that go round the rules.
\<close>

section \<open>A banned user is not a member\<close>

definition excluded :: "Db \<Rightarrow> bool" where
  "excluded d \<longleftrightarrow> Db_ok d \<and> (Chats_seq d < 2 ^ 32 \<longrightarrow>
     (\<forall>(c, u)\<in>set (Chats_has_BannedUsers d). (u, c) \<notin> set (Users_has_Chats d)))"

definition respects_bans :: "api_call \<Rightarrow> bool" where
  "respects_bans c = (case c of ApiJoinChatMemberUnsafe _ _ \<Rightarrow> False | ApiBanUserInChatUnsafe _ _ \<Rightarrow> False
     | _ \<Rightarrow> True)"

text \<open>What leaves the two relations and the chats alone, or only removes members or bans, keeps it.\<close>

lemma excluded_mono:
  assumes "excluded d" and "Db_ok d'" and "Chats_seq d \<le> Chats_seq d'"
    and "set (Chats_has_BannedUsers d') \<subseteq> set (Chats_has_BannedUsers d)"
    and "set (Users_has_Chats d') \<subseteq> set (Users_has_Chats d)"
  shows "excluded d'"
  using assms by (fastforce simp: excluded_def)

definition moderation_tables :: "Db \<Rightarrow> int \<times> (int \<times> int) list \<times> (int \<times> int) list" where
  "moderation_tables d = (Chats_seq d, Chats_has_BannedUsers d, Users_has_Chats d)"

lemma excluded_frame: "preserves Db_ok m \<Longrightarrow> keeps moderation_tables m \<Longrightarrow> preserves excluded m"
  by (simp add: preserves_def keeps_def excluded_def moderation_tables_def)

lemma statements_keep_moderation:
  "keeps moderation_tables (insert_Users n h)" "keeps moderation_tables (insert_Messages ts t c u)"
  by (simp_all add: keeps_def insert_Users_def insert_Messages_def Let_def moderation_tables_def)

lemma operations_keep_moderation:
  "keeps moderation_tables (createUser E n p)" "keeps moderation_tables (commitMessage u m)"
  "keeps moderation_tables (commitSystemMessage c ts t)" "keeps moderation_tables (renameChat c n)"
  unfolding createUser_def commitMessage_def commitSystemMessage_def renameChat_def Let_def
  by (intro frames statements_keep_moderation readonly_keeps [OF lookups_readonly(1)]
      readonly_keeps [OF lookups_readonly(3)] keeps_modifyM; simp add: moderation_tables_def)+

lemmas changes_excluded = excluded_frame [OF createUser_ok operations_keep_moderation(1)]
  excluded_frame [OF commits_ok(1) operations_keep_moderation(2)]
  excluded_frame [OF commits_ok(2) operations_keep_moderation(3)]
  excluded_frame [OF renameChat_ok operations_keep_moderation(4)]

lemma unban_excluded: "preserves excluded (unbanUserInChat ch ui)"
proof (rule preservesI)
  fix d assume d: "excluded d"
  then have "Db_ok (snd (unbanUserInChat ch ui d))"
    by (intro preservesD [OF unban_ok]) (simp add: excluded_def)
  with d show "excluded (snd (unbanUserInChat ch ui d))"
    by (rule excluded_mono) (auto simp: unbanUserInChat_def modifyM_def)
qed

lemma remove_excluded: "preserves excluded (removeMemberFromChat ch ui)"
proof (rule preservesI)
  fix d assume d: "excluded d"
  then have "Db_ok (snd (removeMemberFromChat ch ui d))"
    by (intro preservesD [OF removeMember_ok]) (simp add: excluded_def)
  with d show "excluded (snd (removeMemberFromChat ch ui d))"
    by (rule excluded_mono) (auto simp: removeMemberFromChat_def modifyM_def)
qed

text \<open>A new chat has no bans, so its first members are not banned.\<close>

definition excluded_new :: "chatid_t \<Rightarrow> Db \<Rightarrow> bool" where
  "excluded_new c d \<longleftrightarrow> (Chats_seq d < 2 ^ 32 \<longrightarrow>
     (\<forall>(c', u)\<in>set (Chats_has_BannedUsers d). (u, c') \<notin> set (Users_has_Chats d)) \<and>
     (\<forall>u. (bind_u32 c, u) \<notin> set (Chats_has_BannedUsers d)))"

lemma createGroupChat_new: "triple excluded (createGroupChat w n) (\<lambda>c d. excluded_new (ci_Id c) d \<and> Db_ok d) (\<lambda>_. excluded)"
  unfolding triple_def
proof (intro allI impI)
  fix d assume ex: "excluded d"
  then have ok: "Db_ok d" by (simp add: excluded_def)
  have ok': "Db_ok (snd (createGroupChat w n d))" by (rule preservesD [OF createGroupChat_ok ok])
  show "case createGroupChat w n d of (Inl e, d') \<Rightarrow> excluded d' | (Inr c, d') \<Rightarrow> excluded_new (ci_Id c) d' \<and> Db_ok d'"
  proof (cases "Chats_seq d + 1 < 2 ^ 32")
    case True
    have i: "bind_u32 (getUInt (Chats_seq d + 1)) = Chats_seq d + 1"
      using True ok by (intro bind_getUInt) (auto simp: Db_ok_def chats_ok_def)
    have nb: "(Chats_seq d + 1, u) \<notin> set (Chats_has_BannedUsers d)" for u
      using ids_bound(2) [OF ok] by force
    show ?thesis
      using createGroupChat_run [OF ok True, of w n] ok' ex nb True
      by (auto simp: excluded_new_def excluded_def i)
  next
    case False
    have "Chats_seq (snd (createGroupChat w n d)) = Chats_seq d + 1" if "fst (createGroupChat w n d) = Inr c" for c
      using that by (auto simp: createGroupChat_def transaction_def insert_Chats_def bindM_def Let_def thenM_def
          ret_def insert_Users_has_Chats_def split: if_splits prod.splits sum.splits)
    moreover have "snd (createGroupChat w n d) = d" if "fst (createGroupChat w n d) = Inl e" for e
      using that unfolding createGroupChat_def by (rule transaction_atomic)
    ultimately show ?thesis
      using False ex ok' by (auto simp: excluded_new_def excluded_def split: prod.splits sum.splits)
  qed
qed

lemma excluded_new_insert:
  "preserves (excluded_new c) (insert_Users_has_Chats (bind_u32 c) u)"
  "preserves (excluded_new c) (insert_DirectChats ch v w)"
  by (auto simp: preserves_def excluded_new_def insert_Users_has_Chats_def insert_DirectChats_def)

lemma createGroupChat_excluded: "preserves excluded (createGroupChat w n)"
proof (rule preservesI)
  fix d assume d: "excluded d"
  obtain r d' where r: "createGroupChat w n d = (r, d')" by fastforce
  then show "excluded (snd (createGroupChat w n d))"
    using tripleD [OF createGroupChat_new d] by (cases r) (auto simp: excluded_def excluded_new_def)
qed

lemma createDirectChat_excluded: "preserves excluded (createDirectChat u v)"
proof (rule preservesI)
  fix d assume d: "excluded d"
  then have ok: "Db_ok (snd (createDirectChat u v d))"
    by (intro preservesD [OF createDirectChat_ok]) (simp add: excluded_def)
  obtain r d1 where g: "createGroupChat \<lparr>ui_Id = SYSTEM_FROMID, ui_Name = fs_default CHATNAME_MAXLENGTH,
      ui_PasswordHash = 0\<rparr> (direct_chat_name u v) d = (r, d1)" by fastforce
  show "excluded (snd (createDirectChat u v d))"
  proof (cases r)
    case (Inl e)
    then show ?thesis
      using g preservesD [OF createGroupChat_excluded d] by (simp add: createDirectChat_def bindM_def) (metis snd_conv)
  next
    case (Inr c)
    have "preserves (excluded_new (ci_Id c)) (transaction (
         thenM (insert_Users_has_Chats (bind_u32 (ci_Id c)) (bind_u32 (ui_Id u)))
         (thenM (insert_Users_has_Chats (bind_u32 (ci_Id c)) (bind_u32 (ui_Id v)))
         (thenM (insert_DirectChats (bind_u32 (ci_Id c)) x y) (ret z)))))" for x y and z :: DirectChatInfo
      by (intro pres excluded_new_insert)
    moreover have "excluded_new (ci_Id c) d1"
      using tripleD(1) [OF createGroupChat_new d] g Inr by blast
    ultimately have "excluded_new (ci_Id c) (snd (createDirectChat u v d))"
      using g Inr by (simp add: createDirectChat_def bindM_def preserves_def)
    then show ?thesis using ok by (simp add: excluded_def excluded_new_def)
  qed
qed

lemma expel_excluded: "preserves excluded (thenM (banUserInChat c u) (removeMemberFromChat (ci_Id c) (ui_Id u)))"
proof (rule preservesI)
  fix d assume d: "excluded d"
  then have "Db_ok (snd (thenM (banUserInChat c u) (removeMemberFromChat (ci_Id c) (ui_Id u)) d))"
    by (intro preservesD [OF preserves_thenM [OF member_ops_ok(2) removeMember_ok]]) (simp add: excluded_def)
  with d show "excluded (snd (thenM (banUserInChat c u) (removeMemberFromChat (ci_Id c) (ui_Id u)) d))"
    by (auto simp: excluded_def banUserInChat_def insert_ignore_BannedUsers_def removeMemberFromChat_def
        thenM_def bindM_def modifyM_def)
qed

lemma admit_excluded:
  assumes "excluded d" and "fst (isUserBannedFromChat (ci_Id c) (ui_Id u) d) = Inr False"
  shows "excluded (snd (joinChatMember c u d))"
proof -
  have "Db_ok (snd (joinChatMember c u d))"
    using assms(1) by (intro preservesD [OF member_ops_ok(1)]) (simp add: excluded_def)
  then show ?thesis
    using assms by (auto simp: excluded_def joinChatMember_def insert_ignore_Users_has_Chats_def
        isUserBannedFromChat_def getsM_def)
qed

lemmas excluded_changes = changes_excluded unban_excluded remove_excluded createGroupChat_excluded
  createDirectChat_excluded expel_excluded

lemma ctxBanUser_excluded: "preserves (\<lambda>s. excluded (db s)) (ctxBanUser ctx u)"
  unfolding ctxBanUser_def thenM_assoc liftdb_thenM
  by (intro preserves_if preserves_bindM preserves_thenM preserves_option preserves_ret
      liftdb_preserves [OF expel_excluded] liftdb_preserves [OF db_readonly_pres(1)])

lemma calls_excluded:
  assumes "respects_bans c"
  shows "preserves (\<lambda>s. excluded (db s)) (api E c)"
  using assms by (cases c; simp only: api.simps respects_bans_def api_call.case)
    (auto simp only: ctxSendSystemMessage_def ctxKickUser_def ctxUnbanUser_def ctxRenameChat_def
      ctxSendSystemMessageToChatId_def apiMembersByChatId_def apiMessagesByChatId_def apiChatsByUserId_def
      apiCommitSystemMessage_def apiCreateGroupChatUnsafe_def apiRenameChatUnsafe_def hasMember_def
      api_plain_defs intro!: pres excluded_changes ctxBanUser_excluded)

interpretation ban: request_invariant excluded respects_bans
  by unfold_locales (rule excluded_changes admit_excluded calls_excluded; assumption?)+

text \<open>A sequence of requests, each handled to the end before the next.\<close>

primrec serve :: "ServerEnv \<Rightarrow> (transport \<times> Request) list \<Rightarrow> Server \<Rightarrow> Server" where
  "serve E [] s = s"
| "serve E (r # rs) s = serve E rs (snd (processRequest E (fst r) (snd r) s))"

lemma serve_inv:
  assumes "\<And>t r. preserves I (processRequest E t r)"
  shows "I s \<Longrightarrow> I (serve E rs s)"
  by (induction rs arbitrary: s) (auto intro: preservesD [OF assms])

text \<open>
  C22. A ban holds: whatever the clients send, in whatever order, a banned user does not become a
  member of the chat again before the ban is lifted, as long as no addon calls the two functions of
  the API that admit and ban without asking.
\<close>

theorem banned_user_stays_out:
  assumes "excluded (db s)" and "addons_only respects_bans s"
    and "s' = serve E rs s" and "Chats_seq (db s') < 2 ^ 32"
  shows "Db_ok (db s') \<and> (is_banned (db s') c u \<longrightarrow> \<not> is_member (db s') u c)"
proof -
  have "excluded (db s') \<and> addons_only respects_bans s'"
    unfolding assms(3) by (rule serve_inv [OF ban.processRequest_inv]) (use assms(1,2) in simp)
  then show ?thesis
    using assms(4) by (auto simp: excluded_def is_banned_def is_member_def)
qed

text \<open>Bob, banned from chat 1, is logged in on transport 20 and tries to join again.\<close>

definition Server_ban :: Server where
  "Server_ban = Server_demo\<lparr>ClientUsers := [(10, 2), (20, 3)],
     db := Db_demo\<lparr>Users_has_Chats := [(2, 1)], Chats_has_BannedUsers := [(1, 3)]\<rparr>\<rparr>"

lemma query_texts:
  "fs_of CHATNAME_MAXLENGTH ''#1'' ! 0 = CHR ''#''" "c_str (tl (fs_of CHATNAME_MAXLENGTH ''#1'')) = ''1''"
  by (simp_all add: fs_of_def fs_assign_def c_str_def CHATNAME_MAXLENGTH_def NUL_def)

lemma stoul_one: "stoul ''1'' = Inr 1"
  by (simp add: stoul_def Let_def isspace_def isdigit_def digits_value_def)

lemma Env_plain_sends [simp]: "send_result Env_plain n = None"
  by (simp add: Env_plain_def)

lemma banned_join_run:
  "db (serve Env_plain [(20, JoinGroupChat \<lparr>nr_UserToken = 140, nr_Name = fs_of CHATNAME_MAXLENGTH ''#1''\<rparr>)]
     Server_ban) = db Server_ban"
  by (simp add: processRequest_def tryM_def checkToken_run requireUser_def monad_defs Server_ban_def
      handleJoinGroupChat_def findChatByQuery_def query_texts stoul_one stoulM_def liftdb_run findChatById_def
      findUserById_def findUserBySocket_def Db_demo_def row_ChatInfo_def row_UserInfo_def isDirectChat_def
      isUserBannedFromChat_def bind_u32_def send_error_ok getUInt_def SYSTEM_FROMID_def)

theorem banned_user_stays_out_witness:
  "\<not> is_member (db (serve Env_plain
     [(20, JoinGroupChat \<lparr>nr_UserToken = 140, nr_Name = fs_of CHATNAME_MAXLENGTH ''#1''\<rparr>)] Server_ban)) 3 1"
proof -
  have "Db_ok (db Server_ban)"
    by (simp add: Db_ok_def table_ok_defs Server_ban_def Db_demo_def user_exists_def chat_exists_def)
  then have "excluded (db Server_ban)"
    by (simp add: excluded_def) (simp add: Server_ban_def Db_demo_def)
  moreover have "addons_only respects_bans Server_ban"
    by (simp add: addons_only_def respects_bans_def Server_ban_def Server_demo_def)
  moreover have "Chats_seq (db Server_ban) < 2 ^ 32" "is_banned (db Server_ban) 1 3"
    by (simp_all add: Server_ban_def Db_demo_def is_banned_def bind_u32_def)
  ultimately show ?thesis
    using banned_user_stays_out [OF _ _ refl, of Server_ban Env_plain "[(20, JoinGroupChat \<lparr>nr_UserToken = 140,
      nr_Name = fs_of CHATNAME_MAXLENGTH ''#1''\<rparr>)]" 1 3] by (simp add: banned_join_run del: serve.simps)
qed

section \<open>A query that is not a number\<close>

text \<open>
  C23. A chat asked for by \<open>$\<close> or \<open>#\<close> and no number makes \<open>std::stoul\<close> throw \<open>invalid_argument\<close>, which is
  not a \<open>runtime_error\<close>: the exception leaves \<open>processRequest\<close> and the client gets no answer at all.
\<close>

theorem malformed_id_unanswered:
  assumes "Db_ok (db s)" and "logged_in s t ur" and "nr_UserToken q = AccessToken (transports s t)"
    and "nr_Name q ! 0 = CHR ''$'' \<or> nr_Name q ! 0 = CHR ''#''"
    and "stoul (c_str (tl (nr_Name q))) = Inl invalid_argument"
    and "r = GetChatInfo q \<or> r = JoinGroupChat q"
  shows "processRequest E t r s = (Inl invalid_argument, s)"
proof -
  have "findChatByQuery E u (nr_Name q) s = (Inl invalid_argument, s)" for u
    using assms(4,5) by (auto simp: findChatByQuery_def stoulM_def monad_defs)
  then have "dispatch E t r s = (Inl invalid_argument, s)"
    using assms(3,6) requireUser_logged_in [OF assms(1,2)]
    by (auto simp: checkToken_run union_token_read handleGetChatInfo_def handleJoinGroupChat_def bindM_def)
  then show ?thesis by (simp add: processRequest_def tryM_def throw_def)
qed

theorem malformed_id_unanswered_witness:
  "processRequest Env_plain 10 (GetChatInfo \<lparr>nr_UserToken = 70, nr_Name = fs_of CHATNAME_MAXLENGTH ''#x''\<rparr>) Server_demo =
     (Inl invalid_argument, Server_demo)"
proof -
  have "logged_in Server_demo 10 (Users Db_demo ! 1)"
    by (simp add: logged_in_def Db_demo_def bind_u32_def)
  moreover have "fs_of CHATNAME_MAXLENGTH ''#x'' ! 0 = CHR ''#''" "c_str (tl (fs_of CHATNAME_MAXLENGTH ''#x'')) = ''x''"
    by (simp_all add: fs_of_def fs_assign_def c_str_def CHATNAME_MAXLENGTH_def NUL_def)
  moreover have "stoul ''x'' = Inl invalid_argument" by (simp add: stoul_def Let_def isspace_def isdigit_def)
  ultimately show ?thesis
    using malformed_id_unanswered [of Server_demo 10 "Users Db_demo ! 1"
      "\<lparr>nr_UserToken = 70, nr_Name = fs_of CHATNAME_MAXLENGTH ''#x''\<rparr>"] Db_demo_ok by simp
qed

end
