(* ===== verification/Socket.thy ===== *)
theory Socket
  imports Requests Responces
begin

text \<open>
  \<open>TeleCrap.Shared/SocketHelper.cpp\<close> in its POSIX build. The system calls are parameters over a state
  of the world \<open>'w\<close>; \<open>tcp_ok\<close> and \<open>flowing\<close> name what the code relies on. A \<open>sockhandle_t\<close> is an
  \<open>int\<close>.
\<close>

section \<open>The system calls\<close>

type_synonym sock = int

datatype errno = ECONNABORTED | ECONNRESET | EPIPE | ECONNREFUSED | EOTHER nat

datatype sysres = SysError errno | SysCount nat

datatype family = AF_INET | AF_INET6 | AF_OTHER

text \<open>\<open>sa_text\<close> is what \<open>inet_ntop\<close> writes for the address.\<close>

record sockaddr =
  sa_family :: family
  sin_port :: u16
  sin_addr :: u32
  sa_text :: cstring

record addrinfo =
  ai_family :: family
  ai_addr :: "u32 option"

record 'w Sockets =
  sys_socket :: "'w \<Rightarrow> sock \<times> 'w"
  sys_bind :: "sock \<Rightarrow> u32 \<Rightarrow> u16 \<Rightarrow> 'w \<Rightarrow> errno option \<times> 'w"
  sys_listen :: "sock \<Rightarrow> 'w \<Rightarrow> errno option \<times> 'w"
  sys_connect :: "sock \<Rightarrow> u32 \<Rightarrow> u16 \<Rightarrow> 'w \<Rightarrow> errno option \<times> 'w"
  sys_accept :: "sock \<Rightarrow> 'w \<Rightarrow> sock \<times> 'w"
  sys_send :: "sock \<Rightarrow> byte list \<Rightarrow> 'w \<Rightarrow> sysres \<times> 'w"
  sys_recv :: "sock \<Rightarrow> nat \<Rightarrow> 'w \<Rightarrow> (errno + byte list) \<times> 'w"
  sys_close :: "sock \<Rightarrow> 'w \<Rightarrow> 'w"
  sys_getpeername :: "sock \<Rightarrow> 'w \<Rightarrow> sockaddr option"
  sys_getsockname :: "sock \<Rightarrow> 'w \<Rightarrow> sockaddr option"
  sys_getaddrinfo :: "cstring \<Rightarrow> 'w \<Rightarrow> addrinfo list option"

record 'w Net =
  world :: 'w
  ServerAddress :: u32
  ServerPort :: u16

type_synonym ('w, 'a) netM = "('w Net, exn, 'a) sem"

definition syscall :: "('w \<Rightarrow> 'a \<times> 'w) \<Rightarrow> ('w, 'a) netM" where
  "syscall f st = (case f (world st) of (r, w) \<Rightarrow> (Inr r, st\<lparr>world := w\<rparr>))"

definition code_of :: "errno option \<Rightarrow> ErrorCode" where
  "code_of r = (if r = None then EC_OK else EC_SOCKET_ERROR)"

definition connection_lost :: "errno \<Rightarrow> bool" where
  "connection_lost e \<longleftrightarrow> e = ECONNABORTED \<or> e = ECONNRESET \<or> e = EPIPE"

section \<open>Opening and closing\<close>

definition Close :: "'w Sockets \<Rightarrow> sock \<Rightarrow> ('w, sock) netM" where
  "Close K socketInfo =
     (if socketInfo = 0 then ret socketInfo
      else thenM (modifyM (\<lambda>st. st\<lparr>world := sys_close K socketInfo (world st)\<rparr>)) (ret 0))"

text \<open>The first address of family \<open>AF_INET\<close> that comes with an address.\<close>

definition ResolveServerHost :: "'w Sockets \<Rightarrow> cstring \<Rightarrow> ('w, bool) netM" where
  "ResolveServerHost K hostNameOrIPv4 =
     (let host = strip isspace hostNameOrIPv4 in
      if host = [] then ret False
      else bindM (getsM (\<lambda>st. sys_getaddrinfo K (c_str host) (world st))) (\<lambda>resolved.
        case resolved of
          None \<Rightarrow> ret False
        | Some ps \<Rightarrow> (case List.find (\<lambda>p. ai_family p = AF_INET \<and> ai_addr p \<noteq> None) ps of
            None \<Rightarrow> ret False
          | Some p \<Rightarrow> thenM (modifyM (\<lambda>st. st\<lparr>ServerAddress := the (ai_addr p)\<rparr>)) (ret True))))"

definition INADDR_ANY :: u32 where "INADDR_ANY = 0"

definition OpenHandshake :: "'w Sockets \<Rightarrow> ('w, sock) netM" where
  "OpenHandshake K =
     bindM (syscall (sys_socket K)) (\<lambda>listener.
       if listener < 0
       then throw (runtime_error ''Failed to create Handshake listener socket. Socket constructor returned negative descriptor.'')
       else bindM (getsM ServerPort) (\<lambda>port.
         bindM (syscall (sys_bind K listener INADDR_ANY port)) (\<lambda>r.
           if code_of r \<noteq> EC_OK
           then thenM (Close K listener) (throw (runtime_error ''Failed to bind Handshake listener socket''))
           else bindM (syscall (sys_listen K listener)) (\<lambda>r.
             if code_of r \<noteq> EC_OK
             then thenM (Close K listener) (throw (runtime_error ''Failed to listen Handshake listener socket''))
             else ret listener))))"

text \<open>
  \<open>request_error\<close> builds its base from a member that is not yet constructed: what \<open>what()\<close> says is a
  parameter, \<open>garbage\<close>.
\<close>

definition request_failed :: "cstring \<Rightarrow> cstring \<Rightarrow> ErrorCode \<Rightarrow> exn" where
  "request_failed garbage message code = request_error garbage (fs_of ERRORMESSAGE_MAXLENGTH message) code"

definition ConnectHandshake :: "'w Sockets \<Rightarrow> cstring \<Rightarrow> ('w, sock) netM" where
  "ConnectHandshake K garbage =
     bindM (syscall (sys_socket K)) (\<lambda>transport.
       if transport < 0
       then throw (runtime_error ''Failed to create Handshake listener socket. Socket constructor returned negative descriptor.'')
       else bindM (getsM (\<lambda>st. (ServerAddress st, ServerPort st))) (\<lambda>(addr, port).
         bindM (syscall (sys_connect K transport addr port)) (\<lambda>r.
           case r of
             Some lastError \<Rightarrow> thenM (Close K transport)
               (if lastError = ECONNREFUSED then throw connection_refused_error
                else throw (request_failed garbage ''Failed to connect Handshake listener socket.'' (code_of r)))
           | None \<Rightarrow> ret transport)))"

section \<open>Names\<close>

definition identificator :: "sockaddr option \<Rightarrow> cstring" where
  "identificator addr = (case addr of
     None \<Rightarrow> ''Unknown''
   | Some a \<Rightarrow> (if sa_family a = AF_INET \<or> sa_family a = AF_INET6 then sa_text a else ''Unsupported Protocol''))"

definition PeerIdentificatorOf :: "'w Sockets \<Rightarrow> sock \<Rightarrow> ('w, cstring) netM" where
  "PeerIdentificatorOf K socketInfo = getsM (\<lambda>st. identificator (sys_getpeername K socketInfo (world st)))"

definition PeerAddressOf :: "'w Sockets \<Rightarrow> sock \<Rightarrow> ('w, u32) netM" where
  "PeerAddressOf K socketInfo = getsM (\<lambda>st.
     case sys_getpeername K socketInfo (world st) of None \<Rightarrow> 0 | Some a \<Rightarrow> sin_addr a)"

definition PeerPortOf :: "'w Sockets \<Rightarrow> sock \<Rightarrow> ('w, u16) netM" where
  "PeerPortOf K socketInfo = getsM (\<lambda>st.
     case sys_getpeername K socketInfo (world st) of None \<Rightarrow> 0 | Some a \<Rightarrow> sin_port a)"

definition SockIdentificatorOf :: "'w Sockets \<Rightarrow> sock \<Rightarrow> ('w, cstring) netM" where
  "SockIdentificatorOf K socketInfo = getsM (\<lambda>st. identificator (sys_getsockname K socketInfo (world st)))"

definition SockAddressOf :: "'w Sockets \<Rightarrow> sock \<Rightarrow> ('w, u32) netM" where
  "SockAddressOf K socketInfo = getsM (\<lambda>st.
     case sys_getsockname K socketInfo (world st) of None \<Rightarrow> 0 | Some a \<Rightarrow> sin_addr a)"

definition SockPortOf :: "'w Sockets \<Rightarrow> sock \<Rightarrow> ('w, u16) netM" where
  "SockPortOf K socketInfo = getsM (\<lambda>st.
     case sys_getsockname K socketInfo (world st) of None \<Rightarrow> 0 | Some a \<Rightarrow> sin_port a)"

section \<open>Sending\<close>

text \<open>
  A buffer is its bytes; every buffer the program sends is shorter than \<open>2^31\<close>, so the casts to
  \<open>int\<close> keep the value.
\<close>

function SendBufferLoop :: "'w Sockets \<Rightarrow> sock \<Rightarrow> byte list \<Rightarrow> nat \<Rightarrow> ('w, ErrorCode) netM" where
  "SendBufferLoop K transportSocket data sent st =
     (if \<not> sent < length data then (Inr EC_OK, st)
      else case sys_send K transportSocket (drop sent data) (world st) of
        (SysError lastError, w) \<Rightarrow>
          (if connection_lost lastError then Inl disconnected_error else Inr EC_SOCKET_ERROR, st\<lparr>world := w\<rparr>)
      | (SysCount bytesSent, w) \<Rightarrow>
          (if bytesSent = 0 then (Inl disconnected_error, st\<lparr>world := w\<rparr>)
           else SendBufferLoop K transportSocket data (sent + bytesSent) (st\<lparr>world := w\<rparr>)))"
  by pat_completeness auto
termination
  by (relation "measure (\<lambda>(K, sock, data, sent, st). length data - sent)") auto

definition SendBuffer :: "'w Sockets \<Rightarrow> sock \<Rightarrow> byte list \<Rightarrow> ('w, ErrorCode) netM" where
  "SendBuffer K transportSocket data = SendBufferLoop K transportSocket data 0"

function SendDataLoop :: "'w Sockets \<Rightarrow> sock \<Rightarrow> byte list \<Rightarrow> int \<Rightarrow> ('w, ErrorCode) netM" where
  "SendDataLoop K transportSocket buffer toBeSent st =
     (if \<not> toBeSent > 0 then (Inr EC_OK, st)
      else case sys_send K transportSocket (drop (nat (int (length buffer) - toBeSent)) buffer) (world st) of
        (SysError lastError, w) \<Rightarrow>
          (if connection_lost lastError then Inl disconnected_error else Inr EC_SOCKET_ERROR, st\<lparr>world := w\<rparr>)
      | (SysCount bytesSent, w) \<Rightarrow>
          (if bytesSent = 0 then (Inl disconnected_error, st\<lparr>world := w\<rparr>)
           else SendDataLoop K transportSocket buffer (toBeSent - int bytesSent) (st\<lparr>world := w\<rparr>)))"
  by pat_completeness auto
termination
  by (relation "measure (\<lambda>(K, sock, buffer, toBeSent, st). nat toBeSent)") auto

definition SendData :: "'w Sockets \<Rightarrow> sock \<Rightarrow> byte list \<Rightarrow> ('w, ErrorCode) netM" where
  "SendData K transportSocket buffer = SendDataLoop K transportSocket buffer (int (length buffer))"

definition size_mismatch :: "nat \<Rightarrow> nat \<Rightarrow> exn" where
  "size_mismatch expected got = runtime_error (''sentBytes amount mismatch (expected - '' @ to_string expected @
     '', got - '' @ to_string got @ '')'')"

definition SendExactly :: "'w Sockets \<Rightarrow> sock \<Rightarrow> byte list \<Rightarrow> ('w, ErrorCode) netM" where
  "SendExactly K transportSocket buffer = bindM (syscall (sys_send K transportSocket buffer)) (\<lambda>r.
     case r of
       SysCount sentBytes \<Rightarrow>
         (if sentBytes = 0 then throw disconnected_error
          else if sentBytes \<noteq> length buffer then throw (size_mismatch (length buffer) sentBytes)
          else ret EC_OK)
     | SysError lastError \<Rightarrow> (if connection_lost lastError then throw disconnected_error else ret EC_FAULT))"

section \<open>Receiving\<close>

text \<open>The value is the code and the bytes that were written to the buffer.\<close>

function ReceiveBufferLoop :: "'w Sockets \<Rightarrow> sock \<Rightarrow> nat \<Rightarrow> byte list \<Rightarrow> ('w, ErrorCode \<times> byte list) netM" where
  "ReceiveBufferLoop K transportSocket sz data st =
     (if \<not> length data < sz then (Inr (EC_OK, data), st)
      else case sys_recv K transportSocket (sz - length data) (world st) of
        (Inl lastError, w) \<Rightarrow>
          (if connection_lost lastError then Inl disconnected_error else Inr (EC_SOCKET_ERROR, data), st\<lparr>world := w\<rparr>)
      | (Inr bytes, w) \<Rightarrow>
          (if bytes = [] then (Inl disconnected_error, st\<lparr>world := w\<rparr>)
           else if length bytes > sz - length data then (Inl undefined_behaviour, st\<lparr>world := w\<rparr>)
           else ReceiveBufferLoop K transportSocket sz (data @ bytes) (st\<lparr>world := w\<rparr>)))"
  by pat_completeness auto
termination
  by (relation "measure (\<lambda>(K, sock, sz, data, st). sz - length data)") (auto simp: neq_Nil_conv)

definition ReceiveBuffer :: "'w Sockets \<Rightarrow> sock \<Rightarrow> nat \<Rightarrow> ('w, ErrorCode \<times> byte list) netM" where
  "ReceiveBuffer K transportSocket sz = ReceiveBufferLoop K transportSocket sz []"

function ReceiveDataLoop :: "'w Sockets \<Rightarrow> sock \<Rightarrow> nat \<Rightarrow> int \<Rightarrow> byte list \<Rightarrow> ('w, ErrorCode \<times> byte list) netM" where
  "ReceiveDataLoop K transportSocket sz toBeReaded buffer st =
     (if \<not> toBeReaded > 0 then (Inr (EC_OK, buffer), st)
      else case sys_recv K transportSocket (nat toBeReaded) (world st) of
        (Inl lastError, w) \<Rightarrow>
          (if connection_lost lastError then Inl disconnected_error else Inr (EC_SOCKET_ERROR, buffer), st\<lparr>world := w\<rparr>)
      | (Inr bytes, w) \<Rightarrow>
          (if bytes = [] then (Inl disconnected_error, st\<lparr>world := w\<rparr>)
           else if int (length bytes) > toBeReaded then (Inl undefined_behaviour, st\<lparr>world := w\<rparr>)
           else ReceiveDataLoop K transportSocket sz (toBeReaded - int (length bytes)) (buffer @ bytes)
                  (st\<lparr>world := w\<rparr>)))"
  by pat_completeness auto
termination
  by (relation "measure (\<lambda>(K, sock, sz, toBeReaded, buffer, st). nat toBeReaded)") (auto simp: neq_Nil_conv)

definition ReceiveData :: "'w Sockets \<Rightarrow> sock \<Rightarrow> nat \<Rightarrow> ('w, ErrorCode \<times> byte list) netM" where
  "ReceiveData K transportSocket sz = ReceiveDataLoop K transportSocket sz (int sz) []"

definition ReceiveExactly :: "'w Sockets \<Rightarrow> sock \<Rightarrow> nat \<Rightarrow> ('w, ErrorCode \<times> byte list) netM" where
  "ReceiveExactly K transportSocket sz = bindM (syscall (sys_recv K transportSocket sz)) (\<lambda>r.
     case r of
       Inr bytes \<Rightarrow>
         (if bytes = [] then throw disconnected_error
          else if length bytes > sz then throw undefined_behaviour
          else if length bytes \<noteq> sz then throw (size_mismatch sz (length bytes))
          else ret (EC_OK, bytes))
     | Inl lastError \<Rightarrow> (if connection_lost lastError then throw disconnected_error else ret (EC_FAULT, [])))"

declare SendBufferLoop.simps [simp del] SendDataLoop.simps [simp del]
  ReceiveBufferLoop.simps [simp del] ReceiveDataLoop.simps [simp del]

section \<open>What the loops do\<close>

text \<open>
  TCP: \<open>out w s\<close> are the bytes given to socket \<open>s\<close> so far, \<open>inc w s\<close> those of the incoming stream
  that are still to be read, in their order. A call takes a prefix of the buffer, or delivers a prefix
  of what is to be read, never more than asked for; a failed call moves nothing; no call touches
  another socket's bytes.
\<close>

definition send_spec where
  "send_spec out inc s buf w r \<longleftrightarrow> (case r of
     (SysCount n, w') \<Rightarrow> n \<le> length buf \<and> out w' = (out w)(s := out w s @ take n buf) \<and> inc w' = inc w
   | (SysError _, w') \<Rightarrow> out w' = out w \<and> inc w' = inc w)"

definition recv_spec where
  "recv_spec out inc s n w r \<longleftrightarrow> (case r of
     (Inr bs, w') \<Rightarrow> length bs \<le> n \<and> out w' = out w \<and> (\<exists>rest. inc w s = bs @ rest \<and> inc w' = (inc w)(s := rest))
   | (Inl _, w') \<Rightarrow> out w' = out w \<and> inc w' = inc w)"

definition tcp_ok :: "'w Sockets \<Rightarrow> ('w \<Rightarrow> sock \<Rightarrow> byte list) \<Rightarrow> ('w \<Rightarrow> sock \<Rightarrow> byte list) \<Rightarrow> bool" where
  "tcp_ok K out inc \<longleftrightarrow> (\<forall>s buf w. send_spec out inc s buf w (sys_send K s buf w)) \<and>
     (\<forall>s n w. recv_spec out inc s n w (sys_recv K s n w))"

text \<open>
  A connection that flows: a call on bytes there are, or with a buffer that is not empty, makes progress.
\<close>

definition flowing :: "'w Sockets \<Rightarrow> ('w \<Rightarrow> sock \<Rightarrow> byte list) \<Rightarrow> sock \<Rightarrow> bool" where
  "flowing K inc s \<longleftrightarrow>
     (\<forall>buf w. buf \<noteq> [] \<longrightarrow> (\<exists>n w'. sys_send K s buf w = (SysCount (Suc n), w'))) \<and>
     (\<forall>n w. 0 < n \<longrightarrow> inc w s \<noteq> [] \<longrightarrow> (\<exists>b bs w'. sys_recv K s n w = (Inr (b # bs), w')))"

lemma tcp_send:
  assumes "tcp_ok K out inc"
  shows "sys_send K s buf w = (SysCount n, w') \<Longrightarrow>
      n \<le> length buf \<and> out w' = (out w)(s := out w s @ take n buf) \<and> inc w' = inc w"
    and "sys_send K s buf w = (SysError e, w') \<Longrightarrow> out w' = out w \<and> inc w' = inc w"
proof -
  have "send_spec out inc s buf w (sys_send K s buf w)" using assms by (simp add: tcp_ok_def)
  then show "sys_send K s buf w = (SysCount n, w') \<Longrightarrow>
      n \<le> length buf \<and> out w' = (out w)(s := out w s @ take n buf) \<and> inc w' = inc w"
    and "sys_send K s buf w = (SysError e, w') \<Longrightarrow> out w' = out w \<and> inc w' = inc w"
    by (simp_all add: send_spec_def)
qed

lemma tcp_recv:
  assumes "tcp_ok K out inc"
  shows "sys_recv K s n w = (Inr bs, w') \<Longrightarrow>
      length bs \<le> n \<and> out w' = out w \<and> (\<exists>rest. inc w s = bs @ rest \<and> inc w' = (inc w)(s := rest))"
    and "sys_recv K s n w = (Inl e, w') \<Longrightarrow> out w' = out w \<and> inc w' = inc w"
proof -
  have "recv_spec out inc s n w (sys_recv K s n w)" using assms by (simp add: tcp_ok_def)
  then show "sys_recv K s n w = (Inr bs, w') \<Longrightarrow>
      length bs \<le> n \<and> out w' = out w \<and> (\<exists>rest. inc w s = bs @ rest \<and> inc w' = (inc w)(s := rest))"
    and "sys_recv K s n w = (Inl e, w') \<Longrightarrow> out w' = out w \<and> inc w' = inc w"
    by (simp_all add: recv_spec_def)
qed

text \<open>
  Sending: a prefix of what is left goes out, all of it if the code is \<open>OK\<close>; nothing else changes.
\<close>

definition same_globals :: "'w Net \<Rightarrow> 'w Net \<Rightarrow> bool" where
  "same_globals st st' \<longleftrightarrow> ServerAddress st' = ServerAddress st \<and> ServerPort st' = ServerPort st"

lemma same_globals_simps [simp]: "same_globals st st" "same_globals (st\<lparr>world := w\<rparr>) st' = same_globals st st'"
  "same_globals st (st\<lparr>world := w\<rparr>)"
  by (simp_all add: same_globals_def)

definition sent_prefix where
  "sent_prefix out inc s rest st r st' \<longleftrightarrow> (\<exists>n \<le> length rest.
     out (world st') = (out (world st))(s := out (world st) s @ take n rest) \<and> inc (world st') = inc (world st) \<and>
     same_globals st st' \<and> (r = Inr EC_OK \<longrightarrow> n = length rest) \<and>
     (\<forall>e. r = Inl e \<longrightarrow> e = disconnected_error))"

lemma sent_prefix_step:
  assumes "tcp_ok K out inc" and "sys_send K s rest (world st) = (SysCount n, w)"
    and "sent_prefix out inc s (drop n rest) (st\<lparr>world := w\<rparr>) r st'"
  shows "sent_prefix out inc s rest st r st'"
proof -
  note s = tcp_send(1) [OF assms(1,2)]
  obtain k where k: "k \<le> length (drop n rest)"
    "out (world st') = (out w)(s := out w s @ take k (drop n rest))" "inc (world st') = inc w"
    "same_globals st st'" "r = Inr EC_OK \<longrightarrow> k = length (drop n rest)"
    "\<forall>e. r = Inl e \<longrightarrow> e = disconnected_error"
    using assms(3) by (auto simp: sent_prefix_def)
  have "take n rest @ take k (drop n rest) = take (n + k) rest" by (simp add: take_add)
  then show ?thesis
    using s k unfolding sent_prefix_def by (intro exI [of _ "n + k"]) auto
qed

lemma sent_prefix_stop:
  "tcp_ok K out inc \<Longrightarrow> sys_send K s rest (world st) = (SysError e, w) \<Longrightarrow> r \<noteq> Inr EC_OK \<Longrightarrow>
   \<forall>e. r = Inl e \<longrightarrow> e = disconnected_error \<Longrightarrow> sent_prefix out inc s rest st r (st\<lparr>world := w\<rparr>)"
  "tcp_ok K out inc \<Longrightarrow> sys_send K s rest (world st) = (SysCount 0, w) \<Longrightarrow>
   sent_prefix out inc s rest st (Inl disconnected_error) (st\<lparr>world := w\<rparr>)"
  "sent_prefix out inc s [] st (Inr EC_OK) st"
  by (auto simp: sent_prefix_def dest: tcp_send intro!: exI [of _ 0])

lemma EC_neq: "EC_SOCKET_ERROR \<noteq> EC_OK"
  by (simp add: EC_SOCKET_ERROR_def EC_OK_def)

lemma SendBufferLoop_sent:
  assumes "tcp_ok K out inc"
  shows "sent \<le> length data \<Longrightarrow> sent_prefix out inc s (drop sent data) st (fst (SendBufferLoop K s data sent st))
     (snd (SendBufferLoop K s data sent st))"
  using assms
proof (induction K s data sent st rule: SendBufferLoop.induct)
  case (1 K s data sent st)
  show ?case
  proof (cases "sent < length data")
    case False
    then show ?thesis using 1(2) by (simp add: SendBufferLoop.simps sent_prefix_stop)
  next
    case True
    obtain r w where r: "sys_send K s (drop sent data) (world st) = (r, w)" by fastforce
    show ?thesis
    proof (cases r)
      case (SysError e)
      then show ?thesis
        using True r sent_prefix_stop(1) [OF 1(3), of s "drop sent data" st e w] EC_neq
        by (subst (1 2) SendBufferLoop.simps) auto
    next
      case (SysCount n)
      note r = r [unfolded SysCount]
      show ?thesis
      proof (cases "n = 0")
        case zero: True
        then show ?thesis
          using True r sent_prefix_stop(2) [OF 1(3)] by (subst (1 2) SendBufferLoop.simps) simp
      next
        case False
        have "n \<le> length (drop sent data)" using tcp_send(1) [OF 1(3) r] by simp
        then have "sent_prefix out inc s (drop n (drop sent data)) (st\<lparr>world := w\<rparr>)
            (fst (SendBufferLoop K s data (sent + n) (st\<lparr>world := w\<rparr>))) (snd (SendBufferLoop K s data (sent + n) (st\<lparr>world := w\<rparr>)))"
          using 1(1) [OF _ r [symmetric] refl False _ 1(3)] True by (simp add: add.commute)
        then show ?thesis
          using sent_prefix_step [OF 1(3) r] True False r by (subst (1 2) SendBufferLoop.simps) simp
      qed
    qed
  qed
qed

lemma SendDataLoop_eq: "SendDataLoop K s data (int (length data) - int sent) st = SendBufferLoop K s data sent st"
proof (induction K s data sent st rule: SendBufferLoop.induct)
  case (1 K s data sent st)
  have "int (length data) - int sent > 0 \<longleftrightarrow> sent < length data" by simp
  moreover have "nat (int (length data) - (int (length data) - int sent)) = sent" by simp
  moreover have "int (length data) - int sent - int n = int (length data) - int (sent + n)" for n by simp
  ultimately show ?case
    using 1 by (subst SendDataLoop.simps, subst SendBufferLoop.simps)
      (simp only: split: prod.split sysres.split, auto)
qed

lemma ReceiveDataLoop_eq:
  "length data \<le> sz \<Longrightarrow>
   ReceiveDataLoop K s sz (int sz - int (length data)) data st = ReceiveBufferLoop K s sz data st"
proof (induction K s sz data st rule: ReceiveBufferLoop.induct)
  case (1 K s sz data st)
  have "int sz - int (length data) > 0 \<longleftrightarrow> length data < sz"
    "nat (int sz - int (length data)) = sz - length data" by auto
  moreover have "int (length bs) > int sz - int (length data) \<longleftrightarrow> length bs > sz - length data" for bs :: "byte list"
    using 1(2) by auto
  moreover have "int sz - int (length data) - int (length bs) = int sz - int (length (data @ bs))" for bs by simp
  ultimately show ?case
    using 1 by (subst ReceiveDataLoop.simps, subst ReceiveBufferLoop.simps)
      (simp only: split: prod.split sum.split, auto)
qed

text \<open>
  C30. The two loops that move a struct and the two that move a buffer do the same: whatever the
  system calls return, they make the same calls and end with the same result.
\<close>

theorem data_and_buffer_loops_agree:
  "SendData K s data = SendBuffer K s data \<and> ReceiveData K s sz = ReceiveBuffer K s sz"
  using SendDataLoop_eq [of K s data 0] ReceiveDataLoop_eq [of "[]" sz K s]
  by (simp add: fun_eq_iff SendData_def SendBuffer_def ReceiveData_def ReceiveBuffer_def)

text \<open>Receiving: exactly the first bytes of what has come in, or an error.\<close>

definition received_prefix where
  "received_prefix out inc s n data st r st' \<longleftrightarrow> (\<exists>bs. length bs \<le> n \<and>
     (\<exists>rest. inc (world st) s = bs @ rest \<and> inc (world st') = (inc (world st))(s := rest)) \<and>
     out (world st') = out (world st) \<and> same_globals st st' \<and>
     (\<forall>c d. r = Inr (c, d) \<longrightarrow> d = data @ bs \<and> (c = EC_OK \<longrightarrow> length bs = n)) \<and>
     (\<forall>e. r = Inl e \<longrightarrow> e = disconnected_error))"

lemma received_prefix_step:
  assumes "tcp_ok K out inc" and "sys_recv K s m (world st) = (Inr bs, w)" and "length bs \<le> n"
    and "received_prefix out inc s (n - length bs) (data @ bs) (st\<lparr>world := w\<rparr>) r st'"
  shows "received_prefix out inc s n data st r st'"
proof -
  obtain rest where rest: "inc (world st) s = bs @ rest" "inc w = (inc (world st))(s := rest)" "out w = out (world st)"
    using tcp_recv(1) [OF assms(1,2)] by auto
  obtain cs where cs: "length cs \<le> n - length bs" "\<exists>rest. inc w s = cs @ rest \<and> inc (world st') = (inc w)(s := rest)"
    "out (world st') = out w" "same_globals st st'"
    "\<forall>c d. r = Inr (c, d) \<longrightarrow> d = (data @ bs) @ cs \<and> (c = EC_OK \<longrightarrow> length cs = n - length bs)"
    "\<forall>e. r = Inl e \<longrightarrow> e = disconnected_error"
    using assms(4) by (auto simp: received_prefix_def)
  show ?thesis unfolding received_prefix_def
    using rest cs assms(3) by (intro exI [of _ "bs @ cs"]) auto
qed

lemma received_prefix_stop:
  "tcp_ok K out inc \<Longrightarrow> sys_recv K s m (world st) = (Inl e, w) \<Longrightarrow>
   (\<forall>e. r = Inl e \<longrightarrow> e = disconnected_error) \<Longrightarrow> (\<forall>c d. r = Inr (c, d) \<longrightarrow> d = data \<and> c \<noteq> EC_OK) \<Longrightarrow>
   received_prefix out inc s n data st r (st\<lparr>world := w\<rparr>)"
  "tcp_ok K out inc \<Longrightarrow> sys_recv K s m (world st) = (Inr [], w) \<Longrightarrow>
   received_prefix out inc s n data st (Inl disconnected_error) (st\<lparr>world := w\<rparr>)"
  "received_prefix out inc s 0 data st (Inr (EC_OK, data)) st"
  unfolding received_prefix_def by (rule exI [of _ "[]"]; auto dest: tcp_recv)+

lemma ReceiveBufferLoop_received:
  assumes "tcp_ok K out inc"
  shows "length data \<le> sz \<Longrightarrow> received_prefix out inc s (sz - length data) data st
     (fst (ReceiveBufferLoop K s sz data st)) (snd (ReceiveBufferLoop K s sz data st))"
  using assms
proof (induction K s sz data st rule: ReceiveBufferLoop.induct)
  case (1 K s sz data st)
  show ?case
  proof (cases "length data < sz")
    case False
    then show ?thesis using 1(2) by (simp add: ReceiveBufferLoop.simps received_prefix_stop)
  next
    case True
    obtain r w where r: "sys_recv K s (sz - length data) (world st) = (r, w)" by fastforce
    show ?thesis
    proof (cases r)
      case (Inl e)
      then show ?thesis
        using True r received_prefix_stop(1) [OF 1(3), of s "sz - length data" st e w] EC_neq
        by (subst (1 2) ReceiveBufferLoop.simps) auto
    next
      case (Inr bs)
      note r = r [unfolded Inr]
      have len: "length bs \<le> sz - length data" using tcp_recv(1) [OF 1(3) r] by simp
      show ?thesis
      proof (cases "bs = []")
        case nil: True
        then show ?thesis
          using True r received_prefix_stop(2) [OF 1(3)] by (subst (1 2) ReceiveBufferLoop.simps) simp
      next
        case False
        have "received_prefix out inc s (sz - length (data @ bs)) (data @ bs) (st\<lparr>world := w\<rparr>)
            (fst (ReceiveBufferLoop K s sz (data @ bs) (st\<lparr>world := w\<rparr>)))
            (snd (ReceiveBufferLoop K s sz (data @ bs) (st\<lparr>world := w\<rparr>)))"
          using 1(1) [OF _ r [symmetric] refl False _ _ 1(3)] True len by simp
        then show ?thesis
          using received_prefix_step [OF 1(3) r len] True False r len by (subst (1 2) ReceiveBufferLoop.simps) simp
      qed
    qed
  qed
qed

section \<open>Delivery\<close>

lemma SendBufferLoop_flowing:
  assumes "flowing K inc s"
  shows "fst (SendBufferLoop K s data sent st) = Inr EC_OK"
  using assms
proof (induction K s data sent st rule: SendBufferLoop.induct)
  case (1 K s data sent st)
  show ?case
  proof (cases "sent < length data")
    case True
    then obtain n w where r: "sys_send K s (drop sent data) (world st) = (SysCount (Suc n), w)"
      using 1(2) by (fastforce simp: flowing_def)
    then show ?thesis
      using True 1(1) [OF _ r [symmetric] refl _ 1(2)] by (subst SendBufferLoop.simps) simp
  qed (simp add: SendBufferLoop.simps)
qed

lemma ReceiveBufferLoop_flowing:
  assumes "flowing K inc s" and "tcp_ok K out inc" and "length data \<le> sz"
    and "sz - length data \<le> length (inc (world st) s)"
  shows "\<exists>d. fst (ReceiveBufferLoop K s sz data st) = Inr (EC_OK, d)"
  using assms
proof (induction K s sz data st rule: ReceiveBufferLoop.induct)
  case (1 K s sz data st)
  show ?case
  proof (cases "length data < sz")
    case True
    then have "inc (world st) s \<noteq> []" using 1(5) by auto
    then obtain b bs w where r: "sys_recv K s (sz - length data) (world st) = (Inr (b # bs), w)"
      using 1(2) True by (fastforce simp: flowing_def)
    then obtain rest where "length (b # bs) \<le> sz - length data" "inc (world st) s = (b # bs) @ rest"
      "inc w = (inc (world st))(s := rest)"
      using tcp_recv(1) [OF 1(3) r] by blast
    then have "\<exists>d. fst (ReceiveBufferLoop K s sz (data @ b # bs) (st\<lparr>world := w\<rparr>)) = Inr (EC_OK, d)"
      using 1(5) True by (intro 1(1) [OF _ r [symmetric] refl _ _ 1(2,3)]) auto
    then show ?thesis
      using True r \<open>length (b # bs) \<le> sz - length data\<close> by (subst ReceiveBufferLoop.simps) simp
  qed (simp add: ReceiveBufferLoop.simps)
qed

lemma SendBuffer_run:
  assumes "tcp_ok K out inc" and "flowing K inc s"
  shows "\<exists>st1. SendBuffer K s data st = (Inr EC_OK, st1) \<and> same_globals st st1 \<and>
     out (world st1) = (out (world st))(s := out (world st) s @ data) \<and> inc (world st1) = inc (world st)"
proof -
  obtain st1 where st1: "SendBuffer K s data st = (Inr EC_OK, st1)"
    using SendBufferLoop_flowing [OF assms(2), of data 0 st] by (metis SendBuffer_def prod.collapse)
  then show ?thesis
    using SendBufferLoop_sent [OF assms(1), of 0 data s st] by (auto simp: SendBuffer_def sent_prefix_def)
qed

lemma ReceiveBuffer_run:
  assumes "tcp_ok K out inc" and "flowing K inc s" and "inc (world st) s = data @ rest"
  shows "\<exists>st1. ReceiveBuffer K s (length data) st = (Inr (EC_OK, data), st1) \<and> same_globals st st1 \<and>
     inc (world st1) = (inc (world st))(s := rest) \<and> out (world st1) = out (world st)"
proof -
  have "\<exists>d. fst (ReceiveBuffer K s (length data) st) = Inr (EC_OK, d)"
    unfolding ReceiveBuffer_def
    using ReceiveBufferLoop_flowing [OF assms(2,1), of "[]" "length data" st] assms(3) by simp
  then obtain d st2 where r: "ReceiveBuffer K s (length data) st = (Inr (EC_OK, d), st2)"
    by (cases "ReceiveBuffer K s (length data) st") auto
  then obtain rest' where d: "length d = length data" "inc (world st) s = d @ rest'"
    "inc (world st2) = (inc (world st))(s := rest')" "out (world st2) = out (world st)" "same_globals st st2"
    using ReceiveBufferLoop_received [OF assms(1), of "[]" "length data" s st]
    by (auto simp: ReceiveBuffer_def received_prefix_def)
  then have "d = data" "rest' = rest" using assms(3) by (metis append_eq_append_conv)+
  then show ?thesis using r d by blast
qed

text \<open>
  C31. A buffer is delivered whole over a connection that flows, however the system splits it: after
  \<open>SendBuffer\<close> exactly its bytes, in order, have been added to what was given to the socket, and
  \<open>ReceiveBuffer\<close> returns exactly the next bytes that came in and leaves the rest. Both return.
\<close>

theorem buffers_delivered:
  assumes "tcp_ok K out inc" and "flowing K inc s" and "inc (world st) s = data @ rest"
  shows "(\<exists>st1. SendBuffer K s data st = (Inr EC_OK, st1) \<and>
       out (world st1) = (out (world st))(s := out (world st) s @ data) \<and> inc (world st1) = inc (world st)) \<and>
     (\<exists>st1. ReceiveBuffer K s (length data) st = (Inr (EC_OK, data), st1) \<and>
       inc (world st1) = (inc (world st))(s := rest) \<and> out (world st1) = out (world st))"
  using SendBuffer_run [OF assms(1,2), of data st] ReceiveBuffer_run [OF assms] by blast

text \<open>
  A system that moves at most two bytes at a time: its state is the bytes given to and waiting at
  each socket.
\<close>

type_synonym pipes = "(sock \<Rightarrow> byte list) \<times> (sock \<Rightarrow> byte list)"

definition pipe_system :: "pipes Sockets" where
  "pipe_system = \<lparr>sys_socket = (\<lambda>w. (3, w)), sys_bind = (\<lambda>_ _ _ w. (None, w)), sys_listen = (\<lambda>_ w. (None, w)),
     sys_connect = (\<lambda>_ _ _ w. (None, w)), sys_accept = (\<lambda>_ w. (4, w)),
     sys_send = (\<lambda>s buf (out, inc). (SysCount (min 2 (length buf)), (out(s := out s @ take 2 buf), inc))),
     sys_recv = (\<lambda>s n (out, inc). (Inr (take (min 2 n) (inc s)), (out, inc(s := drop (min 2 n) (inc s))))),
     sys_close = (\<lambda>_ w. w), sys_getpeername = (\<lambda>_ _. None), sys_getsockname = (\<lambda>_ _. None),
     sys_getaddrinfo = (\<lambda>_ _. None)\<rparr>"

lemma pipe_system_ok: "tcp_ok pipe_system fst snd"
proof -
  have "send_spec fst snd s buf w (sys_send pipe_system s buf w)" for s buf w
    by (cases w) (auto simp: send_spec_def pipe_system_def min_def)
  moreover have "recv_spec fst snd s n w (sys_recv pipe_system s n w)" for s n w
    by (cases w) (auto simp: recv_spec_def pipe_system_def intro!: exI [of _ "drop (min 2 n) (snd w s)"])
  ultimately show ?thesis by (simp add: tcp_ok_def)
qed

lemma pipe_system_flows: "flowing pipe_system snd s"
  by (auto simp: flowing_def pipe_system_def min_def neq_Nil_conv take_Cons' gr0_conv_Suc Suc_le_eq)

definition Net_demo :: "byte list \<Rightarrow> pipes Net" where
  "Net_demo bs = \<lparr>world = (\<lambda>_. [], (\<lambda>_. [])(5 := bs)), ServerAddress = 0, ServerPort = 7777\<rparr>"

theorem buffers_delivered_witness:
  "\<exists>st1. ReceiveBuffer pipe_system 5 3 (Net_demo [1, 2, 3, 4]) = (Inr (EC_OK, [1, 2, 3]), st1) \<and> snd (world st1) 5 = [4]"
  using buffers_delivered [OF pipe_system_ok pipe_system_flows, of "Net_demo [1, 2, 3, 4]" 5 "[1, 2, 3]" "[4]"]
  by (simp add: numeral_3_eq_3) (auto simp: Net_demo_def)

end
