(* ===== verification/SecureChannel.thy ===== *)
theory SecureChannel
  imports Socket
begin

unbundle bit_operations_syntax

text \<open>
  \<open>TeleCrap.Shared/SecureChannel.cpp\<close>: key agreement and authenticated encryption. OpenSSL is a
  parameter, one field for each group of calls that fails with a message of its own; \<open>x25519_ok\<close>,
  \<open>hkdf_ok\<close> and \<open>gcm_ok\<close> name what the code relies on. Keys, nonces and tags are their bytes.
\<close>

record ('k, 'w) OpenSSL =
  EVP_PKEY_CTX_new_id :: "'w \<Rightarrow> bool"
  EVP_PKEY_keygen :: "'w \<Rightarrow> 'k option \<times> 'w"
  EVP_PKEY_get_raw_public_key :: "'k \<Rightarrow> byte list option"
  EVP_PKEY_get_raw_private_key :: "'k \<Rightarrow> byte list option"
  EVP_PKEY_new_raw_private_key :: "byte list \<Rightarrow> 'k option"
  EVP_PKEY_new_raw_public_key :: "byte list \<Rightarrow> 'k option"
  EVP_PKEY_derive_init :: "'k \<Rightarrow> 'k \<Rightarrow> bool"
  EVP_PKEY_derive :: "'k \<Rightarrow> 'k \<Rightarrow> byte list option"
  EVP_KDF_fetch :: bool
  EVP_KDF_CTX_new :: bool
  EVP_KDF_derive :: "byte list \<Rightarrow> byte list \<Rightarrow> byte list \<Rightarrow> nat \<Rightarrow> byte list option"
  EVP_CIPHER_CTX_new :: bool
  EVP_EncryptUpdate :: "byte list \<Rightarrow> byte list \<Rightarrow> byte list \<Rightarrow> byte list option"
  EVP_EncryptFinal_ex :: "byte list \<Rightarrow> byte list \<Rightarrow> byte list \<Rightarrow> (byte list \<times> byte list) option"
  EVP_DecryptUpdate :: "byte list \<Rightarrow> byte list \<Rightarrow> byte list \<Rightarrow> byte list option"
  EVP_CTRL_GCM_SET_TAG :: "byte list \<Rightarrow> bool"
  EVP_DecryptFinal_ex :: "byte list \<Rightarrow> byte list \<Rightarrow> byte list \<Rightarrow> byte list \<Rightarrow> byte list option"

record KeyPair =
  kp_PrivateKey :: "byte list"
  kp_PublicKey :: "byte list"

definition ssl_error :: "cstring \<Rightarrow> exn" where
  "ssl_error message = runtime_error (''OpenSSL: '' @ message)"

section \<open>The operations\<close>

definition big_endian :: "u64 \<Rightarrow> byte list" where
  "big_endian x = [ucast ((drop_bit 56 x) AND 0xFF), ucast ((drop_bit 48 x) AND 0xFF),
     ucast ((drop_bit 40 x) AND 0xFF), ucast ((drop_bit 32 x) AND 0xFF), ucast ((drop_bit 24 x) AND 0xFF),
     ucast ((drop_bit 16 x) AND 0xFF), ucast ((drop_bit 8 x) AND 0xFF), ucast (x AND 0xFF)]"

definition buildNonce :: "u64 \<Rightarrow> byte list" where
  "buildNonce counter = [0, 0, 0, 0] @ big_endian counter"

definition GenerateX25519KeyPair :: "('k, 'w) OpenSSL \<Rightarrow> ('w, KeyPair) netM" where
  "GenerateX25519KeyPair L =
     bindM (getsM (\<lambda>st. EVP_PKEY_CTX_new_id L (world st))) (\<lambda>pctx.
       if \<not> pctx then throw (ssl_error ''EVP_PKEY_CTX_new_id failed'')
       else bindM (syscall (EVP_PKEY_keygen L)) (\<lambda>pkey.
         case pkey of
           None \<Rightarrow> throw (ssl_error ''X25519 keygen failed'')
         | Some k \<Rightarrow>
             (case EVP_PKEY_get_raw_public_key L k of
                None \<Rightarrow> throw (ssl_error ''get raw public key failed'')
              | Some pub \<Rightarrow>
                  (if length pub \<noteq> 32 then throw (ssl_error ''get raw public key failed'')
                   else case EVP_PKEY_get_raw_private_key L k of
                     None \<Rightarrow> throw (ssl_error ''get raw private key failed'')
                   | Some priv \<Rightarrow>
                       (if length priv \<noteq> 32 then throw (ssl_error ''get raw private key failed'')
                        else ret \<lparr>kp_PrivateKey = priv, kp_PublicKey = pub\<rparr>)))))"

definition DeriveSharedSecret :: "('k, 'w) OpenSSL \<Rightarrow> byte list \<Rightarrow> byte list \<Rightarrow> exn + byte list" where
  "DeriveSharedSecret L privateKey peerPublicKey =
     (case (EVP_PKEY_new_raw_private_key L privateKey, EVP_PKEY_new_raw_public_key L peerPublicKey) of
        (Some priv, Some pub) \<Rightarrow>
          (if \<not> EVP_PKEY_derive_init L priv pub then Inl (ssl_error ''X25519 derive init failed'')
           else case EVP_PKEY_derive L priv pub of
             None \<Rightarrow> Inl (ssl_error ''X25519 derive failed'')
           | Some out \<Rightarrow> (if length out \<noteq> 32 then Inl (ssl_error ''X25519 derive failed'') else Inr out))
      | _ \<Rightarrow> Inl (ssl_error ''create raw X25519 key failed''))"

definition hkdf_info :: "byte list" where
  "hkdf_info = map byte_of ''SecureCrapOverTCP-X25519-AES256GCM-v1''"

text \<open>The pair is \<open>txKeyOut\<close> and \<open>rxKeyOut\<close>.\<close>

definition DeriveDirectionalKeys ::
    "('k, 'w) OpenSSL \<Rightarrow> byte list \<Rightarrow> u64 \<Rightarrow> bool \<Rightarrow> exn + byte list \<times> byte list" where
  "DeriveDirectionalKeys L sharedSecret integrityTag isServer =
     (let salt = big_endian integrityTag in
      if \<not> EVP_KDF_fetch L then Inl (ssl_error ''HKDF fetch failed'')
      else if \<not> EVP_KDF_CTX_new L then Inl (ssl_error ''HKDF context failed'')
      else case EVP_KDF_derive L sharedSecret salt hkdf_info 64 of
        None \<Rightarrow> Inl (ssl_error ''HKDF derive failed'')
      | Some okm \<Rightarrow>
          (if isServer then Inr (sub 32 32 okm, sub 0 32 okm) else Inr (sub 0 32 okm, sub 32 32 okm)))"

definition EncryptAead :: "('k, 'w) OpenSSL \<Rightarrow> byte list \<Rightarrow> u64 \<Rightarrow> byte list \<Rightarrow> exn + byte list \<times> byte list" where
  "EncryptAead L key counter plaintext =
     (let nonce = buildNonce counter in
      if \<not> EVP_CIPHER_CTX_new L then Inl (ssl_error ''cipher ctx alloc failed'')
      else case EVP_EncryptUpdate L key nonce plaintext of
        None \<Rightarrow> Inl (ssl_error ''AES-GCM encrypt failed'')
      | Some out \<Rightarrow>
          (case EVP_EncryptFinal_ex L key nonce plaintext of
             None \<Rightarrow> Inl (ssl_error ''AES-GCM finalize failed'')
           | Some (final, tag) \<Rightarrow> Inr (out @ final, tag)))"

definition DecryptAead :: "('k, 'w) OpenSSL \<Rightarrow> byte list \<Rightarrow> u64 \<Rightarrow> byte list \<Rightarrow> byte list \<Rightarrow> exn + byte list" where
  "DecryptAead L key counter ciphertext tag =
     (let nonce = buildNonce counter in
      if \<not> EVP_CIPHER_CTX_new L then Inl (ssl_error ''cipher ctx alloc failed'')
      else case EVP_DecryptUpdate L key nonce ciphertext of
        None \<Rightarrow> Inl (ssl_error ''AES-GCM decrypt failed'')
      | Some out \<Rightarrow>
          (if \<not> EVP_CTRL_GCM_SET_TAG L tag then Inl (ssl_error ''AES-GCM set tag failed'')
           else case EVP_DecryptFinal_ex L key nonce ciphertext tag of
             None \<Rightarrow> Inl (ssl_error ''integrity check failed'')
           | Some final \<Rightarrow> Inr (out @ final)))"

section \<open>What OpenSSL promises\<close>

text \<open>
  X25519: the raw public and private key of one key make keys again, and the two sides of an exchange
  derive the same 32 bytes.
\<close>

definition x25519_pair :: "('k, 'w) OpenSSL \<Rightarrow> KeyPair \<Rightarrow> 'k \<Rightarrow> 'k \<Rightarrow> bool" where
  "x25519_pair L kp priv pub \<longleftrightarrow>
     (\<exists>k. EVP_PKEY_get_raw_public_key L k = Some (kp_PublicKey kp) \<and>
        EVP_PKEY_get_raw_private_key L k = Some (kp_PrivateKey kp)) \<and>
     length (kp_PublicKey kp) = 32 \<and> length (kp_PrivateKey kp) = 32 \<and>
     EVP_PKEY_new_raw_private_key L (kp_PrivateKey kp) = Some priv \<and>
     EVP_PKEY_new_raw_public_key L (kp_PublicKey kp) = Some pub"

definition x25519_ok :: "('k, 'w) OpenSSL \<Rightarrow> bool" where
  "x25519_ok L \<longleftrightarrow>
     (\<forall>w. EVP_PKEY_CTX_new_id L w \<and> (\<exists>k w' pub priv. EVP_PKEY_keygen L w = (Some k, w') \<and>
        EVP_PKEY_get_raw_public_key L k = Some pub \<and> EVP_PKEY_get_raw_private_key L k = Some priv \<and>
        (\<exists>a b. x25519_pair L \<lparr>kp_PrivateKey = priv, kp_PublicKey = pub\<rparr> a b))) \<and>
     (\<forall>kp1 a1 b1 kp2 a2 b2. x25519_pair L kp1 a1 b1 \<longrightarrow> x25519_pair L kp2 a2 b2 \<longrightarrow>
        EVP_PKEY_derive_init L a1 b2 \<and>
        (\<exists>z. EVP_PKEY_derive L a1 b2 = Some z \<and> EVP_PKEY_derive L a2 b1 = Some z \<and> length z = 32))"

definition hkdf_ok :: "('k, 'w) OpenSSL \<Rightarrow> bool" where
  "hkdf_ok L \<longleftrightarrow> EVP_KDF_fetch L \<and> EVP_KDF_CTX_new L \<and>
     (\<forall>key salt info n. \<exists>okm. EVP_KDF_derive L key salt info n = Some okm \<and> length okm = n)"

text \<open>AES-256-GCM: decryption with the same key, nonce and tag undoes encryption.\<close>

definition gcm_ok :: "('k, 'w) OpenSSL \<Rightarrow> bool" where
  "gcm_ok L \<longleftrightarrow> EVP_CIPHER_CTX_new L \<and>
     (\<forall>key nonce p. length key = 32 \<longrightarrow> length nonce = 12 \<longrightarrow>
        (\<exists>c tag. EVP_EncryptUpdate L key nonce p = Some c \<and> length c = length p \<and>
           EVP_EncryptFinal_ex L key nonce p = Some ([], tag) \<and> length tag = 16 \<and>
           EVP_DecryptUpdate L key nonce c = Some p \<and> EVP_CTRL_GCM_SET_TAG L tag \<and>
           EVP_DecryptFinal_ex L key nonce c tag = Some []))"

section \<open>Nonces\<close>

lemma length_big_endian [simp]: "length (big_endian x) = 8" and length_buildNonce [simp]: "length (buildNonce x) = 12"
  by (simp_all add: big_endian_def buildNonce_def)

lemma byte_bit: "bit (ucast (drop_bit i x AND 0xFF) :: byte) j \<longleftrightarrow> j < 8 \<and> bit (x :: u64) (i + j)"
proof -
  have "(0xFF :: u64) = mask 8" by (simp add: mask_eq_exp_minus_1)
  then have "drop_bit i x AND 0xFF = take_bit 8 (drop_bit i x)" by (simp add: take_bit_eq_mask)
  moreover have "bit x n \<Longrightarrow> n < 64" for n using bit_imp_le_length [of x n] by simp
  ultimately show ?thesis by (auto simp: bit_simps)
qed

lemma big_endian_inj: "big_endian x = big_endian y \<Longrightarrow> x = y"
proof (rule bit_word_eqI)
  fix n assume eq: "big_endian x = big_endian y" and n: "n < LENGTH(64)"
  have b: "bit x (i + j) = bit y (i + j)" if "j < 8" "i \<in> {56, 48, 40, 32, 24, 16, 8, 0}" for i j
  proof -
    have "(ucast (drop_bit i x AND 0xFF) :: byte) = ucast (drop_bit i y AND 0xFF)"
      using eq that(2) by (auto simp: big_endian_def)
    then have "bit (ucast (drop_bit i x AND 0xFF) :: byte) j = bit (ucast (drop_bit i y AND 0xFF) :: byte) j"
      by simp
    then show ?thesis using that(1) by (simp only: byte_bit simp_thms)
  qed
  have "n div 8 < 8" using n by simp
  then have "8 * (n div 8) \<in> {56, 48, 40, 32, 24, 16, 8, 0}" by auto
  then show "bit x n = bit y n" using b [of "n mod 8" "8 * (n div 8)"] by simp
qed

lemma buildNonce_inj: "buildNonce x = buildNonce y \<Longrightarrow> x = y"
  by (simp add: buildNonce_def big_endian_inj)

section \<open>Keys and round trip\<close>

lemma SharedSecret_agrees:
  assumes "x25519_ok L" and "x25519_pair L kp1 a1 b1" and "x25519_pair L kp2 a2 b2"
  shows "\<exists>z. DeriveSharedSecret L (kp_PrivateKey kp1) (kp_PublicKey kp2) = Inr z \<and>
     DeriveSharedSecret L (kp_PrivateKey kp2) (kp_PublicKey kp1) = Inr z \<and> length z = 32"
proof -
  obtain z where z: "EVP_PKEY_derive L a1 b2 = Some z" "EVP_PKEY_derive L a2 b1 = Some z" "length z = 32"
    using assms unfolding x25519_ok_def by blast
  moreover have "EVP_PKEY_derive_init L a1 b2" "EVP_PKEY_derive_init L a2 b1"
    using assms unfolding x25519_ok_def by blast+
  ultimately show ?thesis using assms(2,3) by (simp add: DeriveSharedSecret_def x25519_pair_def)
qed

lemma GenerateX25519KeyPair_run:
  assumes "x25519_ok L"
  shows "\<exists>kp w a b. GenerateX25519KeyPair L st = (Inr kp, st\<lparr>world := w\<rparr>) \<and> x25519_pair L kp a b"
proof -
  obtain k w pub priv a b where k: "EVP_PKEY_keygen L (world st) = (Some k, w)"
    "EVP_PKEY_get_raw_public_key L k = Some pub" "EVP_PKEY_get_raw_private_key L k = Some priv"
    "x25519_pair L \<lparr>kp_PrivateKey = priv, kp_PublicKey = pub\<rparr> a b"
    using assms unfolding x25519_ok_def by blast
  moreover have "EVP_PKEY_CTX_new_id L (world st)" using assms by (simp add: x25519_ok_def)
  ultimately show ?thesis
    by (simp add: GenerateX25519KeyPair_def monad_defs syscall_def x25519_pair_def) blast
qed

lemma DirectionalKeys_run:
  assumes "hkdf_ok L"
  shows "\<exists>k1 k2. DeriveDirectionalKeys L z tag True = Inr (k1, k2) \<and>
     DeriveDirectionalKeys L z tag False = Inr (k2, k1) \<and> length k1 = 32 \<and> length k2 = 32"
proof -
  obtain okm where okm: "EVP_KDF_derive L z (big_endian tag) hkdf_info 64 = Some okm" "length okm = 64"
    using assms unfolding hkdf_ok_def by blast
  then show ?thesis
    using assms by (simp add: DeriveDirectionalKeys_def hkdf_ok_def length_sub)
qed

lemma Aead_run:
  assumes "gcm_ok L" and "length key = 32"
  shows "\<exists>c tag. EncryptAead L key counter p = Inr (c, tag) \<and> length c = length p \<and> length tag = 16 \<and>
     DecryptAead L key counter c tag = Inr p"
proof -
  obtain c tag where "EVP_EncryptUpdate L key (buildNonce counter) p = Some c" "length c = length p"
    "EVP_EncryptFinal_ex L key (buildNonce counter) p = Some ([], tag)" "length tag = 16"
    "EVP_DecryptUpdate L key (buildNonce counter) c = Some p" "EVP_CTRL_GCM_SET_TAG L tag"
    "EVP_DecryptFinal_ex L key (buildNonce counter) c tag = Some []"
    using assms unfolding gcm_ok_def by (metis length_buildNonce)
  then show ?thesis using assms(1) by (auto simp: EncryptAead_def DecryptAead_def gcm_ok_def)
qed

end
