(* ===== verification/Protocol.thy ===== *)
theory Protocol
  imports SecureChannel
begin

text \<open>
  \<open>TeleCrap.Shared/Protocol.cpp\<close> and \<open>Transport.cpp\<close>: requests and responces over a socket, in the
  clear or in encrypted frames, and the handshake of both sides. A \<open>Transport*\<close> is an address in a
  heap of \<open>Transport\<close> objects. The mutexes are not modelled: each operation is one step.
\<close>

section \<open>State\<close>

record SecureSession =
  Enabled :: bool
  TxKey :: "byte list"
  RxKey :: "byte list"
  TxCounter :: u64
  RxCounter :: u64

record TransportObject =
  to_TransportSocket :: sock
  to_AccessToken :: token_t
  to_Secure :: SecureSession

record 'w Proto =
  net :: "'w Net"
  secureSessionBySocket :: "sock \<rightharpoonup> nat"
  theap :: "nat \<rightharpoonup> TransportObject"
  next_transport :: nat
  executed :: bool

text \<open>
  The host: the system calls, OpenSSL, the two random generators, and the bytes the program does not
  determine (the text of a \<open>request_error\<close>, the padding of a frame header, the unused part of a union).
\<close>

record ('k, 'w) Host =
  sockets :: "'w Sockets"
  ssl :: "('k, 'w) OpenSSL"
  random_token :: "'w \<Rightarrow> token_t \<times> 'w"
  c_rand :: "'w \<Rightarrow> u32 \<times> 'w"
  garbage :: cstring
  frame_pad :: "byte list"
  fresh_request :: "byte list"
  fresh_responce :: "byte list"

type_synonym ('w, 'a) protoM = "('w Proto, exn, 'a) sem"

definition liftnet :: "('w, 'a) netM \<Rightarrow> ('w, 'a) protoM" where
  "liftnet m s = (case m (net s) of (r, n) \<Rightarrow> (r, s\<lparr>net := n\<rparr>))"

definition lift_result :: "exn + 'a \<Rightarrow> ('w, 'a) protoM" where
  "lift_result r = (case r of Inl e \<Rightarrow> throw e | Inr x \<Rightarrow> ret x)"

definition deref :: "nat \<Rightarrow> ('w, TransportObject) protoM" where
  "deref t = bindM (getsM (\<lambda>s. theap s t)) (\<lambda>p. case p of None \<Rightarrow> throw undefined_behaviour | Some tr \<Rightarrow> ret tr)"

definition set_Secure :: "nat \<Rightarrow> (SecureSession \<Rightarrow> SecureSession) \<Rightarrow> ('w, unit) protoM" where
  "set_Secure t f = modifyM (\<lambda>s. s\<lparr>theap :=
     (theap s)(t := map_option (\<lambda>tr. tr\<lparr>to_Secure := f (to_Secure tr)\<rparr>) (theap s t))\<rparr>)"

section \<open>Frames\<close>

record SecureFrameHeader =
  fh_CiphertextSize :: u32
  fh_Counter :: u64
  fh_Tag :: "byte list"

text \<open>The struct is not packed: four bytes of padding follow the size.\<close>

definition HEADER_SIZE :: nat where "HEADER_SIZE = 32"

definition enc_SecureFrameHeader :: "byte list \<Rightarrow> SecureFrameHeader \<Rightarrow> byte list" where
  "enc_SecureFrameHeader pad h = enc_u32 (fh_CiphertextSize h) @ pad @ enc_u64 (fh_Counter h) @ fh_Tag h"

definition dec_SecureFrameHeader :: "byte list \<Rightarrow> SecureFrameHeader" where
  "dec_SecureFrameHeader bs = \<lparr>fh_CiphertextSize = dec_u32 (sub 0 4 bs), fh_Counter = dec_u64 (sub 8 8 bs),
     fh_Tag = sub 16 16 bs\<rparr>"

definition getSecureTransport :: "sock \<Rightarrow> ('w, nat option) protoM" where
  "getSecureTransport transportSocket =
     bindM (getsM (\<lambda>s. secureSessionBySocket s transportSocket)) (\<lambda>it.
       case it of
         None \<Rightarrow> ret None
       | Some t \<Rightarrow> bindM (deref t) (\<lambda>tr. ret (if Enabled (to_Secure tr) then Some t else None)))"

definition fault :: "('k, 'w) Host \<Rightarrow> cstring \<Rightarrow> ErrorCode \<Rightarrow> ('w, 'a) protoM" where
  "fault H message code = throw (request_failed (garbage H) message code)"

definition sendSecureObject :: "('k, 'w) Host \<Rightarrow> nat \<Rightarrow> byte list \<Rightarrow> ('w, unit) protoM" where
  "sendSecureObject H t object =
     bindM (deref t) (\<lambda>tr.
       let counter = TxCounter (to_Secure tr) in
       thenM (set_Secure t (\<lambda>x. x\<lparr>TxCounter := counter + 1\<rparr>))
       (bindM (lift_result (EncryptAead (ssl H) (TxKey (to_Secure tr)) counter object)) (\<lambda>(ciphertext, tag).
         let header = enc_SecureFrameHeader (frame_pad H)
               \<lparr>fh_CiphertextSize = of_nat (length ciphertext), fh_Counter = counter, fh_Tag = tag\<rparr>
         in bindM (liftnet (SendBuffer (sockets H) (to_TransportSocket tr) header)) (\<lambda>err.
              if err \<noteq> EC_OK then fault H ''Failed to send secure frame header'' EC_FAULT
              else bindM (liftnet (SendBuffer (sockets H) (to_TransportSocket tr) ciphertext)) (\<lambda>err.
                if err \<noteq> EC_OK then fault H ''Failed to send secure frame payload'' EC_FAULT
                else ret ())))))"

definition recvSecureObject :: "('k, 'w) Host \<Rightarrow> nat \<Rightarrow> nat \<Rightarrow> ('w, byte list) protoM" where
  "recvSecureObject H t sizeof =
     bindM (deref t) (\<lambda>tr.
       bindM (liftnet (ReceiveBuffer (sockets H) (to_TransportSocket tr) HEADER_SIZE)) (\<lambda>(err, bytes).
         if err \<noteq> EC_OK then fault H ''Failed to receive secure frame header'' EC_FAULT
         else let header = dec_SecureFrameHeader bytes in
           if fh_CiphertextSize header = 0 \<or> fh_CiphertextSize header > 2 ^ 20
           then fault H ''Invalid secure frame size'' EC_FAULT
           else bindM (liftnet (ReceiveBuffer (sockets H) (to_TransportSocket tr) (unat (fh_CiphertextSize header))))
             (\<lambda>(err, ciphertext).
               if err \<noteq> EC_OK then fault H ''Failed to receive secure frame payload'' EC_FAULT
               else if fh_Counter header \<noteq> RxCounter (to_Secure tr) then fault H ''Secure counter mismatch'' EC_FAULT
               else bindM (lift_result (DecryptAead (ssl H) (RxKey (to_Secure tr)) (RxCounter (to_Secure tr))
                        ciphertext (fh_Tag header))) (\<lambda>plaintext.
                 thenM (set_Secure t (\<lambda>x. x\<lparr>RxCounter := RxCounter x + 1\<rparr>))
                   (if length plaintext \<noteq> sizeof then fault H ''Secure plaintext size mismatch'' EC_FAULT
                    else ret plaintext)))))"

definition RegisterSecureSession :: "nat \<Rightarrow> ('w, unit) protoM" where
  "RegisterSecureSession t =
     bindM (deref t) (\<lambda>tr.
       if \<not> Enabled (to_Secure tr) then ret ()
       else modifyM (\<lambda>s. s\<lparr>secureSessionBySocket := (secureSessionBySocket s)(to_TransportSocket tr \<mapsto> t)\<rparr>))"

definition UnregisterSecureSession :: "nat \<Rightarrow> ('w, unit) protoM" where
  "UnregisterSecureSession t =
     bindM (deref t) (\<lambda>tr.
       modifyM (\<lambda>s. s\<lparr>secureSessionBySocket := (secureSessionBySocket s)(to_TransportSocket tr := None)\<rparr>))"

section \<open>Requests and responces\<close>

definition is_Error :: "Responce \<Rightarrow> bool" where
  "is_Error r = (case r of Error _ \<Rightarrow> True | _ \<Rightarrow> False)"

text \<open>\<open>request_error(Responce&)\<close>, for a responce of type \<open>Error\<close>.\<close>

definition responce_failed :: "('k, 'w) Host \<Rightarrow> Responce \<Rightarrow> exn" where
  "responce_failed H r = (case r of Error e \<Rightarrow> request_error (garbage H) (er_Message e) (er_Code e)
     | _ \<Rightarrow> undefined_behaviour)"

text \<open>Reading one object of a given size, encrypted if the socket has a secure session.\<close>

definition receiveObject :: "('k, 'w) Host \<Rightarrow> sock \<Rightarrow> nat \<Rightarrow> cstring \<Rightarrow> ('w, byte list) protoM" where
  "receiveObject H transportSocket sizeof message =
     bindM (getSecureTransport transportSocket) (\<lambda>secureTransport.
       case secureTransport of
         Some t \<Rightarrow> recvSecureObject H t sizeof
       | None \<Rightarrow> bindM (liftnet (ReceiveData (sockets H) transportSocket sizeof)) (\<lambda>(err, bytes).
           if err \<noteq> EC_OK then fault H message err else ret bytes))"

definition sendObject :: "('k, 'w) Host \<Rightarrow> sock \<Rightarrow> byte list \<Rightarrow> cstring \<Rightarrow> ('w, unit) protoM" where
  "sendObject H transportSocket object message =
     bindM (getSecureTransport transportSocket) (\<lambda>secureTransport.
       case secureTransport of
         Some t \<Rightarrow> sendSecureObject H t object
       | None \<Rightarrow> bindM (liftnet (SendData (sockets H) transportSocket object)) (\<lambda>err.
           if err \<noteq> EC_OK then fault H message err else ret ()))"

definition Protocol_GetRequest :: "('k, 'w) Host \<Rightarrow> sock \<Rightarrow> ('w, Request) protoM" where
  "Protocol_GetRequest H transportSocket =
     bindM (receiveObject H transportSocket REQUEST_SIZE ''Failed to receive request.'') (\<lambda>b. ret (dec_Request b))"

definition Protocol_GetResponce :: "('k, 'w) Host \<Rightarrow> sock \<Rightarrow> ('w, Responce) protoM" where
  "Protocol_GetResponce H transportSocket =
     bindM (receiveObject H transportSocket RESPONCE_SIZE ''Failed to receive responce.'') (\<lambda>b. ret (dec_Responce b))"

definition Protocol_SendResponce :: "('k, 'w) Host \<Rightarrow> sock \<Rightarrow> Responce \<Rightarrow> ('w, unit) protoM" where
  "Protocol_SendResponce H transportSocket responce =
     sendObject H transportSocket (enc_Responce (fresh_responce H) responce) ''Failed to send responce.''"

text \<open>
  The session is looked up once; between the sending and the receiving nothing changes it.
\<close>

definition Protocol_SendRequest :: "('k, 'w) Host \<Rightarrow> sock \<Rightarrow> Request \<Rightarrow> ('w, Responce) protoM" where
  "Protocol_SendRequest H transportSocket request =
     thenM (sendObject H transportSocket (enc_Request (fresh_request H) request) ''Failed to send request.'')
       (Protocol_GetResponce H transportSocket)"

partial_function (option) listLoop :: "('k, 'w) Host \<Rightarrow> sock \<Rightarrow> (Responce \<Rightarrow> u32) \<Rightarrow> Responce \<Rightarrow>
    Responce list \<Rightarrow> 'w Proto \<Rightarrow> ((exn + Responce list) \<times> 'w Proto) option" where
  "listLoop H transportSocket getRemaining responce responces s =
     (if sint (getRemaining responce) > 0 then
        (case Protocol_GetResponce H transportSocket s of
           (Inl e, s') \<Rightarrow> Some (Inl e, s')
         | (Inr r, s') \<Rightarrow>
             (if is_Error r then Some (Inl (responce_failed H r), s')
              else listLoop H transportSocket getRemaining r (responces @ [r]) s'))
      else Some (Inr responces, s))"

definition NO_MORE_REMAINING :: u32 where "NO_MORE_REMAINING = - 1"

definition Protocol_SendRequestList :: "('k, 'w) Host \<Rightarrow> sock \<Rightarrow> Request \<Rightarrow> (Responce \<Rightarrow> u32) \<Rightarrow>
    'w Proto \<Rightarrow> ((exn + Responce list) \<times> 'w Proto) option" where
  "Protocol_SendRequestList H transportSocket request getRemaining s =
     (case Protocol_SendRequest H transportSocket request s of
        (Inl e, s') \<Rightarrow> Some (Inl e, s')
      | (Inr responce, s') \<Rightarrow>
          (if is_Error responce then Some (Inl (responce_failed H responce), s')
           else if getRemaining responce = NO_MORE_REMAINING then Some (Inr [], s')
           else listLoop H transportSocket getRemaining responce [responce] s'))"

section \<open>The handshake\<close>

definition new_Transport :: "sock \<Rightarrow> token_t \<Rightarrow> ('w, nat) protoM" where
  "new_Transport transportSocket accessToken =
     bindM (getsM next_transport) (\<lambda>t.
       thenM (modifyM (\<lambda>s. s\<lparr>next_transport := Suc t, theap := (theap s)(t \<mapsto>
         \<lparr>to_TransportSocket = transportSocket, to_AccessToken = accessToken,
          to_Secure = \<lparr>Enabled = False, TxKey = zeros 32, RxKey = zeros 32, TxCounter = 0, RxCounter = 0\<rparr>\<rparr>)\<rparr>))
       (ret t))"

definition delete_Transport :: "('k, 'w) Host \<Rightarrow> nat \<Rightarrow> ('w, unit) protoM" where
  "delete_Transport H t =
     bindM (deref t) (\<lambda>tr.
       thenM (UnregisterSecureSession t)
       (thenM (liftnet (Close (sockets H) (to_TransportSocket tr)))
       (modifyM (\<lambda>s. s\<lparr>theap := (theap s)(t := None)\<rparr>))))"

definition closing :: "('k, 'w) Host \<Rightarrow> sock \<Rightarrow> ('w, nat option) protoM" where
  "closing H clientTransport = thenM (liftnet (Close (sockets H) clientTransport)) (ret None)"

text \<open>A \<open>catch (const std::runtime_error&)\<close> that closes the socket and goes on.\<close>

definition catch_close :: "('k, 'w) Host \<Rightarrow> sock \<Rightarrow> ('w, nat option) protoM \<Rightarrow> ('w, nat option) protoM" where
  "catch_close H clientTransport m =
     tryM m (\<lambda>e. if is_runtime_error e then closing H clientTransport else throw e)"

definition secureHandshake :: "('k, 'w) Host \<Rightarrow> sock \<Rightarrow> token_t \<Rightarrow> HandshakeRequest \<Rightarrow> ('w, nat option) protoM" where
  "secureHandshake H clientTransport token handshake =
     bindM (liftnet (GenerateX25519KeyPair (ssl H))) (\<lambda>serverKeyPair.
     bindM (lift_result (DeriveSharedSecret (ssl H) (kp_PrivateKey serverKeyPair) (hsq_ClientPublicKey handshake))) (\<lambda>sharedSecret.
     bindM (new_Transport clientTransport token) (\<lambda>transport.
     bindM (lift_result (DeriveDirectionalKeys (ssl H) sharedSecret (hsq_IntegrityTag handshake) True)) (\<lambda>(tx, rx).
     thenM (set_Secure transport (\<lambda>x. x\<lparr>TxKey := tx, RxKey := rx, TxCounter := 0, RxCounter := 0\<rparr>))
     (thenM (Protocol_SendResponce H clientTransport (CreateHandshakeSecureResponce (hsq_Flag handshake) token
        (hsq_IntegrityTag handshake) (kp_PublicKey serverKeyPair)))
     (thenM (set_Secure transport (\<lambda>x. x\<lparr>Enabled := True\<rparr>))
     (thenM (RegisterSecureSession transport) (ret (Some transport)))))))))"

definition acceptHandshake :: "('k, 'w) Host \<Rightarrow> sock \<Rightarrow> HandshakeRequest \<Rightarrow> ('w, nat option) protoM" where
  "acceptHandshake H clientTransport handshake =
     (if hsq_Version handshake \<noteq> TELECRAP_VERSION
      then thenM (Protocol_SendResponce H clientTransport (CreateError (fresh_responce H) ''Invalid version'' EC_OK))
             (closing H clientTransport)
      else bindM (liftnet (syscall (random_token H))) (\<lambda>token.
        if hsq_SecureMode handshake = 1 then secureHandshake H clientTransport token handshake
        else thenM (Protocol_SendResponce H clientTransport (CreateHandshakeResponce (hsq_Flag handshake) token))
               (bindM (new_Transport clientTransport token) (\<lambda>t. ret (Some t)))))"

text \<open>One round of the loop: a new transport, or \<open>None\<close> for \<open>continue\<close>. A failed \<open>accept\<close> is not noticed.\<close>

definition handshakeOnce :: "('k, 'w) Host \<Rightarrow> sock \<Rightarrow> ('w, nat option) protoM" where
  "handshakeOnce H listener =
     bindM (liftnet (syscall (sys_accept (sockets H) listener))) (\<lambda>clientTransport.
       catch_close H clientTransport (bindM (Protocol_GetRequest H clientTransport) (\<lambda>request.
         case request of
           Handshake handshake \<Rightarrow> catch_close H clientTransport (acceptHandshake H clientTransport handshake)
         | _ \<Rightarrow> catch_close H clientTransport
             (thenM (Protocol_SendResponce H clientTransport (CreateError (fresh_responce H) ''unsupported'' EC_OK))
               (closing H clientTransport)))))"

partial_function (option) Protocol_ListenHandshake :: "('k, 'w) Host \<Rightarrow> sock \<Rightarrow> 'w Proto \<Rightarrow>
    ((exn + nat) \<times> 'w Proto) option" where
  "Protocol_ListenHandshake H listener s =
     (case handshakeOnce H listener s of
        (Inl e, s') \<Rightarrow> Some (Inl e, s')
      | (Inr None, s') \<Rightarrow> Protocol_ListenHandshake H listener s'
      | (Inr (Some t), s') \<Rightarrow> Some (Inr t, s'))"

definition Transport_Server :: "('k, 'w) Host \<Rightarrow> ('w, nat) protoM" where
  "Transport_Server H = bindM (liftnet (OpenHandshake (sockets H))) (\<lambda>listenSocket. new_Transport listenSocket 0)"

partial_function (option) ScreamInVoidUntilConnected :: "('k, 'w) Host \<Rightarrow> 'w Proto \<Rightarrow>
    ((exn + sock) \<times> 'w Proto) option" where
  "ScreamInVoidUntilConnected H s =
     (case liftnet (ConnectHandshake (sockets H) (garbage H)) s of
        (Inr transportSocket, s') \<Rightarrow> Some (Inr transportSocket, s')
      | (Inl e, s') \<Rightarrow> (if e = connection_refused_error then ScreamInVoidUntilConnected H s' else Some (Inl e, s')))"

text \<open>
  \<open>Transport::Client\<close> from the connected socket on: what the client draws for its request, and the
  exchange. A responce of a third type is read through the handshake member of the union too; the
  bytes its type does not determine are the fresh ones.
\<close>

definition clientHello :: "('k, 'w) Host \<Rightarrow> ('w, connflag_t \<times> u64 \<times> KeyPair) protoM" where
  "clientHello H =
     bindM (liftnet (syscall (c_rand H))) (\<lambda>r0.
     bindM (liftnet (syscall (c_rand H))) (\<lambda>r1.
     bindM (liftnet (syscall (c_rand H))) (\<lambda>r2.
     bindM (liftnet (GenerateX25519KeyPair (ssl H))) (\<lambda>keyPair.
       ret (ucast r0, (push_bit 32 (ucast r1)) XOR ucast r2, keyPair)))))"

definition clientHandshake :: "('k, 'w) Host \<Rightarrow> sock \<Rightarrow> ('w, nat) protoM" where
  "clientHandshake H transportSocket =
     bindM (clientHello H) (\<lambda>(flag, integrityTag, keyPair).
     bindM (Protocol_SendRequest H transportSocket (CreateHandshakeSecure flag integrityTag (kp_PublicKey keyPair))) (\<lambda>responce.
       case responce of
         Error e \<Rightarrow> thenM (liftnet (Close (sockets H) transportSocket))
           (throw (runtime_error (''Failed to conect to server : '' @ c_str (er_Message e))))
       | _ \<Rightarrow>
         let handshake = dec_HandshakeResponce (sub 4 RESPONCE_UNION (enc_Responce (fresh_responce H) responce)) in
         if hsp_Flag handshake \<noteq> flag
         then thenM (liftnet (Close (sockets H) transportSocket))
           (throw (runtime_error ''Failed to conect to server : server returned wrong flag''))
         else bindM (new_Transport transportSocket (hsp_Token handshake)) (\<lambda>out.
           if hsp_SecureMode handshake \<noteq> 1 \<or> hsp_IntegrityTag handshake \<noteq> integrityTag
           then thenM (delete_Transport H out)
             (throw (runtime_error ''Failed to connect to server : secure handshake integrity check failed''))
           else bindM (lift_result (DeriveSharedSecret (ssl H) (kp_PrivateKey keyPair) (hsp_ServerPublicKey handshake))) (\<lambda>sharedSecret.
             bindM (lift_result (DeriveDirectionalKeys (ssl H) sharedSecret integrityTag False)) (\<lambda>(tx, rx).
             thenM (set_Secure out (\<lambda>x. x\<lparr>TxKey := tx, RxKey := rx, Enabled := True, TxCounter := 0, RxCounter := 0\<rparr>))
             (thenM (RegisterSecureSession out)
             (thenM (modifyM (\<lambda>s. s\<lparr>executed := True\<rparr>)) (ret out))))))))"

definition Transport_Client :: "('k, 'w) Host \<Rightarrow> 'w Proto \<Rightarrow> ((exn + nat) \<times> 'w Proto) option" where
  "Transport_Client H s =
     (if executed s
      then Some (Inl (runtime_error ''Client endpoint protocol can be created only once per process.''), s)
      else case ScreamInVoidUntilConnected H s of
        None \<Rightarrow> None
      | Some (Inl e, s') \<Rightarrow> Some (Inl e, s')
      | Some (Inr transportSocket, s') \<Rightarrow> Some (clientHandshake H transportSocket s'))"

section \<open>One frame\<close>

definition link_ok :: "('k, 'w) Host \<Rightarrow> ('w \<Rightarrow> sock \<Rightarrow> byte list) \<Rightarrow> ('w \<Rightarrow> sock \<Rightarrow> byte list) \<Rightarrow> sock \<Rightarrow> bool" where
  "link_ok H out inc sk \<longleftrightarrow> tcp_ok (sockets H) out inc \<and> flowing (sockets H) inc sk \<and> gcm_ok (ssl H) \<and>
     length (frame_pad H) = 4 \<and> length (fresh_request H) = REQUEST_UNION \<and> length (fresh_responce H) = RESPONCE_UNION"

abbreviation outp where "outp out s \<equiv> out (world (net s))"

definition same_rest :: "'w Proto \<Rightarrow> 'w Proto \<Rightarrow> bool" where
  "same_rest s s' \<longleftrightarrow> secureSessionBySocket s' = secureSessionBySocket s \<and> next_transport s' = next_transport s \<and>
     executed s' = executed s \<and> same_globals (net s) (net s')"

definition frame :: "('k, 'w) Host \<Rightarrow> byte list \<Rightarrow> u64 \<Rightarrow> byte list \<Rightarrow> byte list" where
  "frame H key counter object = (case EncryptAead (ssl H) key counter object of Inl _ \<Rightarrow> []
     | Inr (ciphertext, tag) \<Rightarrow> enc_SecureFrameHeader (frame_pad H)
         \<lparr>fh_CiphertextSize = of_nat (length ciphertext), fh_Counter = counter, fh_Tag = tag\<rparr> @ ciphertext)"

lemma header_roundtrip:
  assumes "length pad = 4" and "length (fh_Tag h) = 16"
  shows "length (enc_SecureFrameHeader pad h) = HEADER_SIZE"
    and "dec_SecureFrameHeader (enc_SecureFrameHeader pad h) = h"
  using assms by (simp_all add: enc_SecureFrameHeader_def dec_SecureFrameHeader_def HEADER_SIZE_def wire_simps)

lemma liftnet_run: "m (net s) = (r, n) \<Longrightarrow> liftnet m s = (r, s\<lparr>net := n\<rparr>)"
  by (simp add: liftnet_def)

lemma deref_run: "theap s t = Some tr \<Longrightarrow> deref t s = (Inr tr, s)"
  by (simp add: deref_def monad_defs)

lemma sendSecureObject_run:
  assumes link: "link_ok H out inc sk" and t: "theap s t = Some tr" "to_TransportSocket tr = sk"
    and key: "length (TxKey (to_Secure tr)) = 32"
  shows "\<exists>s'. sendSecureObject H t object s = (Inr (), s') \<and>
     outp out s' = (outp out s)(sk := outp out s sk @ frame H (TxKey (to_Secure tr)) (TxCounter (to_Secure tr)) object) \<and>
     outp inc s' = outp inc s \<and> same_rest s s' \<and>
     theap s' = (theap s)(t \<mapsto> tr\<lparr>to_Secure := (to_Secure tr)\<lparr>TxCounter := TxCounter (to_Secure tr) + 1\<rparr>\<rparr>)"
proof -
  let ?k = "TxKey (to_Secure tr)" and ?n = "TxCounter (to_Secure tr)"
  have tcp: "tcp_ok (sockets H) out inc" "flowing (sockets H) inc sk" using link by (simp_all add: link_ok_def)
  obtain c tag where c: "EncryptAead (ssl H) ?k ?n object = Inr (c, tag)"
    using Aead_run [of "ssl H" ?k] link key by (metis link_ok_def)
  define hd where "hd = enc_SecureFrameHeader (frame_pad H) \<lparr>fh_CiphertextSize = of_nat (length c), fh_Counter = ?n, fh_Tag = tag\<rparr>"
  define s0 where "s0 = s\<lparr>theap := (theap s)(t \<mapsto> tr\<lparr>to_Secure := (to_Secure tr)\<lparr>TxCounter := ?n + 1\<rparr>\<rparr>)\<rparr>"
  obtain n1 where n1: "SendBuffer (sockets H) sk hd (net s0) = (Inr EC_OK, n1)" "same_globals (net s0) n1"
    "out (world n1) = (out (world (net s0)))(sk := out (world (net s0)) sk @ hd)" "inc (world n1) = inc (world (net s0))"
    using SendBuffer_run [OF tcp] by blast
  obtain n2 where n2: "SendBuffer (sockets H) sk c n1 = (Inr EC_OK, n2)" "same_globals n1 n2"
    "out (world n2) = (out (world n1))(sk := out (world n1) sk @ c)" "inc (world n2) = inc (world n1)"
    using SendBuffer_run [OF tcp] by blast
  have "set_Secure t (\<lambda>x. x\<lparr>TxCounter := ?n + 1\<rparr>) s = (Inr (), s0)"
    by (simp add: set_Secure_def modifyM_def s0_def t)
  then have "sendSecureObject H t object s = (Inr (), s0\<lparr>net := n2\<rparr>)"
    using n1(1) n2(1) c
    by (simp add: sendSecureObject_def bindM_def deref_run [OF t(1)] thenM_def lift_result_def ret_def t(2)
        liftnet_run Let_def flip: hd_def)
  then show ?thesis
    using n1 n2 by (auto simp: frame_def c same_rest_def same_globals_def s0_def simp flip: hd_def)
qed

lemma recvSecureObject_run:
  assumes link: "link_ok H out inc sk" and t: "theap s t = Some tr" "to_TransportSocket tr = sk"
    and key: "length (RxKey (to_Secure tr)) = 32"
    and inc: "outp inc s sk = frame H (RxKey (to_Secure tr)) counter object @ rest"
    and size: "0 < length object" "length object \<le> 2 ^ 20"
  shows "\<exists>s'. outp inc s' = (outp inc s)(sk := rest) \<and> outp out s' = outp out s \<and> same_rest s s' \<and> theap s' = theap s \<and>
     recvSecureObject H t sizeof s =
       (if counter \<noteq> RxCounter (to_Secure tr) then fault H ''Secure counter mismatch'' EC_FAULT s'
        else bindM (set_Secure t (\<lambda>x. x\<lparr>RxCounter := RxCounter x + 1\<rparr>)) (\<lambda>_.
          if length object \<noteq> sizeof then fault H ''Secure plaintext size mismatch'' EC_FAULT else ret object) s')"
proof -
  let ?k = "RxKey (to_Secure tr)"
  have tcp: "tcp_ok (sockets H) out inc" "flowing (sockets H) inc sk" and gcm: "gcm_ok (ssl H)"
    and pad: "length (frame_pad H) = 4"
    using link by (simp_all add: link_ok_def)
  obtain c tag where c: "EncryptAead (ssl H) ?k counter object = Inr (c, tag)" "length c = length object"
    "length tag = 16" "DecryptAead (ssl H) ?k counter c tag = Inr object"
    using Aead_run [OF gcm key] by blast
  define h where "h = \<lparr>fh_CiphertextSize = of_nat (length c) :: u32, fh_Counter = counter, fh_Tag = tag\<rparr>"
  define hd where "hd = enc_SecureFrameHeader (frame_pad H) h"
  have hd: "length hd = HEADER_SIZE" "dec_SecureFrameHeader hd = h"
    unfolding hd_def by (rule header_roundtrip; simp add: pad h_def c)+
  have fr: "outp inc s sk = hd @ c @ rest" by (simp add: inc frame_def c(1) hd_def h_def)
  obtain n1 where n1: "ReceiveBuffer (sockets H) sk HEADER_SIZE (net s) = (Inr (EC_OK, hd), n1)" "same_globals (net s) n1"
    "inc (world n1) = (outp inc s)(sk := c @ rest)" "out (world n1) = outp out s"
    using ReceiveBuffer_run [OF tcp fr] hd(1) by auto
  have inc1: "inc (world n1) sk = c @ rest" by (simp add: n1)
  obtain n2 where n2: "ReceiveBuffer (sockets H) sk (length c) n1 = (Inr (EC_OK, c), n2)" "same_globals n1 n2"
    "inc (world n2) = (inc (world n1))(sk := rest)" "out (world n2) = out (world n1)"
    using ReceiveBuffer_run [OF tcp inc1] by blast
  have hf: "fh_Counter h = counter" "fh_Tag h = tag" by (simp_all add: h_def)
  have sz: "unat (fh_CiphertextSize h) = length c"
    using c(2) size by (simp add: h_def unat_of_nat)
  have szn: "fh_CiphertextSize h \<noteq> 0 \<and> \<not> fh_CiphertextSize h > 2 ^ 20"
  proof -
    have "unat (fh_CiphertextSize h) \<noteq> 0" "unat (fh_CiphertextSize h) \<le> 2 ^ 20" using sz c(2) size by simp_all
    then show ?thesis by (auto simp: word_less_nat_alt)
  qed
  have "recvSecureObject H t sizeof s =
       (if counter \<noteq> RxCounter (to_Secure tr) then fault H ''Secure counter mismatch'' EC_FAULT (s\<lparr>net := n2\<rparr>)
        else bindM (set_Secure t (\<lambda>x. x\<lparr>RxCounter := RxCounter x + 1\<rparr>)) (\<lambda>_.
          if length object \<noteq> sizeof then fault H ''Secure plaintext size mismatch'' EC_FAULT else ret object) (s\<lparr>net := n2\<rparr>))"
    using n1(1) n2(1) c(4) szn hd(2)
    by (auto simp: recvSecureObject_def bindM_def deref_run [OF t(1)] liftnet_run t(2) Let_def sz lift_result_def
        ret_def thenM_def hf)
  then show ?thesis
    using n1 n2 by (intro exI [of _ "s\<lparr>net := n2\<rparr>"]) (auto simp: same_rest_def same_globals_def)
qed

text \<open>
  C32. An object sent in a frame is received as it was: for two ends whose keys match and whose
  counters agree, the bytes \<open>sendSecureObject\<close> gives to the socket are read by \<open>recvSecureObject\<close> on the
  other side as the same object, nothing that follows them is touched, and the counters agree again.
\<close>

theorem secure_frame_delivered:
  assumes "link_ok H out inc sk1" and "link_ok H out inc sk2"
    and "theap s1 t1 = Some a" and "to_TransportSocket a = sk1" and "theap s2 t2 = Some b" and "to_TransportSocket b = sk2"
    and "TxKey (to_Secure a) = RxKey (to_Secure b)" and "length (RxKey (to_Secure b)) = 32"
    and "TxCounter (to_Secure a) = RxCounter (to_Secure b)" and "0 < length object" and "length object \<le> 2 ^ 20"
    and "bytes = frame H (TxKey (to_Secure a)) (TxCounter (to_Secure a)) object" and "outp inc s2 sk2 = bytes @ rest"
  shows "\<exists>s1' s2' a' b'. sendSecureObject H t1 object s1 = (Inr (), s1') \<and> outp out s1' sk1 = outp out s1 sk1 @ bytes \<and>
     recvSecureObject H t2 (length object) s2 = (Inr object, s2') \<and> outp inc s2' sk2 = rest \<and>
     theap s1' t1 = Some a' \<and> theap s2' t2 = Some b' \<and>
     TxCounter (to_Secure a') = RxCounter (to_Secure b') \<and> RxCounter (to_Secure b') = RxCounter (to_Secure b) + 1"
proof -
  obtain s1' where "sendSecureObject H t1 object s1 = (Inr (), s1')"
    "outp out s1' = (outp out s1)(sk1 := outp out s1 sk1 @ bytes)"
    "theap s1' = (theap s1)(t1 \<mapsto> a\<lparr>to_Secure := (to_Secure a)\<lparr>TxCounter := TxCounter (to_Secure a) + 1\<rparr>\<rparr>)"
    using sendSecureObject_run [OF assms(1,3,4)] assms(7,8,12) by metis
  moreover obtain s' where "outp inc s' = (outp inc s2)(sk2 := rest)" "theap s' = theap s2"
    "recvSecureObject H t2 (length object) s2 = bindM (set_Secure t2 (\<lambda>x. x\<lparr>RxCounter := RxCounter x + 1\<rparr>)) (\<lambda>_. ret object) s'"
    using recvSecureObject_run [OF assms(2,5,6,8), of "RxCounter (to_Secure b)" object rest "length object"] assms(7,9-13) by auto
  ultimately show ?thesis using assms(5,9) by (auto simp: monad_defs set_Secure_def)
qed

text \<open>
  C33. A frame that does not carry the expected counter, be it replayed, reordered or left out before,
  is refused with an error, whoever holds the key: keys and counters stay as they were.
\<close>

theorem replayed_frame_refused:
  assumes "link_ok H out inc sk" and "theap s t = Some tr" and "to_TransportSocket tr = sk"
    and "length (RxKey (to_Secure tr)) = 32" and "0 < length object" and "length object \<le> 2 ^ 20"
    and "outp inc s sk = frame H (RxKey (to_Secure tr)) counter object @ rest" and "counter \<noteq> RxCounter (to_Secure tr)"
  shows "\<exists>s'. recvSecureObject H t n s =
       (Inl (request_error (garbage H) (fs_of ERRORMESSAGE_MAXLENGTH ''Secure counter mismatch'') EC_FAULT), s') \<and>
     theap s' = theap s \<and> outp inc s' sk = rest"
  using recvSecureObject_run [OF assms(1-4,7,5,6), of n] assms(8)
  by (auto simp: fault_def throw_def request_failed_def)

text \<open>
  C34. No nonce is used twice with a key: over any sequence of at most \<open>2^64\<close> objects the frames carry
  consecutive counters and pairwise different nonces.
\<close>

lemma sendAll_run:
  assumes "link_ok H out inc sk"
  shows "theap s t = Some tr \<Longrightarrow> to_TransportSocket tr = sk \<Longrightarrow> length (TxKey (to_Secure tr)) = 32 \<Longrightarrow>
   \<exists>s'. forEach (sendSecureObject H t) objects s = (Inr (), s') \<and>
     outp out s' sk = outp out s sk @ concat (map (\<lambda>i. frame H (TxKey (to_Secure tr))
       (TxCounter (to_Secure tr) + of_nat i) (objects ! i)) [0..<length objects])"
proof (induction objects arbitrary: s tr)
  case Nil
  then show ?case by (simp add: ret_def)
next
  case (Cons x xs)
  let ?tr = "tr\<lparr>to_Secure := (to_Secure tr)\<lparr>TxCounter := TxCounter (to_Secure tr) + 1\<rparr>\<rparr>"
  obtain s1 where s1: "sendSecureObject H t x s = (Inr (), s1)"
    "outp out s1 sk = outp out s sk @ frame H (TxKey (to_Secure tr)) (TxCounter (to_Secure tr)) x"
    "theap s1 t = Some ?tr"
    using sendSecureObject_run [OF assms Cons.prems] by fastforce
  obtain s2 where "forEach (sendSecureObject H t) xs s1 = (Inr (), s2)"
    "outp out s2 sk = outp out s1 sk @ concat (map (\<lambda>i. frame H (TxKey (to_Secure ?tr))
       (TxCounter (to_Secure ?tr) + of_nat i) (xs ! i)) [0..<length xs])"
    using Cons.IH [OF s1(3)] Cons.prems by auto
  moreover have "[0..<length (x # xs)] = 0 # map Suc [0..<length xs]" by (simp add: upt_conv_Cons map_Suc_upt del: upt_Suc)
  ultimately show ?case
    using s1 by (auto simp: thenM_def bindM_def o_def add.assoc)
qed

theorem nonces_never_repeat:
  assumes "link_ok H out inc sk" and "theap s t = Some tr" and "to_TransportSocket tr = sk"
    and "length (TxKey (to_Secure tr)) = 32" and "length objects \<le> 2 ^ 64"
  shows "\<exists>s'. forEach (sendSecureObject H t) objects s = (Inr (), s') \<and>
     outp out s' sk = outp out s sk @ concat (map (\<lambda>i. frame H (TxKey (to_Secure tr))
       (TxCounter (to_Secure tr) + of_nat i) (objects ! i)) [0..<length objects]) \<and>
     distinct (map (\<lambda>i. buildNonce (TxCounter (to_Secure tr) + of_nat i)) [0..<length objects])"
proof -
  have "i = j" if "i < length objects" "j < length objects"
      "buildNonce (TxCounter (to_Secure tr) + of_nat i) = buildNonce (TxCounter (to_Secure tr) + of_nat j)" for i j
  proof -
    have "(of_nat i :: u64) = of_nat j" using buildNonce_inj [OF that(3)] by simp
    then have "unat (of_nat i :: u64) = unat (of_nat j :: u64)" by simp
    then have "i mod 2 ^ 64 = j mod 2 ^ 64" by (simp add: unat_of_nat)
    then show ?thesis using that assms(5) by simp
  qed
  then have "distinct (map (\<lambda>i. buildNonce (TxCounter (to_Secure tr) + of_nat i)) [0..<length objects])"
    by (auto simp: distinct_map inj_on_def)
  then show ?thesis using sendAll_run [OF assms(1-4)] by blast
qed

section \<open>A host\<close>

text \<open>The two-byte pipes, and a stand-in for OpenSSL that satisfies the contracts.\<close>

definition ssl_demo :: "(byte list, 'w) OpenSSL" where
  "ssl_demo = \<lparr>EVP_PKEY_CTX_new_id = (\<lambda>_. True), EVP_PKEY_keygen = (\<lambda>w. (Some (replicate 32 7), w)),
     EVP_PKEY_get_raw_public_key = Some, EVP_PKEY_get_raw_private_key = Some,
     EVP_PKEY_new_raw_private_key = Some, EVP_PKEY_new_raw_public_key = Some,
     EVP_PKEY_derive_init = (\<lambda>_ _. True), EVP_PKEY_derive = (\<lambda>a b. Some (take 32 (map2 (+) a b))),
     EVP_KDF_fetch = True, EVP_KDF_CTX_new = True,
     EVP_KDF_derive = (\<lambda>key salt info n. Some (map (\<lambda>i. of_nat i) [0..<n])),
     EVP_CIPHER_CTX_new = True, EVP_EncryptUpdate = (\<lambda>key nonce p. Some p),
     EVP_EncryptFinal_ex = (\<lambda>key nonce p. Some ([], replicate 16 9)), EVP_DecryptUpdate = (\<lambda>key nonce c. Some c),
     EVP_CTRL_GCM_SET_TAG = (\<lambda>_. True),
     EVP_DecryptFinal_ex = (\<lambda>key nonce c tag. if tag = replicate 16 9 then Some [] else None)\<rparr>"

lemma ssl_demo_ok: "x25519_ok ssl_demo" "hkdf_ok ssl_demo" "gcm_ok ssl_demo"
proof -
  have "map2 (+) a b = map2 (+) b (a :: byte list)" if "length a = length b" for a b
    using that by (induction a b rule: list_induct2) (auto simp: add.commute)
  then show "x25519_ok ssl_demo" by (auto simp: x25519_ok_def ssl_demo_def x25519_pair_def)
  show "hkdf_ok ssl_demo" "gcm_ok ssl_demo" by (simp_all add: hkdf_ok_def gcm_ok_def ssl_demo_def)
qed

definition Host_demo :: "(byte list, pipes) Host" where
  "Host_demo = \<lparr>sockets = pipe_system, ssl = ssl_demo, random_token = (\<lambda>w. (77, w)), c_rand = (\<lambda>w. (5, w)),
     garbage = [], frame_pad = [0, 0, 0, 0], fresh_request = zeros REQUEST_UNION, fresh_responce = zeros RESPONCE_UNION\<rparr>"

lemma Host_demo_link: "link_ok Host_demo fst snd sk"
  by (simp add: link_ok_def Host_demo_def pipe_system_ok pipe_system_flows ssl_demo_ok wire_simps)

text \<open>One transport on socket 5, its two keys the same, with bytes waiting.\<close>

definition Proto_demo :: "u64 \<Rightarrow> byte list \<Rightarrow> pipes Proto" where
  "Proto_demo n bs = \<lparr>net = Net_demo bs, secureSessionBySocket = [5 \<mapsto> 1],
     theap = [1 \<mapsto> \<lparr>to_TransportSocket = 5, to_AccessToken = 77,
       to_Secure = \<lparr>Enabled = True, TxKey = replicate 32 1, RxKey = replicate 32 1, TxCounter = n, RxCounter = n\<rparr>\<rparr>],
     next_transport = 2, executed = False\<rparr>"

lemma frame_demo: "frame Host_demo (replicate 32 1) n x = enc_SecureFrameHeader [0, 0, 0, 0]
    \<lparr>fh_CiphertextSize = of_nat (length x), fh_Counter = n, fh_Tag = replicate 16 9\<rparr> @ x"
  by (simp add: frame_def EncryptAead_def Host_demo_def ssl_demo_def)

lemma Proto_demo_simps: "theap (Proto_demo n bs) 1 = Some \<lparr>to_TransportSocket = 5, to_AccessToken = 77,
    to_Secure = \<lparr>Enabled = True, TxKey = replicate 32 1, RxKey = replicate 32 1, TxCounter = n, RxCounter = n\<rparr>\<rparr>"
  "outp snd (Proto_demo n bs) 5 = bs"
  by (simp_all add: Proto_demo_def Net_demo_def)

theorem secure_frame_delivered_witness:
  "\<exists>s1' s2'. sendSecureObject Host_demo 1 [1, 2, 3] (Proto_demo 4 []) = (Inr (), s1') \<and>
     recvSecureObject Host_demo 1 (length [1, 2, 3 :: byte])
       (Proto_demo 4 (frame Host_demo (replicate 32 1) 4 [1, 2, 3] @ [8])) = (Inr [1, 2, 3], s2') \<and> outp snd s2' 5 = [8]"
proof -
  let ?fr = "frame Host_demo (replicate 32 1) 4 [1, 2, 3]" and ?a = "the (theap (Proto_demo 4 []) 1)"
  have a: "theap (Proto_demo 4 bs) 1 = Some ?a" "to_TransportSocket ?a = 5" "TxKey (to_Secure ?a) = RxKey (to_Secure ?a)"
    "length (RxKey (to_Secure ?a)) = 32" "TxCounter (to_Secure ?a) = RxCounter (to_Secure ?a)"
    "?fr = frame Host_demo (TxKey (to_Secure ?a)) (TxCounter (to_Secure ?a)) [1, 2, 3]" for bs
    by (simp_all only: Proto_demo_simps option.sel) simp_all
  have o: "0 < length [1, 2, 3 :: byte]" "length [1, 2, 3 :: byte] \<le> 2 ^ 20" by simp_all
  show ?thesis
    using secure_frame_delivered [OF Host_demo_link Host_demo_link a(1,2) a(1,2) a(3,4,5) o a(6) Proto_demo_simps(2)]
    by blast
qed

theorem replayed_frame_refused_witness:
  "\<exists>s' e. recvSecureObject Host_demo 1 3 (Proto_demo 5 (frame Host_demo (replicate 32 1) 4 [1, 2, 3] @ [])) = (Inl e, s') \<and>
     theap s' = theap (Proto_demo 5 [])"
proof -
  let ?s = "Proto_demo 5 (frame Host_demo (replicate 32 1) 4 [1, 2, 3] @ [])"
  have "\<exists>s'. recvSecureObject Host_demo 1 3 ?s =
       (Inl (request_error (garbage Host_demo) (fs_of ERRORMESSAGE_MAXLENGTH ''Secure counter mismatch'') EC_FAULT), s') \<and>
     theap s' = theap ?s \<and> outp snd s' 5 = []"
    using Proto_demo_simps(2) [of 5 "frame Host_demo (replicate 32 1) 4 [1, 2, 3] @ []"]
    by (intro replayed_frame_refused [OF Host_demo_link Proto_demo_simps(1), where counter = 4 and object = "[1, 2, 3]"]) simp_all
  then show ?thesis by (auto simp: Proto_demo_def)
qed

theorem nonces_never_repeat_witness:
  "\<exists>s'. forEach (sendSecureObject Host_demo 1) [[1], [2]] (Proto_demo 0xFFFFFFFFFFFFFFFF []) = (Inr (), s') \<and>
     distinct (map (\<lambda>i. buildNonce (0xFFFFFFFFFFFFFFFF + of_nat i)) [0..<length [[1], [2 :: byte]]])"
proof -
  let ?a = "the (theap (Proto_demo 0xFFFFFFFFFFFFFFFF []) 1)"
  have a: "theap (Proto_demo 0xFFFFFFFFFFFFFFFF []) 1 = Some ?a" "to_TransportSocket ?a = 5"
    "length (TxKey (to_Secure ?a)) = 32" "TxCounter (to_Secure ?a) = 0xFFFFFFFFFFFFFFFF"
    by (simp_all only: Proto_demo_simps option.sel) simp_all
  have "length [[1], [2 :: byte]] \<le> 2 ^ 64" by simp
  from nonces_never_repeat [OF Host_demo_link a(1,2,3) this] show ?thesis unfolding a(4) by blast
qed

end
