(* ===== verification/Exchange.thy ===== *)
theory Exchange
  imports Protocol Backend_Chat
begin

text \<open>
  Both ends of a connection: an object sent is received, over a plain socket or a secure session, a
  list the server sends is collected whole by the client, and the handshake leaves both ends with
  matching keys.
\<close>

section \<open>One object\<close>

text \<open>What the end at socket \<open>sk\<close> holds: no session, or an enabled one of the transport registered there.\<close>

definition endpoint :: "'w Proto \<Rightarrow> sock \<Rightarrow> SecureSession option \<Rightarrow> bool" where
  "endpoint s sk ss = (case ss of
     None \<Rightarrow> secureSessionBySocket s sk = None
   | Some x \<Rightarrow> Enabled x \<and> length (TxKey x) = 32 \<and> length (RxKey x) = 32 \<and>
       (\<exists>t tr. secureSessionBySocket s sk = Some t \<and> theap s t = Some tr \<and> to_TransportSocket tr = sk \<and> to_Secure tr = x))"

text \<open>The bytes of the objects the end will receive, and of one that it sends.\<close>

primrec incoming :: "('k, 'w) Host \<Rightarrow> SecureSession option \<Rightarrow> byte list list \<Rightarrow> byte list" where
  "incoming H ss [] = []"
| "incoming H ss (x # xs) = (case ss of None \<Rightarrow> x | Some y \<Rightarrow> frame H (RxKey y) (RxCounter y) x) @
     incoming H (map_option (\<lambda>y. y\<lparr>RxCounter := RxCounter y + 1\<rparr>) ss) xs"

definition outgoing :: "('k, 'w) Host \<Rightarrow> SecureSession option \<Rightarrow> byte list \<Rightarrow> byte list" where
  "outgoing H ss x = (case ss of None \<Rightarrow> x | Some y \<Rightarrow> frame H (TxKey y) (TxCounter y) x)"

abbreviation received :: "SecureSession option \<Rightarrow> SecureSession option" where
  "received ss \<equiv> map_option (\<lambda>y. y\<lparr>RxCounter := RxCounter y + 1\<rparr>) ss"

abbreviation sent_one :: "SecureSession option \<Rightarrow> SecureSession option" where
  "sent_one ss \<equiv> map_option (\<lambda>y. y\<lparr>TxCounter := TxCounter y + 1\<rparr>) ss"

lemma incoming_sent: "incoming H (sent_one ss) xs = incoming H ss xs"
    "incoming H (received (sent_one ss)) xs = incoming H (received ss) xs"
proof -
  have comm: "received (sent_one ss) = sent_one (received ss)" for ss by (cases ss) simp_all
  show *: "incoming H (sent_one ss) xs = incoming H ss xs" for ss
    by (induction xs arbitrary: ss) (simp_all only: incoming.simps comm, simp split: option.split)
  show "incoming H (received (sent_one ss)) xs = incoming H (received ss) xs" by (simp only: comm *)
qed

lemma sint_of_small: "n < 2 ^ 31 \<Longrightarrow> sint (of_nat n :: u32) = int n"
  by (simp add: signed_of_nat signed_take_bit_int_eq_self)

lemma Data_is_Buffer: "SendData K sk data st = SendBuffer K sk data st"
    "ReceiveData K sk n st = ReceiveBuffer K sk n st"
  using SendDataLoop_eq [of K sk data 0 st] ReceiveDataLoop_eq [of "[]" n K sk st]
  by (simp_all add: SendData_def SendBuffer_def ReceiveData_def ReceiveBuffer_def)

lemma getSecureTransport_run:
  "endpoint s sk None \<Longrightarrow> getSecureTransport sk s = (Inr None, s)"
  "endpoint s sk (Some x) \<Longrightarrow> \<exists>t tr. getSecureTransport sk s = (Inr (Some t), s) \<and> theap s t = Some tr \<and>
     to_TransportSocket tr = sk \<and> to_Secure tr = x \<and> secureSessionBySocket s sk = Some t"
  by (auto simp: endpoint_def getSecureTransport_def bindM_def getsM_def ret_def deref_run)

lemma sendObject_run:
  assumes link: "link_ok H out inc sk" and e: "endpoint s sk ss"
  shows "\<exists>s'. sendObject H sk object message s = (Inr (), s') \<and> endpoint s' sk (sent_one ss) \<and> same_rest s s' \<and>
     outp out s' = (outp out s)(sk := outp out s sk @ outgoing H ss object) \<and> outp inc s' = outp inc s \<and>
     (ss = None \<longrightarrow> theap s' = theap s)"
proof (cases ss)
  case None
  have tcp: "tcp_ok (sockets H) out inc" "flowing (sockets H) inc sk" using link by (simp_all add: link_ok_def)
  obtain n where n: "SendBuffer (sockets H) sk object (net s) = (Inr EC_OK, n)" "same_globals (net s) n"
    "out (world n) = (outp out s)(sk := outp out s sk @ object)" "inc (world n) = outp inc s"
    using SendBuffer_run [OF tcp] by blast
  have "sendObject H sk object message s = (Inr (), s\<lparr>net := n\<rparr>)"
    using getSecureTransport_run(1) [of s sk] e None n(1)
    by (simp add: sendObject_def bindM_def liftnet_run Data_is_Buffer ret_def)
  then show ?thesis using n e None by (auto simp: endpoint_def outgoing_def same_rest_def)
next
  case (Some x)
  obtain t tr where t: "getSecureTransport sk s = (Inr (Some t), s)" "theap s t = Some tr"
    "to_TransportSocket tr = sk" "to_Secure tr = x" "secureSessionBySocket s sk = Some t"
    using getSecureTransport_run(2) e Some by blast
  have x: "Enabled x" "length (TxKey x) = 32" "length (RxKey x) = 32" using e Some by (auto simp: endpoint_def)
  obtain s' where s': "sendSecureObject H t object s = (Inr (), s')"
     "outp out s' = (outp out s)(sk := outp out s sk @ frame H (TxKey x) (TxCounter x) object)"
     "outp inc s' = outp inc s" "same_rest s s'" "theap s' t = Some (tr\<lparr>to_Secure := x\<lparr>TxCounter := TxCounter x + 1\<rparr>\<rparr>)"
    using sendSecureObject_run [OF link t(2,3)] x t(4) by fastforce
  then have "sendObject H sk object message s = (Inr (), s')"
    using t(1) by (simp add: sendObject_def bindM_def)
  then show ?thesis using s' t x Some by (auto simp: endpoint_def outgoing_def same_rest_def)
qed

lemma receiveObject_run:
  assumes link: "link_ok H out inc sk" and e: "endpoint s sk ss"
    and inc: "outp inc s sk = incoming H ss (object # objects) @ rest"
    and size: "0 < length object" "length object \<le> 2 ^ 20"
  shows "\<exists>s'. receiveObject H sk (length object) message s = (Inr object, s') \<and> endpoint s' sk (received ss) \<and>
     same_rest s s' \<and> outp inc s' = (outp inc s)(sk := incoming H (received ss) objects @ rest) \<and> outp out s' = outp out s"
proof (cases ss)
  case None
  have tcp: "tcp_ok (sockets H) out inc" "flowing (sockets H) inc sk" using link by (simp_all add: link_ok_def)
  have i: "inc (world (net s)) sk = object @ incoming H None objects @ rest" using inc None by simp
  obtain n where n: "ReceiveBuffer (sockets H) sk (length object) (net s) = (Inr (EC_OK, object), n)"
    "same_globals (net s) n" "inc (world n) = (outp inc s)(sk := incoming H None objects @ rest)" "out (world n) = outp out s"
    using ReceiveBuffer_run [OF tcp i] by blast
  have "receiveObject H sk (length object) message s = (Inr object, s\<lparr>net := n\<rparr>)"
    using getSecureTransport_run(1) [of s sk] e None n(1)
    by (simp add: receiveObject_def bindM_def liftnet_run Data_is_Buffer ret_def)
  then show ?thesis using n e None by (auto simp: endpoint_def same_rest_def)
next
  case (Some x)
  obtain t tr where t: "getSecureTransport sk s = (Inr (Some t), s)" "theap s t = Some tr"
    "to_TransportSocket tr = sk" "to_Secure tr = x" "secureSessionBySocket s sk = Some t"
    using getSecureTransport_run(2) e Some by blast
  have x: "Enabled x" "length (TxKey x) = 32" "length (RxKey x) = 32" using e Some by (auto simp: endpoint_def)
  have i: "outp inc s sk = frame H (RxKey (to_Secure tr)) (RxCounter x) object @ incoming H (received ss) objects @ rest"
    using inc Some t(4) by simp
  have k: "length (RxKey (to_Secure tr)) = 32" using x t(4) by simp
  obtain s' where s': "outp inc s' = (outp inc s)(sk := incoming H (received ss) objects @ rest)" "outp out s' = outp out s"
    "same_rest s s'" "theap s' = theap s" "recvSecureObject H t (length object) s =
      bindM (set_Secure t (\<lambda>x. x\<lparr>RxCounter := RxCounter x + 1\<rparr>)) (\<lambda>_. ret object) s'"
    using recvSecureObject_run [OF link t(2,3) k i size, of "length object"] t(4) by auto
  then have "receiveObject H sk (length object) message s = (Inr object,
      s'\<lparr>theap := (theap s')(t \<mapsto> tr\<lparr>to_Secure := x\<lparr>RxCounter := RxCounter x + 1\<rparr>\<rparr>)\<rparr>)"
    using t by (simp add: receiveObject_def bindM_def set_Secure_def modifyM_def ret_def)
  then show ?thesis using s' t x Some by (auto simp: endpoint_def same_rest_def)
qed

section \<open>Lists\<close>

text \<open>
  The callbacks given to \<open>SendRequestList\<close>: they read the first field of the union, whatever the type
  of the responce.
\<close>

definition remaining :: "byte list \<Rightarrow> Responce \<Rightarrow> u32" where
  "remaining fresh responce = dec_u32 (sub 4 4 (enc_Responce fresh responce))"

lemma remaining_run:
  "remaining f (RespUpdates k u) = k" "remaining f (RespChatHistory k m) = k" "remaining f (RespChatMembers k v) = k"
  "remaining f (RespChatList k c) = k" "remaining f (RespAddonCommands k n) = k"
  by (simp_all add: remaining_def enc_Responce_def wire_simps overlay_def)

lemma GetResponce_run:
  assumes link: "link_ok H out inc sk" and e: "endpoint s sk ss" and r: "Responce_wf r" and f: "length u = RESPONCE_UNION"
    and inc: "outp inc s sk = incoming H ss (enc_Responce u r # objects) @ rest"
  shows "\<exists>s'. Protocol_GetResponce H sk s = (Inr r, s') \<and> endpoint s' sk (received ss) \<and> same_rest s s' \<and>
     outp inc s' = (outp inc s)(sk := incoming H (received ss) objects @ rest) \<and> outp out s' = outp out s"
proof -
  have l: "length (enc_Responce u r) = RESPONCE_SIZE" by (rule length_enc_Responce [OF r f])
  then have "0 < length (enc_Responce u r)" "length (enc_Responce u r) \<le> 2 ^ 20"
    by (simp_all add: RESPONCE_SIZE_def)
  from receiveObject_run [OF link e inc this, of "''Failed to receive responce.''"]
  show ?thesis using dec_enc_Responce [OF r f] by (auto simp: Protocol_GetResponce_def bindM_def ret_def l)
qed

text \<open>A list as it is announced: each responce says how many follow it.\<close>

fun announced :: "byte list \<Rightarrow> Responce list \<Rightarrow> bool" where
  "announced f [] = True"
| "announced f (r # rs) \<longleftrightarrow> Responce_wf r \<and> \<not> is_Error r \<and> remaining f r = of_nat (length rs) \<and> announced f rs"

lemma listLoop_run:
  assumes link: "link_ok H out inc sk" and f: "length u = RESPONCE_UNION"
  shows "endpoint s sk ss \<Longrightarrow> announced g rs \<Longrightarrow> length rs < 2 ^ 31 \<Longrightarrow>
     remaining g r = of_nat (length rs) \<Longrightarrow>
     outp inc s sk = incoming H ss (map (enc_Responce u) rs) @ rest \<Longrightarrow>
     \<exists>s'. listLoop H sk (remaining g) r acc s = Some (Inr (acc @ rs), s') \<and>
       outp inc s' sk = rest \<and> outp out s' = outp out s"
proof (induction rs arbitrary: s ss r acc)
  case Nil
  then show ?case by (auto simp: listLoop.simps)
next
  case (Cons x xs)
  have g: "sint (remaining g r) > 0"
    using Cons.prems(3,4) sint_of_small [of "length (x # xs)"] by simp
  have i: "outp inc s sk = incoming H ss (enc_Responce u x # map (enc_Responce u) xs) @ rest"
    using Cons.prems(5) by simp
  obtain s1 where s1: "Protocol_GetResponce H sk s = (Inr x, s1)" "endpoint s1 sk (received ss)"
     "outp inc s1 = (outp inc s)(sk := incoming H (received ss) (map (enc_Responce u) xs) @ rest)"
     "outp out s1 = outp out s"
    using GetResponce_run [OF link Cons.prems(1) _ f i] Cons.prems(2) by auto
  have "outp inc s1 sk = incoming H (received ss) (map (enc_Responce u) xs) @ rest" by (simp add: s1(3))
  from Cons.IH [OF s1(2) _ _ _ this, of x "acc @ [x]"] show ?case
    using Cons.prems(2,3) g s1 by (subst listLoop.simps) auto
qed

lemma SendRequest_run:
  assumes link: "link_ok H out inc sk" and e: "endpoint s sk ss" and r: "Responce_wf r" and f: "length u = RESPONCE_UNION"
    and inc: "outp inc s sk = incoming H ss (enc_Responce u r # objects) @ rest"
  shows "\<exists>s'. Protocol_SendRequest H sk request s = (Inr r, s') \<and> endpoint s' sk (received (sent_one ss)) \<and> same_rest s s' \<and>
     outp inc s' = (outp inc s)(sk := incoming H (received ss) objects @ rest) \<and>
     outp out s' = (outp out s)(sk := outp out s sk @ outgoing H ss (enc_Request (fresh_request H) request))"
proof -
  obtain s1 where s1: "sendObject H sk (enc_Request (fresh_request H) request) ''Failed to send request.'' s = (Inr (), s1)"
    "endpoint s1 sk (sent_one ss)" "same_rest s s1"
    "outp out s1 = (outp out s)(sk := outp out s sk @ outgoing H ss (enc_Request (fresh_request H) request))"
    "outp inc s1 = outp inc s"
    using sendObject_run [OF link e] by blast
  have "outp inc s1 sk = incoming H (sent_one ss) (enc_Responce u r # objects) @ rest"
    using inc by (simp only: s1(5) incoming_sent(1))
  from GetResponce_run [OF link s1(2) r f this] obtain s2 where s2: "Protocol_GetResponce H sk s1 = (Inr r, s2)"
    "endpoint s2 sk (received (sent_one ss))" "same_rest s1 s2" "outp out s2 = outp out s1"
    "outp inc s2 = (outp inc s1)(sk := incoming H (received (sent_one ss)) objects @ rest)" by blast
  then show ?thesis
    using s1 incoming_sent(2) [of H ss objects] by (auto simp: Protocol_SendRequest_def thenM_def bindM_def same_rest_def same_globals_def)
qed

lemma list_received:
  assumes link: "link_ok H out inc sk" and e: "endpoint s sk ss" and f: "length u = RESPONCE_UNION"
    and inc: "outp inc s sk = incoming H ss (map (enc_Responce u) rs) @ rest"
    and rs: "announced g rs" "rs \<noteq> []" "length rs \<le> 2 ^ 31"
  shows "\<exists>s'. Protocol_SendRequestList H sk q (remaining g) s = Some (Inr rs, s') \<and> outp inc s' sk = rest \<and>
     outp out s' sk = outp out s sk @ outgoing H ss (enc_Request (fresh_request H) q)"
proof -
  obtain r rs' where r: "rs = r # rs'" using rs(2) by (cases rs) auto
  have rem: "remaining g r = of_nat (length rs')" "length rs' < 2 ^ 31" "\<not> is_Error r" "Responce_wf r"
    "announced g rs'"
    using rs r by auto
  have n: "remaining g r \<noteq> NO_MORE_REMAINING"
  proof
    assume "remaining g r = NO_MORE_REMAINING"
    then have "sint (of_nat (length rs') :: u32) = sint (- 1 :: u32)" using rem(1) by (simp add: NO_MORE_REMAINING_def)
    then show False using sint_of_small [OF rem(2)] by simp
  qed
  have i: "outp inc s sk = incoming H ss (enc_Responce u r # map (enc_Responce u) rs') @ rest"
    using inc r by simp
  obtain s1 where s1: "Protocol_SendRequest H sk q s = (Inr r, s1)" "endpoint s1 sk (received (sent_one ss))"
     "outp inc s1 = (outp inc s)(sk := incoming H (received ss) (map (enc_Responce u) rs') @ rest)"
     "outp out s1 = (outp out s)(sk := outp out s sk @ outgoing H ss (enc_Request (fresh_request H) q))"
    using SendRequest_run [OF link e rem(4) f i] by blast
  have "outp inc s1 sk = incoming H (received (sent_one ss)) (map (enc_Responce u) rs') @ rest"
    by (simp add: s1(3) incoming_sent(2))
  from listLoop_run [OF link f s1(2) rem(5,2,1) this, of "[r]"] show ?thesis
    using s1 n rem(3) r by (auto simp: Protocol_SendRequestList_def)
qed

lemma none_received:
  assumes "link_ok H out inc sk" and "endpoint s sk ss" and "length u = RESPONCE_UNION"
    and "outp inc s sk = incoming H ss (map (enc_Responce u) [r]) @ rest"
    and "Responce_wf r" and "\<not> is_Error r" and "remaining g r = - 1"
  shows "\<exists>s'. Protocol_SendRequestList H sk q (remaining g) s = Some (Inr [], s') \<and> outp inc s' sk = rest \<and>
     outp out s' sk = outp out s sk @ outgoing H ss (enc_Request (fresh_request H) q)"
  using SendRequest_run [OF assms(1,2,5,3), of "[]" rest q] assms(4,6,7)
  by (auto simp: Protocol_SendRequestList_def NO_MORE_REMAINING_def)

lemma counted_announced:
  assumes "\<And>k x. remaining g (f k x) = k" and "\<And>k x. x \<in> set xs \<Longrightarrow> Responce_wf (f k x) \<and> \<not> is_Error (f k x)"
  shows "announced g (counted f (of_nat (length xs)) xs)"
  using assms(2) by (induction xs) (auto simp: assms(1))

lemma other_tag: "t \<notin> {0, 1, 2, 3, 4, 5} \<Longrightarrow> 5 < (t :: u32)"
  by unat_arith

lemma dec_Update_wf: "length bs = 676 \<Longrightarrow> Update_wf (dec_Update bs)"
  by (auto simp: Update_wf_def dec_Update_def dec_UpdateBody_def Message_wf_def Chat_wf_def User_wf_def fs_wf_def
      ChatMemberEvent_wf_def dec_Message_def dec_Chat_def dec_User_def dec_ChatMemberEvent_def maxlength_defs length_sub
      chars_of_def other_tag)

text \<open>The answer to \<open>GetUpdates\<close>, as the client receives it.\<close>

lemma updates_received:
  assumes "length (fresh_union E) = RESPONCE_UNION" and "\<forall>u \<in> set us. Update_wf u" and "length us \<le> 2 ^ 31"
    and "link_ok H out inc sk" and "endpoint s sk ss" and "length fresh = RESPONCE_UNION"
    and "outp inc s sk = incoming H ss (map (enc_Responce fresh) (updates_answer E us)) @ rest"
  shows "\<exists>s'. Protocol_SendRequestList H sk q (remaining (fresh_responce H)) s =
       Some (Inr (counted RespUpdates (of_nat (length us)) (rev us)), s') \<and> outp inc s' sk = rest \<and>
     outp out s' sk = outp out s sk @ outgoing H ss (enc_Request (fresh_request H) q)"
proof (cases "us = []")
  case True
  let ?u = "dec_Update (sub 4 676 (fresh_union E))"
  have i: "outp inc s sk = incoming H ss (map (enc_Responce fresh) [RespUpdates (- 1) ?u]) @ rest"
    using assms(7) True by (simp add: updates_answer_def)
  have "Update_wf ?u" by (rule dec_Update_wf) (simp add: length_sub assms(1) RESPONCE_UNION_def)
  then show ?thesis
    using none_received [OF assms(4-6) i, of "fresh_responce H" q] True by (auto simp: remaining_run is_Error_def)
next
  case False
  let ?rs = "counted RespUpdates (of_nat (length us)) (rev us)"
  have a: "announced (fresh_responce H) ?rs"
    using counted_announced [of "fresh_responce H" RespUpdates "rev us"] assms(2) by (simp add: remaining_run is_Error_def)
  have i: "outp inc s sk = incoming H ss (map (enc_Responce fresh) ?rs) @ rest" using assms(7) False by (simp add: updates_answer_def)
  show ?thesis
    using list_received [OF assms(4-6) i a, of q] False assms(3) by (auto simp flip: length_greater_0_conv)
qed

text \<open>
  C35. The updates waiting for a user reach its client: when the server has answered \<open>GetUpdates\<close> and the
  network carries the answer, in the clear or in frames, \<open>SendRequestList\<close> ends, returns exactly the
  updates that were waiting, the newest first, and has read nothing that follows them; the queue is
  empty.
\<close>

theorem updates_reach_client:
  assumes "Db_ok (db srv)" and "logged_in srv t ur" and "gu_UserToken q = AccessToken (transports srv t)"
    and "gu_DropPending q = 0" and "us = UpdatesCache srv (getUInt (ur_Id ur))" and "length us \<le> 2 ^ 31"
    and "\<forall>i\<le>length us. send_result E (nsent srv + i) = None" and "length (fresh_union E) = RESPONCE_UNION"
    and "\<forall>u \<in> set us. Update_wf u"
    and "processRequest E t (GetUpdates q) srv = (r, srv')" and "outbox srv' = outbox srv @ map (Pair t) rs"
    and "link_ok H out inc sk" and "endpoint s sk ss" and "length fresh = RESPONCE_UNION"
    and "outp inc s sk = incoming H ss (map (enc_Responce fresh) rs) @ rest"
  shows "UpdatesCache srv' (getUInt (ur_Id ur)) = [] \<and>
     (\<exists>rs' s'. Protocol_SendRequestList H sk (GetUpdates q) (remaining (fresh_responce H)) s = Some (Inr rs', s') \<and>
        length rs' = length us \<and> (\<forall>i<length us. \<exists>k. rs' ! i = RespUpdates k (rev us ! i)) \<and>
        outp inc s' sk = rest \<and>
        outp out s' sk = outp out s sk @ outgoing H ss (enc_Request (fresh_request H) (GetUpdates q)))"
proof -
  obtain n where "srv' = srv\<lparr>outbox := outbox srv @ map (Pair t) (updates_answer E us), nsent := n,
      UpdatesCache := (UpdatesCache srv)(getUInt (ur_Id ur) := [])\<rparr>"
    using GetUpdates_run [OF assms(1-5) _ assms(7)] assms(6,10) by auto
  then have rs: "rs = updates_answer E us" and q: "UpdatesCache srv' (getUInt (ur_Id ur)) = []"
    using assms(11) by (auto dest: map_injective simp: inj_on_def)
  have "outp inc s sk = incoming H ss (map (enc_Responce fresh) (updates_answer E us)) @ rest" using assms(15) rs by simp
  from updates_received [OF assms(8,9,6,12-14) this, of "GetUpdates q"] show ?thesis
    using q by (auto simp: nth_counted)
qed

lemma Proto_demo_endpoint: "endpoint (Proto_demo n bs) 5 (Some \<lparr>Enabled = True, TxKey = replicate 32 1,
    RxKey = replicate 32 1, TxCounter = n, RxCounter = n\<rparr>)"
  by (simp add: endpoint_def Proto_demo_def)

theorem updates_reach_client_witness:
  "\<exists>bs rs' s'. Protocol_SendRequestList Host_demo 5 (GetUpdates \<lparr>gu_UserToken = 70, gu_DropPending = 0,
       gu_Reserved = [0, 0, 0]\<rparr>) (remaining (fresh_responce Host_demo)) (Proto_demo 3 bs) = Some (Inr rs', s') \<and>
     length rs' = 1 \<and> (\<exists>k. rs' ! 0 = RespUpdates k (global_alert 9 ''x''))"
proof -
  let ?s = "snd (pushGlobalAlert 9 ''x'' Server_demo)" and ?ur = "Users Db_demo ! 1"
  let ?q = "\<lparr>gu_UserToken = 70, gu_DropPending = 0, gu_Reserved = [0, 0, 0]\<rparr>" and ?us = "[global_alert 9 ''x'']"
  let ?ss = "Some \<lparr>Enabled = True, TxKey = replicate 32 1, RxKey = replicate 32 1, TxCounter = 3, RxCounter = 3\<rparr>"
  let ?fresh = "zeros RESPONCE_UNION"
  let ?bs = "incoming Host_demo ?ss (map (enc_Responce ?fresh) (updates_answer Env_plain ?us)) @ []"
  have s: "?s = Server_demo\<lparr>UpdatesCache := (\<lambda>_. [])(2 := ?us)\<rparr>"
    by (simp add: pushGlobalAlert_def monad_defs pushUpdateToUser_def) (simp add: Server_demo_def)
  have id: "getUInt (ur_Id ?ur) = 2" by (simp add: Db_demo_def getUInt_def)
  have ok: "Db_ok (db ?s)" unfolding s by (simp add: Db_demo_ok)
  have p: "logged_in ?s 10 ?ur" "gu_UserToken ?q = AccessToken (transports ?s 10)"
    "gu_DropPending ?q = 0" "?us = UpdatesCache ?s (getUInt (ur_Id ?ur))"
    unfolding s id by (simp_all add: logged_in_def Db_demo_def bind_u32_def)
  have l: "length ?us \<le> 2 ^ 31" "length ?us < 2 ^ 32" "\<forall>i\<le>length ?us. send_result Env_plain (nsent ?s + i) = None"
    "length (fresh_union Env_plain) = RESPONCE_UNION" "length ?fresh = RESPONCE_UNION"
    by (simp_all add: Env_plain_def RESPONCE_UNION_def)
  have w: "\<forall>u \<in> set ?us. Update_wf u" by (simp add: global_alert_def Update_wf_def Message_wf_def Chat_wf_def User_wf_def)
  obtain srv' where srv': "processRequest Env_plain 10 (GetUpdates ?q) ?s = (Inr (), srv')"
    "outbox srv' = outbox ?s @ map (Pair 10) (updates_answer Env_plain ?us)"
    using GetUpdates_run [OF ok p l(2,3)] by fastforce
  have i: "outp snd (Proto_demo 3 ?bs) 5 = ?bs" by (rule Proto_demo_simps(2))
  show ?thesis
    using updates_reach_client [OF ok p l(1,3,4) w srv' Host_demo_link Proto_demo_endpoint l(5) i] by auto
qed

section \<open>The handshake\<close>

text \<open>The random generators and the generation of keys leave the sockets alone.\<close>

definition rng_ok :: "('k, 'w) Host \<Rightarrow> ('w \<Rightarrow> sock \<Rightarrow> byte list) \<Rightarrow> ('w \<Rightarrow> sock \<Rightarrow> byte list) \<Rightarrow> bool" where
  "rng_ok H out inc \<longleftrightarrow> (\<forall>w. out (snd (c_rand H w)) = out w \<and> inc (snd (c_rand H w)) = inc w \<and>
     out (snd (random_token H w)) = out w \<and> inc (snd (random_token H w)) = inc w \<and>
     out (snd (EVP_PKEY_keygen (ssl H) w)) = out w \<and> inc (snd (EVP_PKEY_keygen (ssl H) w)) = inc w)"

text \<open>Two states that differ in the world only, not in what the sockets carry.\<close>

definition quiet :: "('w \<Rightarrow> sock \<Rightarrow> byte list) \<Rightarrow> ('w \<Rightarrow> sock \<Rightarrow> byte list) \<Rightarrow> 'w Proto \<Rightarrow> 'w Proto \<Rightarrow> bool" where
  "quiet out inc s s' \<longleftrightarrow> outp out s' = outp out s \<and> outp inc s' = outp inc s \<and> same_rest s s' \<and> theap s' = theap s"

lemma quiet_trans: "quiet out inc s s' \<Longrightarrow> quiet out inc s' s'' \<Longrightarrow> quiet out inc s s''"
  by (simp add: quiet_def same_rest_def same_globals_def)

lemma endpoint_quiet: "quiet out inc s s' \<Longrightarrow> endpoint s' sk ss = endpoint s sk ss"
  by (simp add: endpoint_def quiet_def same_rest_def split: option.split)

lemma draw_run:
  assumes "rng_ok H out inc"
  shows "\<exists>r s'. liftnet (syscall (c_rand H)) s = (Inr r, s') \<and> quiet out inc s s'"
    and "\<exists>r s'. liftnet (syscall (random_token H)) s = (Inr r, s') \<and> quiet out inc s s'"
  using assms by (auto simp: liftnet_def syscall_def quiet_def rng_ok_def same_rest_def split: prod.split) (metis snd_conv)+

lemma keygen_run:
  assumes "x25519_ok (ssl H)" and "rng_ok H out inc"
  shows "\<exists>kp a b s'. liftnet (GenerateX25519KeyPair (ssl H)) s = (Inr kp, s') \<and> x25519_pair (ssl H) kp a b \<and> quiet out inc s s'"
proof -
  obtain kp w a b where k: "GenerateX25519KeyPair (ssl H) (net s) = (Inr kp, (net s)\<lparr>world := w\<rparr>)" "x25519_pair (ssl H) kp a b"
    using GenerateX25519KeyPair_run [OF assms(1)] by blast
  have "w = snd (EVP_PKEY_keygen (ssl H) (world (net s)))"
    using k(1) by (auto simp: GenerateX25519KeyPair_def monad_defs syscall_def dest!: arg_cong [where f = world]
        split: if_splits prod.splits option.splits)
  then show ?thesis
    using k assms(2) by (auto simp: liftnet_run quiet_def same_rest_def rng_ok_def)
qed

lemma clientHello_run:
  assumes "x25519_ok (ssl H)" and "rng_ok H out inc"
  shows "\<exists>flag tag kp a b s'. clientHello H s = (Inr (flag, tag, kp), s') \<and> x25519_pair (ssl H) kp a b \<and> quiet out inc s s'"
proof -
  note d = draw_run(1) [OF assms(2)]
  obtain r0 s0 where s0: "liftnet (syscall (c_rand H)) s = (Inr r0, s0)" "quiet out inc s s0" using d by blast
  obtain r1 s1 where s1: "liftnet (syscall (c_rand H)) s0 = (Inr r1, s1)" "quiet out inc s0 s1" using d by blast
  obtain r2 s2 where s2: "liftnet (syscall (c_rand H)) s1 = (Inr r2, s2)" "quiet out inc s1 s2" using d by blast
  obtain kp a b s3 where s3: "liftnet (GenerateX25519KeyPair (ssl H)) s2 = (Inr kp, s3)" "x25519_pair (ssl H) kp a b"
    "quiet out inc s2 s3" using keygen_run [OF assms] by blast
  show ?thesis
    using s0(1) s1(1) s2(1) s3 quiet_trans [OF s0(2) quiet_trans [OF s1(2) quiet_trans [OF s2(2) s3(3)]]]
    by (auto simp: clientHello_def bindM_def ret_def)
qed

text \<open>The transport each side ends with.\<close>

abbreviation secured :: "sock \<Rightarrow> token_t \<Rightarrow> byte list \<Rightarrow> byte list \<Rightarrow> TransportObject" where
  "secured sk token tx rx \<equiv> \<lparr>to_TransportSocket = sk, to_AccessToken = token,
     to_Secure = \<lparr>Enabled = True, TxKey = tx, RxKey = rx, TxCounter = 0, RxCounter = 0\<rparr>\<rparr>"

lemma server_run:
  assumes link: "link_ok H out inc c" and ssl: "x25519_ok (ssl H)" "hkdf_ok (ssl H)" "rng_ok H out inc"
    and acc: "sys_accept (sockets H) listener (world (net s)) = (c, w)" and e: "secureSessionBySocket s c = None"
    and kp: "x25519_pair (ssl H) kp a b" and f: "length u = REQUEST_UNION"
    and inc: "inc w c = enc_Request u (CreateHandshakeSecure flag tag (kp_PublicKey kp)) @ rest"
  shows "\<exists>s' token kp' a' b' z tx rx. handshakeOnce H listener s = (Inr (Some (next_transport s)), s') \<and>
     outp out s' c = out w c @ enc_Responce (fresh_responce H) (CreateHandshakeSecureResponce flag token tag (kp_PublicKey kp')) \<and>
     outp inc s' c = rest \<and> x25519_pair (ssl H) kp' a' b' \<and>
     DeriveSharedSecret (ssl H) (kp_PrivateKey kp') (kp_PublicKey kp) = Inr z \<and>
     DeriveDirectionalKeys (ssl H) z tag True = Inr (tx, rx) \<and>
     theap s' (next_transport s) = Some (secured c token tx rx) \<and>
     secureSessionBySocket s' c = Some (next_transport s)"
proof -
  let ?t = "next_transport s" and ?q = "CreateHandshakeSecure flag tag (kp_PublicKey kp)"
  have pub: "length (kp_PublicKey kp) = 32" using kp by (simp add: x25519_pair_def)
  then have wf: "Request_wf ?q" by (simp add: request_factories HandshakeRequest_wf_def)
  have l: "length (enc_Request u ?q) = REQUEST_SIZE" by (rule length_enc_Request [OF wf f])
  define s0 where "s0 = s\<lparr>net := (net s)\<lparr>world := w\<rparr>\<rparr>"
  have a0: "liftnet (syscall (sys_accept (sockets H) listener)) s = (Inr c, s0)"
    by (simp add: liftnet_def syscall_def acc s0_def)
  have e0: "endpoint s0 c None" and i0: "outp inc s0 c = incoming H None (enc_Request u ?q # []) @ rest"
    using e inc by (simp_all add: endpoint_def s0_def)
  have sz: "0 < length (enc_Request u ?q)" "length (enc_Request u ?q) \<le> 2 ^ 20" by (simp_all add: l REQUEST_SIZE_def)
  obtain s1 where s1: "receiveObject H c REQUEST_SIZE ''Failed to receive request.'' s0 = (Inr (enc_Request u ?q), s1)"
    "endpoint s1 c None" "same_rest s0 s1" "outp inc s1 = (outp inc s0)(c := rest)" "outp out s1 = outp out s0"
    using receiveObject_run [OF link e0 i0 sz, of "''Failed to receive request.''"] by (auto simp: l)
  have g: "Protocol_GetRequest H c s0 = (Inr ?q, s1)"
    using s1(1) dec_enc_Request [OF wf f] by (simp add: Protocol_GetRequest_def bindM_def ret_def)
  obtain token s2 where s2: "liftnet (syscall (random_token H)) s1 = (Inr token, s2)" "quiet out inc s1 s2"
    using draw_run(2) [OF ssl(3)] by blast
  obtain kp' a' b' s3 where s3: "liftnet (GenerateX25519KeyPair (ssl H)) s2 = (Inr kp', s3)" "x25519_pair (ssl H) kp' a' b'"
    "quiet out inc s2 s3" using keygen_run [OF ssl(1,3)] by blast
  obtain z where z: "DeriveSharedSecret (ssl H) (kp_PrivateKey kp') (kp_PublicKey kp) = Inr z"
    using SharedSecret_agrees [OF ssl(1) s3(2) kp] by blast
  obtain tx rx where k: "DeriveDirectionalKeys (ssl H) z tag True = Inr (tx, rx)"
    using DirectionalKeys_run [OF ssl(2)] by blast
  define s4 where "s4 = s3\<lparr>next_transport := Suc ?t, theap := (theap s3)(?t \<mapsto>
    (secured c token tx rx)\<lparr>to_Secure := \<lparr>Enabled = False, TxKey = tx, RxKey = rx, TxCounter = 0, RxCounter = 0\<rparr>\<rparr>)\<rparr>"
  let ?r = "CreateHandshakeSecureResponce flag token tag (kp_PublicKey kp')"
  have q3: "quiet out inc s1 s3" by (rule quiet_trans [OF s2(2) s3(3)])
  then have n3: "next_transport s3 = ?t" using s1(3) by (simp add: quiet_def same_rest_def s0_def)
  have "endpoint s3 c None" using s1(2) endpoint_quiet [OF q3] by blast
  then have e4: "endpoint s4 c None" by (simp add: endpoint_def s4_def)
  obtain s5 where s5: "sendObject H c (enc_Responce (fresh_responce H) ?r) ''Failed to send responce.'' s4 = (Inr (), s5)"
    "same_rest s4 s5" "outp out s5 = (outp out s4)(c := outp out s4 c @ enc_Responce (fresh_responce H) ?r)"
    "outp inc s5 = outp inc s4" "theap s5 = theap s4"
    using sendObject_run [OF link e4] by (auto simp: outgoing_def)
  define s6 where "s6 = s5\<lparr>theap := (theap s5)(?t \<mapsto> secured c token tx rx),
    secureSessionBySocket := (secureSessionBySocket s5)(c \<mapsto> ?t)\<rparr>"
  have sec: "secureHandshake H c token \<lparr>hsq_Flag = flag, hsq_Version = TELECRAP_VERSION, hsq_SecureMode = 1,
      hsq_Reserved = 0, hsq_IntegrityTag = tag, hsq_ClientPublicKey = kp_PublicKey kp\<rparr> s2 = (Inr (Some ?t), s6)"
    using s3(1) s5(1,5) z k n3
    by (simp add: secureHandshake_def bindM_def thenM_def lift_result_def ret_def new_Transport_def getsM_def modifyM_def
        set_Secure_def Protocol_SendResponce_def RegisterSecureSession_def deref_def s4_def s6_def)
  have "handshakeOnce H listener s = (Inr (Some ?t), s6)"
    using a0 g s2(1) sec pub
    by (simp add: handshakeOnce_def bindM_def catch_close_def tryM_def acceptHandshake_def CreateHandshakeSecure_def)
  then show ?thesis
    using s3(2) z k s5 s1(4,5) q3
    by (intro exI [of _ s6] exI [of _ token] exI [of _ kp'] exI [of _ a'] exI [of _ b'] exI [of _ z] exI [of _ tx] exI [of _ rx])
      (auto simp: s6_def s4_def s0_def quiet_def)
qed

lemma client_run:
  assumes link: "link_ok H out inc sk" and e: "endpoint s sk None"
    and hello: "clientHello H s = (Inr (flag, tag, kp), s0)" "quiet out inc s s0"
    and u: "length u = RESPONCE_UNION" "length (kp_PublicKey kp') = 32"
    and inc: "outp inc s sk = enc_Responce u (CreateHandshakeSecureResponce flag token tag (kp_PublicKey kp')) @ rest"
    and z: "DeriveSharedSecret (ssl H) (kp_PrivateKey kp) (kp_PublicKey kp') = Inr z"
    and k: "DeriveDirectionalKeys (ssl H) z tag False = Inr (tx, rx)"
  shows "\<exists>s'. clientHandshake H sk s = (Inr (next_transport s), s') \<and> outp inc s' sk = rest \<and>
     outp out s' sk = outp out s sk @ enc_Request (fresh_request H) (CreateHandshakeSecure flag tag (kp_PublicKey kp)) \<and>
     theap s' (next_transport s) = Some (secured sk token tx rx) \<and> secureSessionBySocket s' sk = Some (next_transport s) \<and>
     executed s'"
proof -
  let ?t = "next_transport s" and ?r = "CreateHandshakeSecureResponce flag token tag (kp_PublicKey kp')"
  let ?h = "\<lparr>hsp_Flag = flag, hsp_Token = token, hsp_SecureMode = 1, hsp_Reserved = [0, 0, 0], hsp_IntegrityTag = tag,
    hsp_ServerPublicKey = kp_PublicKey kp'\<rparr>"
  have r: "?r = HandshakeSuccessfull ?h" using u(2) by (simp add: CreateHandshakeSecureResponce_def)
  then have wf: "Responce_wf ?r" using u(2) by simp
  have e0: "endpoint s0 sk None" using e endpoint_quiet [OF hello(2)] by blast
  have i: "outp inc s0 sk = incoming H None (enc_Responce u ?r # []) @ rest" using inc hello(2) by (simp add: quiet_def)
  obtain s1 where s1: "Protocol_SendRequest H sk (CreateHandshakeSecure flag tag (kp_PublicKey kp)) s0 = (Inr ?r, s1)"
    "same_rest s0 s1" "outp inc s1 sk = rest"
    "outp out s1 sk = outp out s0 sk @ enc_Request (fresh_request H) (CreateHandshakeSecure flag tag (kp_PublicKey kp))"
    using SendRequest_run [OF link e0 wf u(1) i, of "CreateHandshakeSecure flag tag (kp_PublicKey kp)"] by (auto simp: outgoing_def)
  have n: "next_transport s1 = ?t" using hello(2) s1(2) by (simp add: quiet_def same_rest_def)
  have f: "length (fresh_responce H) = RESPONCE_UNION" using link by (simp add: link_ok_def)
  have d: "dec_HandshakeResponce (sub 4 RESPONCE_UNION (enc_Responce (fresh_responce H) ?r)) = ?h"
    using dec_HandshakeResponce_enc [of ?h] u(2) f
    by (simp add: r enc_Responce_def wire_simps overlay_def enc_HandshakeResponce_def RESPONCE_UNION_def)
  have "clientHandshake H sk s = (Inr ?t, s1\<lparr>next_transport := Suc ?t, theap := (theap s1)(?t \<mapsto> secured sk token tx rx),
      secureSessionBySocket := (secureSessionBySocket s1)(sk \<mapsto> ?t), executed := True\<rparr>)"
    using s1(1) hello(1) z k n d r
    by (simp add: clientHandshake_def bindM_def thenM_def lift_result_def ret_def new_Transport_def getsM_def modifyM_def
        set_Secure_def RegisterSecureSession_def deref_def Let_def)
  then show ?thesis using s1(3,4) hello(2) by (simp add: quiet_def)
qed

text \<open>
  C36. The handshake leaves both ends with the same session: when each side reads what the other one
  sends, the server's round of \<open>ListenHandshake\<close> and the client's \<open>Transport::Client\<close> both end with a
  registered, enabled transport, the token of one is the token of the other, what one encrypts with
  is what the other decrypts with, and the counters agree.
\<close>

theorem handshake_agrees:
  assumes "link_ok H out inc c" and "link_ok H out inc sk" and "x25519_ok (ssl H)" and "hkdf_ok (ssl H)" and "rng_ok H out inc"
    and "secureSessionBySocket s1 sk = None" and "clientHello H s1 = (Inr (flag, tag, kp), s1a)"
    and "sys_accept (sockets H) listener (world (net s2)) = (c, w)" and "secureSessionBySocket s2 c = None"
    and "inc w c = enc_Request (fresh_request H) (CreateHandshakeSecure flag tag (kp_PublicKey kp)) @ rest2"
    and "handshakeOnce H listener s2 = (r2, s2')" and "outp out s2' c = out w c @ reply"
    and "outp inc s1 sk = reply @ rest1"
  shows "\<exists>t1 t2 s1' a b. clientHandshake H sk s1 = (Inr t1, s1') \<and> r2 = Inr (Some t2) \<and>
     secureSessionBySocket s1' sk = Some t1 \<and> secureSessionBySocket s2' c = Some t2 \<and>
     theap s1' t1 = Some a \<and> theap s2' t2 = Some b \<and> to_TransportSocket a = sk \<and> to_TransportSocket b = c \<and>
     to_AccessToken a = to_AccessToken b \<and> Enabled (to_Secure a) \<and> Enabled (to_Secure b) \<and>
     TxKey (to_Secure a) = RxKey (to_Secure b) \<and> RxKey (to_Secure a) = TxKey (to_Secure b) \<and>
     length (TxKey (to_Secure a)) = 32 \<and> length (RxKey (to_Secure a)) = 32 \<and>
     TxCounter (to_Secure a) = 0 \<and> RxCounter (to_Secure a) = 0 \<and> TxCounter (to_Secure b) = 0 \<and> RxCounter (to_Secure b) = 0 \<and>
     outp inc s1' sk = rest1 \<and> outp inc s2' c = rest2"
proof -
  obtain a b where kp: "x25519_pair (ssl H) kp a b" and q: "quiet out inc s1 s1a"
    using clientHello_run [OF assms(3,5), of s1] assms(7) by auto
  have f: "length (fresh_request H) = REQUEST_UNION" "length (fresh_responce H) = RESPONCE_UNION"
    using assms(1) by (simp_all add: link_ok_def)
  obtain s' token kp' a' b' z tx rx where sv: "handshakeOnce H listener s2 = (Inr (Some (next_transport s2)), s')"
     "outp out s' c = out w c @ enc_Responce (fresh_responce H) (CreateHandshakeSecureResponce flag token tag (kp_PublicKey kp'))"
     "outp inc s' c = rest2" and kp': "x25519_pair (ssl H) kp' a' b'"
     "DeriveSharedSecret (ssl H) (kp_PrivateKey kp') (kp_PublicKey kp) = Inr z"
     "DeriveDirectionalKeys (ssl H) z tag True = Inr (tx, rx)"
     and th: "theap s' (next_transport s2) = Some (secured c token tx rx)"
     "secureSessionBySocket s' c = Some (next_transport s2)"
    using server_run [OF assms(1,3,4,5,8,9) kp f(1) assms(10)] by blast
  have z: "DeriveSharedSecret (ssl H) (kp_PrivateKey kp) (kp_PublicKey kp') = Inr z"
    using SharedSecret_agrees [OF assms(3) kp'(1) kp] kp'(2) by auto
  have k: "DeriveDirectionalKeys (ssl H) z tag False = Inr (rx, tx)" "length tx = 32" "length rx = 32"
    using DirectionalKeys_run [OF assms(4), of z tag] kp'(3) by auto
  have i: "outp inc s1 sk = enc_Responce (fresh_responce H) (CreateHandshakeSecureResponce flag token tag (kp_PublicKey kp')) @ rest1"
    using sv assms(11-13) by simp
  have e: "endpoint s1 sk None" "length (kp_PublicKey kp') = 32" using assms(6) kp'(1) by (simp_all add: endpoint_def x25519_pair_def)
  show ?thesis
    using client_run [OF assms(2) e(1) assms(7) q f(2) e(2) i z k(1)] sv th k assms(11) by fastforce
qed

text \<open>A process on the pipes, without sessions, with bytes waiting at one socket.\<close>

definition Proto_start :: "sock \<Rightarrow> byte list \<Rightarrow> pipes Proto" where
  "Proto_start sk bs = \<lparr>net = \<lparr>world = (\<lambda>_. [], (\<lambda>_. [])(sk := bs)), ServerAddress = 0, ServerPort = 7777\<rparr>,
     secureSessionBySocket = Map.empty, theap = Map.empty, next_transport = 1, executed = False\<rparr>"

lemma Host_demo_rng: "rng_ok Host_demo fst snd"
  by (simp add: rng_ok_def Host_demo_def ssl_demo_def)

theorem handshake_agrees_witness:
  "\<exists>q reply t1 t2 s1' s2' a b. clientHandshake Host_demo 5 (Proto_start 5 reply) = (Inr t1, s1') \<and>
     handshakeOnce Host_demo 3 (Proto_start 4 q) = (Inr (Some t2), s2') \<and>
     theap s1' t1 = Some a \<and> theap s2' t2 = Some b \<and> TxKey (to_Secure a) = RxKey (to_Secure b)"
proof -
  let ?kp = "\<lparr>kp_PrivateKey = replicate 32 7, kp_PublicKey = replicate 32 7\<rparr>" and ?tag = "(push_bit 32 5) XOR 5"
  have hello: "clientHello Host_demo (Proto_start 5 bs) = (Inr (5, ?tag, ?kp), Proto_start 5 bs)" for bs
    by (simp add: clientHello_def bindM_def liftnet_def syscall_def ret_def Host_demo_def ssl_demo_def
        GenerateX25519KeyPair_def getsM_def)
  let ?q = "enc_Request (fresh_request Host_demo) (CreateHandshakeSecure 5 ?tag (kp_PublicKey ?kp)) @ []"
  let ?w = "world (net (Proto_start 4 ?q))"
  have ok: "x25519_ok (ssl Host_demo)" "hkdf_ok (ssl Host_demo)" by (simp_all add: Host_demo_def ssl_demo_ok)
  have acc: "sys_accept (sockets Host_demo) 3 ?w = (4, ?w)" by (simp add: Host_demo_def pipe_system_def)
  have none: "secureSessionBySocket (Proto_start k bs) sk = None" for k bs sk by (simp add: Proto_start_def)
  have q: "snd ?w 4 = ?q" and inc: "outp snd (Proto_start 5 bs) 5 = bs @ []" for bs by (simp_all add: Proto_start_def)
  have kp: "x25519_pair (ssl Host_demo) ?kp (replicate 32 7) (replicate 32 7)"
    by (simp add: x25519_pair_def Host_demo_def ssl_demo_def)
  have f: "length (fresh_request Host_demo) = REQUEST_UNION" using Host_demo_link by (simp add: link_ok_def)
  obtain s2' r reply where s2: "handshakeOnce Host_demo 3 (Proto_start 4 ?q) = (r, s2')" "outp fst s2' 4 = fst ?w 4 @ reply"
    using server_run [OF Host_demo_link ok Host_demo_rng acc none kp f q] by blast
  show ?thesis
    using handshake_agrees [OF Host_demo_link Host_demo_link ok Host_demo_rng none hello acc none q s2 inc] s2(1) by fastforce
qed

end
