(* ===== verification/Typing.thy ===== *)
theory Typing
  imports Moderation Exchange
begin

text \<open>
  Types on the wire. A \<open>fixed_string<N>\<close> is a buffer of \<open>N + 1\<close> bytes, which the model's lists of
  characters do not say: \<open>fs_wf\<close> and the \<open>_wf\<close> predicates do. Here every value the server handles is
  shown to have its type, whatever bytes the clients send and whatever well-typed addons do, so that
  each responce fits the union it is sent in.
\<close>

section \<open>The types\<close>

definition UserInfo_wf :: "UserInfo \<Rightarrow> bool" where
  "UserInfo_wf u \<longleftrightarrow> fs_wf CHATNAME_MAXLENGTH (ui_Name u)"

definition ChatInfo_wf :: "('a ChatInfo_scheme) \<Rightarrow> bool" where
  "ChatInfo_wf c \<longleftrightarrow> fs_wf CHATNAME_MAXLENGTH (ci_Name c)"

definition ctx_wf :: "CommandContext \<Rightarrow> bool" where
  "ctx_wf ctx \<longleftrightarrow> CommitMessageRequest_wf (ctx_Request ctx) \<and> UserInfo_wf (ctx_Requestor ctx) \<and> ChatInfo_wf (ctx_Chat ctx)"

fun result_wf :: "api_result \<Rightarrow> bool" where
  "result_wf (RUser u) = UserInfo_wf u"
| "result_wf (RChat c) = ChatInfo_wf c"
| "result_wf (RMessage m) = Message_wf m"
| "result_wf (RUsers us) = list_all UserInfo_wf us"
| "result_wf (RChats cs) = list_all ChatInfo_wf cs"
| "result_wf (RMessages ms) = list_all Message_wf ms"
| "result_wf _ = True"

fun call_ctx :: "api_call \<Rightarrow> CommandContext option" where
  "call_ctx (CtxSendSystemMessage ctx _) = Some ctx"
| "call_ctx (CtxIsDirectChat ctx) = Some ctx"
| "call_ctx (CtxIsRequestorOwner ctx) = Some ctx"
| "call_ctx (CtxIsRequestorMember ctx) = Some ctx"
| "call_ctx (CtxGetMembers ctx) = Some ctx"
| "call_ctx (CtxGetMessages ctx) = Some ctx"
| "call_ctx (CtxIsUserBanned ctx _) = Some ctx"
| "call_ctx (CtxKickUser ctx _) = Some ctx"
| "call_ctx (CtxBanUser ctx _) = Some ctx"
| "call_ctx (CtxUnbanUser ctx _) = Some ctx"
| "call_ctx (CtxRenameChat ctx _) = Some ctx"
| "call_ctx (CtxIsChatOwner ctx _) = Some ctx"
| "call_ctx (CtxIsChatMember ctx _) = Some ctx"
| "call_ctx (CtxSendSystemMessageToChatId ctx _ _) = Some ctx"
| "call_ctx _ = None"

text \<open>A Lua program can only pass on the objects it got.\<close>

primrec addon_wf :: "addon \<Rightarrow> bool" where
  "addon_wf Return = True"
| "addon_wf Raise = True"
| "addon_wf (Call c k) = (pred_option ctx_wf (call_ctx c) \<and>
     (\<forall>r. (case r of Inl _ \<Rightarrow> True | Inr v \<Rightarrow> result_wf v) \<longrightarrow> addon_wf (k r)))"
| "addon_wf (RegisterCommand n f a) = ((\<forall>ctx. ctx_wf ctx \<longrightarrow> addon_wf (f ctx)) \<and> addon_wf a)"

definition well_typed :: "Server \<Rightarrow> bool" where
  "well_typed s \<longleftrightarrow> (\<forall>(t, r)\<in>set (outbox s). Responce_wf r) \<and> (\<forall>u. \<forall>x\<in>set (UpdatesCache s u). Update_wf x) \<and>
     (\<forall>(n, f)\<in>set (commands s). \<forall>ctx. ctx_wf ctx \<longrightarrow> addon_wf (f ctx))"

lemmas wf_defs = UserInfo_wf_def ChatInfo_wf_def ctx_wf_def User_wf_def Chat_wf_def Message_wf_def Update_wf_def
  ChatMemberEvent_wf_def CommitMessageRequest_wf_def

section \<open>Typed computations\<close>

definition typed :: "('s \<Rightarrow> bool) \<Rightarrow> ('a \<Rightarrow> bool) \<Rightarrow> ('s, 'e, 'a) sem \<Rightarrow> bool" where
  "typed I R m \<longleftrightarrow> triple I m (\<lambda>x s. R x \<and> I s) (\<lambda>_. I)"

named_theorems typing \<open>which computations give values of which type\<close>

lemma typed_ret [typing]: "R x \<Longrightarrow> typed I R (ret x)"
  and typed_throw [typing]: "typed I R (throw e)"
  and typed_getsM: "(\<And>s. R (f s)) \<Longrightarrow> typed I R (getsM f)"
  and typed_modifyM: "(\<And>s. I s \<Longrightarrow> I (g s)) \<Longrightarrow> typed I (\<lambda>_. True) (modifyM g)"
  by (simp_all add: typed_def triple_def monad_defs)

lemma typed_bindM [typing]: "typed I R m \<Longrightarrow> (\<And>x. R x \<Longrightarrow> typed I Q (f x)) \<Longrightarrow> typed I Q (bindM m f)"
  unfolding typed_def by (rule triple_bindM [where R = "\<lambda>x s. R x \<and> I s"]) (auto simp: triple_def)

lemma typed_thenM [typing]: "typed I (\<lambda>_. True) m \<Longrightarrow> typed I Q n \<Longrightarrow> typed I Q (thenM m n)"
  unfolding thenM_def by (rule typed_bindM)

lemma typed_tryM [typing]: "typed I R m \<Longrightarrow> (\<And>e. typed I R (h e)) \<Longrightarrow> typed I R (tryM m h)"
  unfolding typed_def triple_def
proof (intro allI impI)
  fix s assume m: "\<forall>s. I s \<longrightarrow> (case m s of (Inl e, s') \<Rightarrow> I s' | (Inr x, s') \<Rightarrow> R x \<and> I s')"
    and h: "\<And>e. \<forall>s. I s \<longrightarrow> (case h e s of (Inl e, s') \<Rightarrow> I s' | (Inr x, s') \<Rightarrow> R x \<and> I s')" and s: "I s"
  obtain r s' where r: "m s = (r, s')" by fastforce
  show "case tryM m h s of (Inl e, s') \<Rightarrow> I s' | (Inr x, s') \<Rightarrow> R x \<and> I s'"
  proof (cases r)
    case (Inl e)
    then show ?thesis using m s r h [of e, rule_format, of s'] by (fastforce simp: tryM_def)
  qed (use m s r in \<open>fastforce simp: tryM_def\<close>)
qed

lemma typed_weaken: "typed I Q m \<Longrightarrow> (\<And>x. Q x \<Longrightarrow> R x) \<Longrightarrow> typed I R m"
  unfolding typed_def by (erule triple_conseq) auto

lemma typed_cases [typing]:
  "(b \<Longrightarrow> typed I R m) \<Longrightarrow> (\<not> b \<Longrightarrow> typed I R n) \<Longrightarrow> typed I R (if b then m else n)"
  "(x = None \<Longrightarrow> typed I R m) \<Longrightarrow> (\<And>y. x = Some y \<Longrightarrow> typed I R (k y)) \<Longrightarrow>
   typed I R (case x of None \<Rightarrow> m | Some y \<Rightarrow> k y)"
  "(\<And>a b. x = Some a \<Longrightarrow> y = Some b \<Longrightarrow> typed I R (g a b)) \<Longrightarrow> typed I R n \<Longrightarrow>
   typed I R (case (x, y) of (Some a, Some b) \<Rightarrow> g a b | _ \<Rightarrow> n)"
  by (auto split: option.splits)

lemma typed_forEach [typing]: "(\<And>x. x \<in> set xs \<Longrightarrow> typed I (\<lambda>_. True) (f x)) \<Longrightarrow> typed I (\<lambda>_. True) (forEach f xs)"
  by (induction xs) (auto intro!: typing)

lemma typed_mapM: "typed I Q m \<Longrightarrow> (\<And>x. Q x \<Longrightarrow> R (f x)) \<Longrightarrow> typed I R (mapM f m)"
  unfolding mapM_def by (auto intro: typing)

lemma typed_preserves: "typed I R m \<Longrightarrow> preserves I m"
  unfolding typed_def triple_def by (intro preservesI) (simp split: prod.splits sum.splits, metis obj_sumE prod.collapse)

section \<open>The database gives typed values\<close>

lemma typed_liftdb [typing]: "typed (\<lambda>_. True) R m \<Longrightarrow> typed well_typed R (liftdb m)"
  by (auto simp: typed_def triple_def liftdb_def well_typed_def split: prod.splits sum.splits)

lemma typed_transaction [typing]: "typed (\<lambda>_. True) R m \<Longrightarrow> typed (\<lambda>_. True) R (transaction m)"
  by (auto simp: typed_def triple_def transaction_def split: prod.splits sum.splits)

lemma rows_wf: "UserInfo_wf (row_UserInfo r)" "ChatInfo_wf (row_ChatInfo c)" "UserInfo_wf (row_Member r)"
  "ChatInfo_wf \<lparr>ci_Id = i, ci_Name = fs_default CHATNAME_MAXLENGTH, ci_OwnerId = 0, dc_User1Id = u, dc_User2Id = v\<rparr>"
  by (simp_all add: wf_defs row_UserInfo_def row_ChatInfo_def row_Member_def)

lemma mapped_wf: "(\<And>r. P (f r)) \<Longrightarrow> pred_option P (map_option f x)" "(\<And>r. P (f r)) \<Longrightarrow> pred_option (P \<circ> f) x"
  "(\<And>r. P (f r)) \<Longrightarrow> list_all P (map f xs)" "(\<And>r. P (f r)) \<Longrightarrow> list_all (P \<circ> f) xs"
  by (cases x; simp)+ (simp_all add: list_all_iff)

lemma lookups_typed [typing]:
  "typed (\<lambda>_. True) (pred_option UserInfo_wf) (findUserById i)"
  "typed (\<lambda>_. True) (pred_option UserInfo_wf) (findUserByName n)"
  "typed (\<lambda>_. True) (pred_option ChatInfo_wf) (findChatById c)"
  "typed (\<lambda>_. True) (pred_option ChatInfo_wf) (findChatByName E n)"
  "typed (\<lambda>_. True) (pred_option ChatInfo_wf) (findDirectChat u v)"
  "typed (\<lambda>_. True) (list_all ChatInfo_wf) (findChatsByUser E w)"
  "typed (\<lambda>_. True) (list_all UserInfo_wf) (findMembersByChat E x)"
  unfolding findUserById_def findUserByName_def findChatById_def findChatByName_def findDirectChat_def
    findChatsByUser_def findMembersByChat_def
  by (rule typed_getsM, (auto intro!: mapped_wf simp: rows_wf split: option.split list.split)[1])+

lemma peer_typed [typing]: "typed (\<lambda>_. True) (pred_option UserInfo_wf) (findDirectChatPeer c u)"
  unfolding findDirectChatPeer_def Let_def by (rule typed_bindM [OF typed_getsM [where R = "\<lambda>_. True"]]) (rule typing | simp; fail)+

lemma row_Message_typed: "ChatInfo_wf c \<Longrightarrow> typed (\<lambda>_. True) Message_wf (row_Message c r)"
  unfolding row_Message_def by (rule typing | simp add: wf_defs)+

lemma messages_typed [typing]: "ChatInfo_wf c \<Longrightarrow> typed (\<lambda>_. True) (list_all Message_wf) (findMessagesByChat E c)"
proof -
  assume c: "ChatInfo_wf c"
  have "typed (\<lambda>_. True) (list_all Message_wf) (row_Messages c rs)" for rs
    by (induction rs) (simp; (rule typing row_Message_typed [OF c] | assumption | simp; fail)+)+
  then show ?thesis unfolding findMessagesByChat_def by (intro typed_bindM [OF typed_getsM [where R = "\<lambda>_. True"]]) auto
qed

lemma typed_any: "typed (\<lambda>_. True) (\<lambda>_. True) m"
  by (simp add: typed_def triple_def split: prod.splits sum.splits)

lemmas changes_typed [typing] = typed_any [of "isUserBannedFromChat c u"] typed_any [of "banUserInChat x w"]
  typed_any [of "unbanUserInChat c u"] typed_any [of "removeMemberFromChat c u"] typed_any [of "renameChat x n"]
  typed_any [of "joinChatMember x w"] typed_any [of "insert_Users n i"] typed_any [of "insert_Chats n i"]
  typed_any [of "insert_Messages i n j k"] typed_any [of "insert_Users_has_Chats i j"] typed_any [of "insert_DirectChats i j k"]
  for c u x w n i j k

lemma creations_typed [typing]:
  "fs_wf CHATNAME_MAXLENGTH name \<Longrightarrow> typed (\<lambda>_. True) UserInfo_wf (createUser E name pw)"
  "fs_wf CHATNAME_MAXLENGTH name \<Longrightarrow> typed (\<lambda>_. True) ChatInfo_wf (createGroupChat u name)"
  unfolding createUser_def createGroupChat_def Let_def
  by (rule typing | simp add: wf_defs; fail)+

lemma createDirectChat_typed [typing]: "typed (\<lambda>_. True) ChatInfo_wf (createDirectChat u v)"
  unfolding createDirectChat_def
  by (rule typed_bindM [OF creations_typed(2)]; (simp add: direct_chat_name_def; fail)?)
    (rule typing | simp add: wf_defs; fail)+

lemma commits_typed [typing]:
  "CommitMessageRequest_wf req \<Longrightarrow> typed (\<lambda>_. True) Message_wf (commitMessage u req)"
  "ChatInfo_wf c \<Longrightarrow> typed (\<lambda>_. True) Message_wf (commitSystemMessage c ts text)"
  unfolding commitMessage_def commitSystemMessage_def
  by (rule typing | simp add: wf_defs; fail)+

section \<open>Addons keep to their types\<close>

lemma push_typed [typing]: "Update_wf x \<Longrightarrow> typed well_typed (\<lambda>_. True) (pushUpdateToUser u x)"
  unfolding pushUpdateToUser_def by (rule typed_modifyM) (auto simp: well_typed_def)

lemma pushes_typed [typing]:
  "Update_wf x \<Longrightarrow> typed well_typed (\<lambda>_. True) (pushUpdateToChatMembersAll E c x)"
  "Update_wf x \<Longrightarrow> typed well_typed (\<lambda>_. True) (pushMessageToChatMembersExcept E c x u)"
  "Update_wf x \<Longrightarrow> typed well_typed (\<lambda>_. True) (pushToIdsExcept i x us)"
  unfolding pushUpdateToChatMembersAll_def pushMessageToChatMembersExcept_def pushToIdsExcept_def
  by (rule typing | simp; fail)+

lemma catchAll_typed [typing]: "typed I R m \<Longrightarrow> R x \<Longrightarrow> typed I R (catchAll m x)"
  unfolding catchAll_def by (rule typing | assumption)+

definition traffic :: "Server \<Rightarrow> (transport \<times> Responce) list \<times> (userid_t \<Rightarrow> Update list) \<times> (cstring \<times> (CommandContext \<Rightarrow> addon)) list" where
  "traffic s = (outbox s, UpdatesCache s, commands s)"

lemma typed_keeps: "keeps traffic m \<Longrightarrow> typed well_typed (\<lambda>_. True) m"
  by (auto simp: keeps_def typed_def triple_def well_typed_def traffic_def split: prod.splits sum.splits) (metis snd_conv)+

lemma state_module_traffic:
  "keeps traffic (stateSet k v)" "keeps traffic (stateGet k)" "keeps traffic (stateHas k)" "keeps traffic (stateDel k)"
  "keeps traffic stateClear" "keeps traffic (stateKeys E)"
  unfolding stateSet_def stateGet_def stateHas_def stateDel_def stateClear_def stateKeys_def
  by (intro frames keeps_modifyM; simp add: traffic_def)+

lemmas own_typed [typing] = state_module_traffic [THEN typed_keeps]
  addon_own_keeps [where f = traffic, unfolded traffic_def, simplified, folded traffic_def, THEN typed_keeps]

lemma results_typed:
  "typed I (\<lambda>_. True) m1 \<Longrightarrow> typed I result_wf (mapM RBool m1)"
  "typed I (\<lambda>_. True) m2 \<Longrightarrow> typed I result_wf (mapM (\<lambda>_. RNone) m2)"
  "typed I (\<lambda>_. True) m3 \<Longrightarrow> typed I result_wf (mapM RObject m3)"
  "typed I (\<lambda>_. True) m4 \<Longrightarrow> typed I result_wf (mapM RKeys m4)"
  "typed I (\<lambda>_. True) m5 \<Longrightarrow> typed I result_wf (mapM RTime m5)"
  "typed I (list_all UserInfo_wf) m6 \<Longrightarrow> typed I result_wf (mapM RUsers m6)"
  "typed I (list_all ChatInfo_wf) m7 \<Longrightarrow> typed I result_wf (mapM RChats m7)"
  "typed I (list_all Message_wf) m8 \<Longrightarrow> typed I result_wf (mapM RMessages m8)"
  "typed I (pred_option UserInfo_wf) m9 \<Longrightarrow> typed I result_wf (mapM (opt_result RUser) m9)"
  "typed I (pred_option ChatInfo_wf) ma \<Longrightarrow> typed I result_wf (mapM (opt_result RChat) ma)"
  "typed I (pred_option Message_wf) mb \<Longrightarrow> typed I result_wf (mapM (opt_result RMessage) mb)"
  by (erule typed_mapM; force simp: opt_result_def split: option.split)+

text \<open>Every call gives an object of its type back.\<close>

lemma api_typed: "pred_option ctx_wf (call_ctx c) \<Longrightarrow> typed well_typed result_wf (api E c)"
  by (cases c; simp only: api.simps api_defs call_ctx.simps option.pred_inject ctx_wf_def;
      (rule results_typed typing | simp add: ChatInfo_wf_def UserInfo_wf_def Update_wf_def; fail)+)

lemma run_addon_typed: "addon_wf a \<Longrightarrow> typed well_typed (\<lambda>_. True) (run_addon E a)"
proof (induction a)
  case (Call c k)
  show ?case unfolding typed_def triple_def
  proof (intro allI impI)
    fix s assume s: "well_typed s"
    obtain r s' where r: "api E c s = (r, s')" by fastforce
    then have "case r of Inl _ \<Rightarrow> well_typed s' | Inr v \<Rightarrow> result_wf v \<and> well_typed s'"
      using api_typed [of c E] Call.prems s by (fastforce simp: typed_def triple_def split: sum.splits)
    then show "case run_addon E (Call c k) s of (Inl e, s') \<Rightarrow> well_typed s' | (Inr x, s') \<Rightarrow> True \<and> well_typed s'"
      using Call.IH [OF rangeI, of r] Call.prems r s by (cases r) (auto simp: typed_def triple_def split: prod.splits sum.splits)
  qed
next
  case (RegisterCommand n f a)
  have "set (omap_put n f cs) \<subseteq> insert (n, f) (set cs)" for cs
    by (induction n f cs rule: omap_put.induct) auto
  then have "typed well_typed (\<lambda>_. True) (apiRegisterCommand n f)"
    unfolding apiRegisterCommand_def using RegisterCommand.prems by (intro typed_modifyM) (fastforce simp: well_typed_def)
  then show ?case using RegisterCommand by (auto intro: typing)
qed (simp_all add: typing)

lemma ExecuteCommand_typed [typing]:
  assumes "CommitMessageRequest_wf req" and "UserInfo_wf u" and "ChatInfo_wf c"
  shows "typed well_typed (\<lambda>_. True) (ExecuteCommand E cmd args t req u c)"
  unfolding typed_def triple_def
proof (intro allI impI)
  fix s assume s: "well_typed s"
  show "case ExecuteCommand E cmd args t req u c s of (Inl e, s') \<Rightarrow> well_typed s' | (Inr x, s') \<Rightarrow> True \<and> well_typed s'"
  proof (cases "map_of (commands s) cmd")
    case (Some f)
    let ?a = "f \<lparr>ctx_Socket = t, ctx_Request = req, ctx_Requestor = u, ctx_Chat = c, ctx_Cmd = cmd, ctx_Args = args\<rparr>"
    have "addon_wf ?a" using s map_of_SomeD [OF Some] assms by (auto simp: well_typed_def ctx_wf_def)
    from run_addon_typed [OF this, of E] s Some show ?thesis
      by (auto simp: typed_def triple_def ExecuteCommand_def monad_defs split: prod.splits sum.splits)
  qed (use s in \<open>simp add: ExecuteCommand_def monad_defs\<close>)
qed

section \<open>Handlers send typed responces\<close>

lemma SendResponce_typed [typing]: "Responce_wf r \<Longrightarrow> typed well_typed (\<lambda>_. True) (SendResponce E t r)"
  by (auto simp: typed_def triple_def SendResponce_def well_typed_def split: option.splits)

lemma fresh_wf:
  assumes "length (fresh_union E) = RESPONCE_UNION"
  shows "Responce_wf (CreateError (fresh_union E) m code)" "Responce_wf (CreateGetAddonCommand (fresh_union E) n k)"
    "Update_wf (dec_Update (sub 4 676 (fresh_union E)))" "Message_wf (dec_Message (sub 4 668 (fresh_union E)))"
    "User_wf (dec_User (sub 4 69 (fresh_union E)))" "Chat_wf (dec_Chat (sub 4 70 (fresh_union E)))"
  using assms dec_Update_wf [of "sub 4 676 (fresh_union E)"]
  by (simp_all add: CreateError_def CreateGetAddonCommand_def fs_wf_def maxlength_defs length_sub RESPONCE_UNION_def
      Message_wf_def User_wf_def Chat_wf_def dec_Message_def dec_User_def dec_Chat_def chars_of_def fs_assign_def)

lemma SendError_typed [typing]:
  "length (fresh_union E) = RESPONCE_UNION \<Longrightarrow> typed well_typed (\<lambda>_. True) (SendError E t m code)"
  unfolding SendError_def by (simp add: SendResponce_typed fresh_wf)

lemma sendReversed_typed [typing]:
  "(\<And>k x. x \<in> set xs \<Longrightarrow> typed well_typed Responce_wf (mk k x)) \<Longrightarrow> typed well_typed (\<lambda>_. True) (sendReversed E t mk xs)"
proof -
  have "(\<And>k x. x \<in> set ys \<Longrightarrow> typed well_typed Responce_wf (mk k x)) \<Longrightarrow> typed well_typed (\<lambda>_. True) (sendLoop E t mk n ys)" for ys n
    by (induction ys arbitrary: n) (auto intro!: typing typed_bindM [where R = Responce_wf])
  from this [of "rev xs"] show "(\<And>k x. x \<in> set xs \<Longrightarrow> typed well_typed Responce_wf (mk k x)) \<Longrightarrow> ?thesis"
    unfolding sendReversed_def by simp
qed

lemma readers_typed [typing]:
  "typed I (\<lambda>_. True) (findUserBySocket t)" "typed I (\<lambda>_. True) (findSocketByUser u)" "typed I (\<lambda>_. True) (getsM transports)"
  "typed I (\<lambda>_. True) (getsM (\<lambda>s. AccessToken (transports s t)))" "typed I (\<lambda>_. True) ListRegisteredCommands"
  "typed I (\<lambda>_. True) (stoulM x)"
  unfolding findUserBySocket_def findSocketByUser_def ListRegisteredCommands_def stoulM_def
  by (simp_all add: typed_getsM) (cases "stoul x"; simp add: typing)

lemma sessions_typed [typing]:
  "typed well_typed (\<lambda>_. True) (assignUserInfo t u)" "typed well_typed (\<lambda>_. True) (designUserInfo t)"
  "typed well_typed (\<lambda>_. True) (clearUpdates u)"
  unfolding assignUserInfo_def designUserInfo_def clearUpdates_def by (rule typed_modifyM, auto simp: well_typed_def)+

lemma member_typed [typing]: "typed well_typed (\<lambda>_. True) (isUserInChat E u c)"
  unfolding isUserInChat_def by (rule typing | simp; fail)+

lemma guards_typed [typing]:
  "length (fresh_union E) = RESPONCE_UNION \<Longrightarrow> typed well_typed (\<lambda>_. True) m \<Longrightarrow> typed well_typed (\<lambda>_. True) (checkToken E t tok code m)"
  "length (fresh_union E) = RESPONCE_UNION \<Longrightarrow> (\<And>u. UserInfo_wf u \<Longrightarrow> typed well_typed (\<lambda>_. True) (k u)) \<Longrightarrow>
   typed well_typed (\<lambda>_. True) (requireUser E t code k)"
  "length (fresh_union E) = RESPONCE_UNION \<Longrightarrow> (\<And>c. ChatInfo_wf c \<Longrightarrow> typed well_typed (\<lambda>_. True) (g c)) \<Longrightarrow>
   typed well_typed (\<lambda>_. True) (requireChat E t i message g)"
  unfolding checkToken_def requireUser_def requireChat_def by (rule typing | simp; fail)+

lemma directChatAs_wf: "UserInfo_wf u \<Longrightarrow> ChatInfo_wf (directChatAs u c)"
  by (simp add: directChatAs_def wf_defs)

lemma queries_typed [typing]:
  "typed well_typed (pred_option UserInfo_wf) (resolveUserToken tok)"
  "UserInfo_wf v \<Longrightarrow> typed well_typed (pred_option ChatInfo_wf) (openDirectChat u v)"
  "typed well_typed (pred_option ChatInfo_wf) (findChatByQuery E u q)"
proof -
  show opened: "typed well_typed (pred_option ChatInfo_wf) (openDirectChat u v)" if "UserInfo_wf v" for u v
    using that unfolding openDirectChat_def by - (rule typing | simp add: directChatAs_wf; fail)+
  show "typed well_typed (pred_option UserInfo_wf) (resolveUserToken tok)"
    unfolding resolveUserToken_def Let_def by (rule typing | simp; fail)+
  show "typed well_typed (pred_option ChatInfo_wf) (findChatByQuery E u q)"
    unfolding findChatByQuery_def by (rule typing opened | simp; fail)+
qed

lemma events_wf:
  "ChatInfo_wf c \<Longrightarrow> UserInfo_wf u \<Longrightarrow> Update_wf \<lparr>upd_Id = i, upd_body = UserKicked (memberEvent c u)\<rparr>"
  "ChatInfo_wf c \<Longrightarrow> UserInfo_wf u \<Longrightarrow> Update_wf \<lparr>upd_Id = i, upd_body = UserBanned (memberEvent c u)\<rparr>"
  "ChatInfo_wf c \<Longrightarrow> UserInfo_wf u \<Longrightarrow> Update_wf \<lparr>upd_Id = i, upd_body = UserUnbanned (memberEvent c u)\<rparr>"
  "ChatInfo_wf c \<Longrightarrow> Update_wf \<lparr>upd_Id = i, upd_body = ChatRenamed ((chatModelGroup x)\<lparr>chat_Name := ci_Name c\<rparr>)\<rparr>"
  "Message_wf m \<Longrightarrow> Update_wf \<lparr>upd_Id = i, upd_body = MessageSent m\<rparr>"
  by (simp_all add: memberEvent_def chatModelGroup_def wf_defs)

lemmas send_wf = events_wf responce_factories fresh_wf CreateCommitMessageResponce_def

lemma slash_typed [typing]:
  assumes "length (fresh_union E) = RESPONCE_UNION" and "ChatInfo_wf c" and "UserInfo_wf v"
  shows "typed well_typed (\<lambda>_. True) (slashRename E t u r c x)" "typed well_typed (\<lambda>_. True) (slashUnban E t u r c v)"
    "typed well_typed (\<lambda>_. True) (slashKick E t u r c v)" "typed well_typed (\<lambda>_. True) (slashBan E t u r c v)"
  using assms unfolding slashRename_def slashUnban_def slashKick_def slashBan_def CreateCommitMessageResponce_def
  by - (rule typing | simp add: events_wf; fail)+

lemma slashTarget_typed [typing]:
  assumes "length (fresh_union E) = RESPONCE_UNION" and "\<And>u. UserInfo_wf u \<Longrightarrow> typed well_typed (\<lambda>_. True) (k u)"
  shows "typed well_typed (\<lambda>_. True) (slashTarget E t rest k)"
proof -
  have tok: "typed well_typed (pred_option (pred_option UserInfo_wf)) (tryM (mapM Some (resolveUserToken rest))
      (\<lambda>e. if e = undefined_behaviour then throw e else ret None))"
    by (rule typing typed_mapM [OF queries_typed(1)] | simp; fail)+
  show ?thesis using assms unfolding slashTarget_def by - (rule typed_bindM [OF tok] typing | assumption | simp; fail)+
qed

lemma command_typed [typing]:
  assumes "length (fresh_union E) = RESPONCE_UNION" and "UserInfo_wf u" and "CommitMessageRequest_wf r" and "ChatInfo_wf c"
  shows "typed well_typed (\<lambda>_. True) (tryHandleSlashCommand E t u r c)"
  using assms unfolding tryHandleSlashCommand_def Let_def by - (rule typing | assumption | simp; fail)+

lemma listed_typed [typing]: "ChatInfo_wf c \<Longrightarrow> typed well_typed Chat_wf (listedChat u c)"
  unfolding listedChat_def by (rule typing | force simp: wf_defs split: option.split)+

lemma waiting_typed: "typed well_typed (list_all Update_wf) (getsM (\<lambda>s. UpdatesCache s u))"
  by (simp add: typed_def triple_def getsM_def well_typed_def list_all_iff)

lemma made_wf:
  "Responce_wf (CreateLoginResponce v) = User_wf v" "Responce_wf (CreateGetChatInfoResponce x) = Chat_wf x"
  "Responce_wf (CreateCreateChat x) = Chat_wf x" "Responce_wf (CreateJoinChat x) = Chat_wf x"
  "Responce_wf (CreateCommitMessageResponce m) = Message_wf m"
  "User_wf \<lparr>user_Id = i, user_Name = ui_Name u\<rparr> = UserInfo_wf u"
  "Chat_wf \<lparr>chat_Id = i, chat_Name = ci_Name c, chat_Type = y\<rparr> = ChatInfo_wf c" "User_wf User_default"
  by (simp_all add: responce_factories User_wf_def UserInfo_wf_def Chat_wf_def ChatInfo_wf_def User_default_def)

lemma updates_typed [typing]: "length (fresh_union E) = RESPONCE_UNION \<Longrightarrow> typed well_typed (\<lambda>_. True) (handleGetUpdates E t gu u)"
  unfolding handleGetUpdates_def  Let_def
  by (rule typed_bindM [OF waiting_typed] typing | assumption | simp add: made_wf fresh_wf events_wf list_all_iff; fail)+

lemma chatinfo_typed [typing]: "length (fresh_union E) = RESPONCE_UNION \<Longrightarrow> typed well_typed (\<lambda>_. True) (handleGetChatInfo E t q u)"
  unfolding handleGetChatInfo_def  Let_def
  by (rule typing | assumption | simp add: made_wf fresh_wf events_wf list_all_iff; fail)+

lemma history_typed [typing]: "length (fresh_union E) = RESPONCE_UNION \<Longrightarrow> typed well_typed (\<lambda>_. True) (handleGetChatHistory E t ci)"
  unfolding handleGetChatHistory_def  Let_def
  by (rule typing | assumption | simp add: made_wf fresh_wf events_wf list_all_iff; fail)+

lemma members_typed [typing]: "length (fresh_union E) = RESPONCE_UNION \<Longrightarrow> typed well_typed (\<lambda>_. True) (handleGetChatMembers E t ci u)"
  unfolding handleGetChatMembers_def  Let_def
  by (rule typing | assumption | simp add: made_wf fresh_wf events_wf list_all_iff; fail)+

lemma list_typed [typing]: "length (fresh_union E) = RESPONCE_UNION \<Longrightarrow> typed well_typed (\<lambda>_. True) (handleGetChatList E t u)"
  unfolding handleGetChatList_def  Let_def
  by (rule typed_mapM [OF listed_typed] typing | assumption | simp add: made_wf fresh_wf events_wf list_all_iff; fail)+

lemma addons_typed [typing]: "length (fresh_union E) = RESPONCE_UNION \<Longrightarrow> typed well_typed (\<lambda>_. True) (handleGetAddonCommands E t)"
  unfolding handleGetAddonCommands_def  Let_def
  by (rule typing | assumption | simp add: made_wf fresh_wf events_wf list_all_iff; fail)+

lemma spawn_typed [typing]: "length (fresh_union E) = RESPONCE_UNION \<Longrightarrow> NameRequest_wf q \<Longrightarrow> typed well_typed (\<lambda>_. True) (handleSpawnGroupChat E t q u)"
  unfolding handleSpawnGroupChat_def NameRequest_wf_def Let_def
  by (rule typing | assumption | simp add: made_wf fresh_wf events_wf list_all_iff; fail)+

lemma join_typed [typing]: "length (fresh_union E) = RESPONCE_UNION \<Longrightarrow> typed well_typed (\<lambda>_. True) (handleJoinGroupChat E t q u)"
  unfolding handleJoinGroupChat_def  Let_def
  by (rule typing | assumption | simp add: made_wf fresh_wf events_wf list_all_iff; fail)+

lemma commit_typed [typing]: "length (fresh_union E) = RESPONCE_UNION \<Longrightarrow> UserInfo_wf u \<Longrightarrow> CommitMessageRequest_wf m \<Longrightarrow> typed well_typed (\<lambda>_. True) (handleCommitMessage E t m u)"
  unfolding handleCommitMessage_def  Let_def
  by (rule typing | assumption | simp add: made_wf fresh_wf events_wf list_all_iff; fail)+

lemma login_typed [typing]: "length (fresh_union E) = RESPONCE_UNION \<Longrightarrow> typed well_typed (\<lambda>_. True) (handleLogin E t a)"
  unfolding handleLogin_def  Let_def
  by (rule typing | assumption | simp add: made_wf fresh_wf events_wf list_all_iff; fail)+

lemma register_typed [typing]: "length (fresh_union E) = RESPONCE_UNION \<Longrightarrow> AuthRequest_wf a \<Longrightarrow> typed well_typed (\<lambda>_. True) (handleRegister E t a)"
  unfolding handleRegister_def AuthRequest_wf_def Let_def
  by (rule typing | assumption | simp add: made_wf fresh_wf events_wf list_all_iff; fail)+

lemma processRequest_typed:
  assumes "length (fresh_union E) = RESPONCE_UNION" and "Request_wf r"
  shows "preserves well_typed (processRequest E t r)"
proof -
  have "typed well_typed (\<lambda>_. True) (dispatch E t r)"
    using assms by (cases r; simp) (rule typing | assumption)+
  then have "typed well_typed (\<lambda>_. True) (processRequest E t r)"
    unfolding processRequest_def using assms(1) by - (rule typing TrueI | assumption)+
  then show ?thesis by (rule typed_preserves)
qed

section \<open>Whatever is sent and received\<close>

lemma other_request: "t \<notin> {0, 1, 2, 3, 4, 5, 6, 7, 8, 9, 10, 11} \<Longrightarrow> 11 < (t :: u32)"
  by unat_arith

lemma dec_Request_wf: "length bs = REQUEST_SIZE \<Longrightarrow> Request_wf (dec_Request bs)"
  by (auto simp: dec_Request_def dec_RequestUnion_def Request_wf_defs dec_HandshakeRequest_def dec_AuthRequest_def
      dec_GetUpdatesRequest_def dec_NameRequest_def dec_ChatIdRequest_def dec_CommitMessageRequest_def length_sub
      chars_of_def REQUEST_SIZE_def REQUEST_UNION_def other_request)

text \<open>
  The requests of the clients as they come from the network: for each connection that sends one, the
  image of the packed struct, of which every byte is the client's choice.
\<close>

definition received_requests :: "(transport \<times> byte list) list \<Rightarrow> (transport \<times> Request) list" where
  "received_requests = map (\<lambda>(t, bs). (t, dec_Request bs))"



text \<open>The operator's alerts and the loading of addons keep to the types as well.\<close>

lemma operator_typed:
  "preserves well_typed (pushGlobalAlert now text)"
  "\<forall>a\<in>set scripts. addon_wf a \<Longrightarrow> preserves well_typed (AddonInit E scripts)"
proof -
  have a: "Update_wf (global_alert now text)" by (simp add: global_alert_def wf_defs)
  have "typed well_typed (\<lambda>_. True) (getsM ClientUsers)" by (rule typed_getsM) simp
  then have "typed well_typed (\<lambda>_. True) (pushGlobalAlert now text)"
    unfolding pushGlobalAlert_def using a by - (rule typing TrueI | assumption)+
  then show "preserves well_typed (pushGlobalAlert now text)" by (rule typed_preserves)
  have "typed well_typed (\<lambda>_. True) (modifyM (\<lambda>s. s\<lparr>commands := [], addonState := []\<rparr>))"
    by (rule typed_modifyM) (simp add: well_typed_def)
  then show "preserves well_typed (AddonInit E scripts)" if "\<forall>a\<in>set scripts. addon_wf a"
    unfolding AddonInit_def using that by (intro typed_preserves) (auto intro!: typed_thenM typed_forEach run_addon_typed typed_ret)
qed

end
