(* ===== verification/ServerProgram.thy ===== *)
theory ServerProgram
  imports ServerTerminal ServerConfig Typing
begin

text \<open>
  \<open>main\<close> of \<open>TeleCrap.Server/src/TeleCrap.Server.cpp\<close>: the components in the order the program starts
  them, what the process ends with, and the signal handler. The threads it starts are in \<open>ServerMain\<close>;
  here nobody is connected while it runs.
\<close>

section \<open>The process\<close>

record 'w ServerProgram =
  sp_config :: Config
  sp_terminal :: Terminal
  sp_proto :: "'w Proto"
  global_handshakeTransport :: "nat option"

type_synonym ('w, 'a) spM = "('w ServerProgram, exn, 'a) sem"

text \<open>
  What the program runs on: the environments of the components, and what SQLite opens under a name, a
  database or an exception.
\<close>

record ('k, 'w) ServerSystem =
  ss_env :: ServerEnv
  ss_host :: "('k, 'w) Host"
  ss_tty :: Tty
  sqlite_open :: "cstring \<Rightarrow> exn + Db"
  ss_now :: timestamp_t
  ss_scripts :: "addon list"

abbreviation sp_server :: "'w ServerProgram \<Rightarrow> Server" where
  "sp_server p \<equiv> server (console (sp_terminal p))"

definition in_config :: "'a cfgM \<Rightarrow> ('w, 'a) spM" where
  "in_config m p = (case m (sp_config p) of (r, c) \<Rightarrow> (r, p\<lparr>sp_config := c\<rparr>))"

definition set_server :: "Server \<Rightarrow> 'w ServerProgram \<Rightarrow> 'w ServerProgram" where
  "set_server s p = p\<lparr>sp_terminal := (sp_terminal p)\<lparr>console := (console (sp_terminal p))\<lparr>server := s\<rparr>\<rparr>\<rparr>"

lemma set_server_proto [simp]: "sp_proto (set_server s p) = sp_proto p"
  by (simp add: set_server_def)

definition in_server :: "'a srvM \<Rightarrow> ('w, 'a) spM" where
  "in_server m p = (case m (sp_server p) of (r, s) \<Rightarrow> (r, set_server s p))"

definition in_proto :: "('w, 'a) protoM \<Rightarrow> ('w, 'a) spM" where
  "in_proto m p = (case m (sp_proto p) of (r, s) \<Rightarrow> (r, p\<lparr>sp_proto := s\<rparr>))"

section \<open>Starting\<close>

definition open_database :: "('k, 'w) ServerSystem \<Rightarrow> cstring \<Rightarrow> ('w, unit) spM" where
  "open_database S name = (case sqlite_open S name of
     Inl e \<Rightarrow> throw e | Inr d \<Rightarrow> in_server (modifyM (\<lambda>s. s\<lparr>db := d\<rparr>)))"

text \<open>Up to the start of the listener's thread; \<open>Transport::Init\<close> does nothing on POSIX.\<close>

definition server_startup :: "('k, 'w) ServerSystem \<Rightarrow> cstring list \<Rightarrow> ('w, nat) spM" where
  "server_startup S args =
     thenM (if length args > 1 then in_config (parseArgs args) else ret ())
     (thenM (in_config configLoad)
     (bindM (getsM (\<lambda>p. Settings (sp_config p))) (\<lambda>settings.
       thenM (in_proto (modifyM (\<lambda>s. s\<lparr>net := (net s)\<lparr>ServerPort := ListenPort settings\<rparr>\<rparr>)))
       (thenM (in_server start)
       (thenM (thenM (open_database S (DbConnection settings)) (in_server (liftdb Init)))
       (thenM (in_server (AddonInit (ss_env S) (ss_scripts S)))
       (in_proto (Transport_Server (ss_host S)))))))))"

section \<open>Ending\<close>

text \<open>
  How the process ends: with a status, in undefined behaviour, or not yet: the console waits for input.
  The handler is installed for \<open>SIGINT\<close> and \<open>SIGABRT\<close>, and \<open>main\<close> catches \<open>std::runtime_error\<close>: any
  other exception ends in \<open>std::terminate\<close>, hence \<open>abort\<close>, hence the handler. The transport it deletes is
  the global variable, which \<open>main\<close> hides behind a local one.
\<close>

datatype ending = Exit nat | Undefined | Waiting

definition sigintHandler :: "('k, 'w) ServerSystem \<Rightarrow> 'w ServerProgram \<Rightarrow> ending \<times> 'w ServerProgram" where
  "sigintHandler S p =
     (let p = snd (in_server stop p) in
      case global_handshakeTransport p of
        None \<Rightarrow> (Exit 0, p)
      | Some t \<Rightarrow> (Exit 0, snd (in_proto (delete_Transport (ss_host S) t) p)))"

definition server_caught :: "('k, 'w) ServerSystem \<Rightarrow> exn \<Rightarrow> 'w ServerProgram \<Rightarrow> ending \<times> 'w ServerProgram" where
  "server_caught S e p =
     (if e = undefined_behaviour then (Undefined, p)
      else if is_runtime_error e then (Exit 1, p)
      else sigintHandler S p)"

definition server_main :: "('k, 'w) ServerSystem \<Rightarrow> cstring list \<Rightarrow> 'w ServerProgram \<Rightarrow> (ending \<times> 'w ServerProgram) option" where
  "server_main S args p =
     (case server_startup S args p of
        (Inl e, p1) \<Rightarrow> Some (server_caught S e p1)
      | (Inr t, p1) \<Rightarrow>
          (case ServerCLI_run (ss_tty S) (ss_env S) (ss_now S) (ss_scripts S) (sp_terminal p1) of
             None \<Rightarrow> None
           | Some (Inl e, term) \<Rightarrow> Some (server_caught S e (p1\<lparr>sp_terminal := term\<rparr>))
           | Some (Inr _, term) \<Rightarrow>
               (let p2 = p1\<lparr>sp_terminal := term\<rparr> in
                if cli_running (console term) then Some (Waiting, p2)
                else Some (case in_proto (delete_Transport (ss_host S) t) p2 of
                    (Inr _, p3) \<Rightarrow> (Exit 0, p3) | (Inl e, p3) \<Rightarrow> server_caught S e p3))))"

section \<open>What a start establishes\<close>

text \<open>The database that is opened: none yet, or one that an earlier run left.\<close>

definition usable_db :: "Db \<Rightarrow> bool" where
  "usable_db d \<longleftrightarrow> d = Db_empty \<or> Db_ok d \<and> ids_small d \<and> user_exists d 1"

lemma Init_usable:
  assumes "usable_db d"
  shows "fst (Init d) = Inr ()" and "Db_ok (snd (Init d))" and "ids_small (snd (Init d))"
    and "user_exists (snd (Init d)) 1" and "user_exists d 1 \<Longrightarrow> snd (Init d) = d"
proof -
  have "Init d = (Inr (), if d = Db_empty then Db_fresh else d)"
  proof (cases "user_exists d 1")
    case True
    then have "List.find (\<lambda>r. ur_Id r = 1) (Users d) \<noteq> None" by (auto simp: user_exists_def find_None_iff)
    moreover have "d \<noteq> Db_empty" using True by (auto simp: user_exists_def Db_empty_def)
    ultimately show ?thesis by (auto simp: Init_def findUserById_def bindM_def getsM_def ret_def SYSTEM_FROMID_def bind_u32_def)
  next
    case False
    then have "d = Db_empty" using assms by (auto simp: usable_db_def)
    then show ?thesis
      by (simp add: Db_fresh_def Init_def findUserById_def Db_empty_def transaction_def insert_Users_def sqlite_max_def
          bindM_def getsM_def ret_def thenM_def SYSTEM_FROMID_def bind_u32_def)
  qed
  then show "fst (Init d) = Inr ()" "Db_ok (snd (Init d))" "ids_small (snd (Init d))"
    "user_exists (snd (Init d)) 1" "user_exists d 1 \<Longrightarrow> snd (Init d) = d"
    using assms Db_fresh_ok by (auto simp: usable_db_def Db_fresh_tables ids_small_def user_exists_def Db_empty_def)
qed

lemma addons_keep_active: "keeps IsActive (run_addon E a)"
proof (rule run_addon_keeps)
  have p: "keeps IsActive (pushUpdateToUser u x)" for u x
    unfolding pushUpdateToUser_def by (rule keeps_modifyM) simp
  have "keeps IsActive (stateSet k v)" "keeps IsActive (stateGet k)" "keeps IsActive (stateHas k)" "keeps IsActive (stateDel k)"
    "keeps IsActive stateClear" "keeps IsActive (stateKeys E)" for k v
    unfolding stateSet_def stateGet_def stateHas_def stateDel_def stateClear_def stateKeys_def
    by (intro frames keeps_modifyM; simp)+
  then show "keeps IsActive (api E c)" for c
    by (cases c; simp only: api.simps api_defs pushUpdateToChatMembersAll_def;
        intro frames p addon_own_keeps [where f = IsActive, simplified]; assumption?)
qed simp

lemma AddonInit_runs:
  assumes "DbEnv_ok (dbenv E)" and "\<forall>a\<in>set scripts. addon_wf a" and "srv_ok s" and "well_typed s"
  shows "\<exists>s'. AddonInit E scripts s = (Inr (), s') \<and> srv_ok s' \<and> well_typed s' \<and> IsActive s' = IsActive s \<and>
     ClientUsers s' = ClientUsers s"
proof -
  have "\<exists>s'. forEach (\<lambda>script. thenM (run_addon E script) (ret ())) scripts s = (Inr (), s') \<and> srv_ok s' \<and>
      IsActive s' = IsActive s \<and> ClientUsers s' = ClientUsers s" if "srv_ok s" for s
    using that
  proof (induction scripts arbitrary: s)
    case (Cons a as)
    obtain b s1 where s1: "run_addon E a s = (Inr b, s1)" "srv_ok s1" using run_addon_total [OF assms(1) Cons.prems] by blast
    moreover have "IsActive s1 = IsActive s" using keepsD [OF addons_keep_active, of E a s] s1(1) by simp
    moreover have "ClientUsers s1 = ClientUsers s"
      using keepsD [OF run_addon_keeps [where f = ClientUsers and E = E and a = a], of s] api_keeps(3) s1(1) by simp
    ultimately show ?case using Cons.IH [OF s1(2)] by (simp add: thenM_def bindM_def ret_def)
  qed (simp add: ret_def)
  from this [of "s\<lparr>commands := [], addonState := []\<rparr>"] obtain s' where "AddonInit E scripts s = (Inr (), s')" "srv_ok s'"
    "IsActive s' = IsActive s" "ClientUsers s' = ClientUsers s"
    using assms(3) by (auto simp: AddonInit_def thenM_def bindM_def modifyM_def srv_ok_def)
  then show ?thesis using preservesD [OF operator_typed(2) [OF assms(2)] assms(4), of E] by auto
qed

lemma OpenHandshake_port: "OpenHandshake K N = (Inr sk, N') \<Longrightarrow> ServerPort N' = ServerPort N"
  by (auto simp: OpenHandshake_def bindM_def syscall_def getsM_def ret_def throw_def thenM_def
      split: prod.splits if_splits sum.splits)

lemma server_startup_run:
  assumes "args \<noteq> []" and "''-p'' \<notin> set (tl args)" and "configLoad (sp_config p) = (Inr (), cfg)"
    and "sqlite_open S (DbConnection (Settings cfg)) = Inr d" and "usable_db d"
    and "OpenHandshake (sockets (ss_host S)) ((net (sp_proto p))\<lparr>ServerPort := ListenPort (Settings cfg)\<rparr>) = (Inr sk, N)"
    and "DbEnv_ok (dbenv (ss_env S))" and "\<forall>a\<in>set (ss_scripts S). addon_wf a" and "well_typed (sp_server p)"
  shows "\<exists>s'. server_startup S args p =
      (Inr (next_transport (sp_proto p)), set_server s' (p\<lparr>sp_config := cfg,
        sp_proto := snd (new_Transport sk 0 ((sp_proto p)\<lparr>net := N\<rparr>))\<rparr>)) \<and>
     srv_ok s' \<and> well_typed s' \<and> IsActive s' \<and> ClientUsers s' = ClientUsers (sp_server p)"
proof -
  have a: "parseArgs args c = (Inr (), c)" for c
  proof -
    have "1 \<le> length args" using assms(1) by (cases args) auto
    then show ?thesis using parseArgsLoop_run [of 1 args "length args" False c] assms(2)
      by (auto simp: parseArgs_def bindM_def drop_Suc ret_def)
  qed
  let ?s = "(sp_server p)\<lparr>IsActive := True, db := snd (Init d)\<rparr>"
  have "well_typed ?s" using assms(9) by (simp add: well_typed_def)
  moreover have "srv_ok ?s" using Init_usable [OF assms(5)] by (simp add: srv_ok_def)
  ultimately obtain s' where s': "AddonInit (ss_env S) (ss_scripts S) ?s = (Inr (), s')" "srv_ok s'" "well_typed s'" "IsActive s'"
    "ClientUsers s' = ClientUsers (sp_server p)"
    using AddonInit_runs [OF assms(7,8), of ?s] by auto
  then show ?thesis
    using a assms(3,4,6) Init_usable(1) [OF assms(5)]
    by (intro exI [of _ s'])
      (simp add: server_startup_def thenM_def bindM_def ret_def in_config_def getsM_def in_proto_def modifyM_def in_server_def
        start_def open_database_def set_server_def liftdb_run Transport_Server_def liftnet_def new_Transport_def)
qed


definition System_demo :: "(byte list, pipes) ServerSystem" where
  "System_demo = \<lparr>ss_env = Env_plain, ss_host = Host_demo, ss_tty = \<lparr>tcgetattr_ok = True, tcsetattr_ok = (\<lambda>_. True)\<rparr>,
     sqlite_open = (\<lambda>_. Inr Db_empty), ss_now = 9, ss_scripts = []\<rparr>"

definition Program_demo :: "pipes ServerProgram" where
  "Program_demo = \<lparr>sp_config = Config_demo, sp_terminal = (Terminal_demo [])\<lparr>console := Console_demo\<lparr>server :=
     Server_demo\<lparr>ClientUsers := []\<rparr>\<rparr>\<rparr>, sp_proto = Proto_start 4 [], global_handshakeTransport = None\<rparr>"

lemma Config_demo_loads: "\<exists>cfg. configLoad Config_demo = (Inr (), cfg) \<and> ListenPort (Settings cfg) = 7777"
  by (simp add: configLoad_def INIFile_read_def Config_demo_def configSave_def INIFile_generate_def monad_defs) (simp add: CONFIG_FILE_def)


text \<open>
  An exception that is no \<open>runtime_error\<close> ends the process through \<open>abort\<close> and the handler, with the
  status of success: here a port that is no number, on the command line.
\<close>

theorem bad_port_reports_success:
  assumes "stol v = Inl e" and "e = invalid_argument \<or> e = out_of_range" and "global_handshakeTransport p = None"
  shows "\<exists>p'. server_main S [prog, ''-p'', v] p = Some (Exit 0, p') \<and> sp_config p' = sp_config p \<and>
     sp_proto p' = sp_proto p \<and> sp_server p' = (sp_server p)\<lparr>IsActive := False\<rparr>"
proof -
  have "parseArgs [prog, ''-p'', v] c = (Inl e, c)" for c
    by (simp add: parseArgs_def bindM_def) (subst parseArgsLoop.simps, simp add: argv_def assms(1) throw_def)
  then have "server_startup S [prog, ''-p'', v] p = (Inl e, p)"
    by (simp add: server_startup_def thenM_def bindM_def in_config_def)
  then show ?thesis
    using assms(2,3) by (auto simp: server_main_def server_caught_def sigintHandler_def in_server_def stop_def modifyM_def set_server_def)
qed

text \<open>
  From such a start the program goes on to the console and ends as the console does: with status 0 after
  the operator's halt, still waiting when there is no more input, or in undefined behaviour after a line
  of blanks only.
\<close>

theorem server_main_ends:
  assumes "args \<noteq> []" and "''-p'' \<notin> set (tl args)" and "configLoad (sp_config p) = (Inr (), cfg)"
    and "sqlite_open S (DbConnection (Settings cfg)) = Inr d" and "usable_db d"
    and "OpenHandshake (sockets (ss_host S)) ((net (sp_proto p))\<lparr>ServerPort := ListenPort (Settings cfg)\<rparr>) = (Inr sk, N)"
    and "DbEnv_ok (dbenv (ss_env S))" and "\<forall>a\<in>set (ss_scripts S). addon_wf a" and "well_typed (sp_server p)"
    and "cli_ok (console (sp_terminal p))"
  shows "\<exists>ending p'. server_main S args p = Some (ending, p') \<and>
     (case ending of
        Exit status \<Rightarrow> status = 0 \<and> \<not> cli_running (console (sp_terminal p'))
      | Undefined \<Rightarrow> blank_entered (console (sp_terminal p'))
      | Waiting \<Rightarrow> stdin (sp_terminal p') = [])"
proof -
  let ?t = "next_transport (sp_proto p)" and ?q = "snd (new_Transport sk 0 ((sp_proto p)\<lparr>net := N\<rparr>))"
  obtain s' where s': "srv_ok s'"
    and start: "server_startup S args p = (Inr ?t, set_server s' (p\<lparr>sp_config := cfg, sp_proto := ?q\<rparr>))"
    using server_startup_run [OF assms(1-9)] by auto
  let ?p = "set_server s' (p\<lparr>sp_config := cfg, sp_proto := ?q\<rparr>)"
  obtain ts t1 where t1: "enableRaw (ss_tty S) (sp_terminal ?p) = (ts, t1)" by fastforce
  have "console t1 = console (sp_terminal ?p)" using t1 by (auto simp: enableRaw_def set_mode_def split: if_splits)
  then have "console_ok (console t1)" using s' assms(10) by (simp add: set_server_def console_ok_def cli_ok_def)
  then obtain r t2 where r: "ServerCLI_loop (ss_env S) (ss_now S) (ss_scripts S) t1 = Some (r, t2)"
    "case r of Inr _ \<Rightarrow> \<not> cli_running (console t2) \<or> stdin t2 = [] | Inl e \<Rightarrow> e = undefined_behaviour \<and> blank_entered (console t2)"
    using ServerCLI_loop_ends [OF assms(7), of t1 "ss_now S" "ss_scripts S"] by (fastforce split: sum.splits)
  have d: "console (snd (disableRaw Y ts t)) = console t" for Y ts t
    by (simp add: disableRaw_def set_mode_def split: option.split)
  have del: "\<exists>q'. delete_Transport H ?t ?q = (Inr (), q')" for H
    by (simp add: delete_Transport_def deref_def UnregisterSecureSession_def new_Transport_def bindM_def thenM_def getsM_def
        modifyM_def ret_def liftnet_def Close_def split: option.split prod.split)
  show ?thesis
    using start t1 r d del [of "ss_host S"]
    by (cases r) (auto simp: server_main_def ServerCLI_run_def server_caught_def in_proto_def Let_def)
qed

end
