(* ===== verification/MemoryCache.thy ===== *)
theory MemoryCache
  imports Models
begin

text \<open>
  \<open>TeleCrap.Client/src/MemoryCache.cpp\<close>: the client's cache of chats. A \<open>ChatMemory*\<close> is an address
  in a heap; address \<open>0\<close> is the static placeholder of the user interface. The mutex is not modelled.
\<close>

section \<open>The operations\<close>

record ChatMemory =
  mem_ChatInfo :: Chat
  mem_Members :: "User list"
  mem_Messages :: "Message list"
  mem_MessagesLoaded :: bool

record Cache =
  chatsCache :: "chatid_t \<rightharpoonup> nat"
  memories :: "nat \<rightharpoonup> ChatMemory"
  next_memory :: nat

type_synonym 'a cacheM = "(Cache, exn, 'a) sem"

definition memory_at :: "nat \<Rightarrow> ChatMemory cacheM" where
  "memory_at p = bindM (getsM (\<lambda>s. memories s p)) (\<lambda>m. case m of None \<Rightarrow> throw undefined_behaviour | Some x \<Rightarrow> ret x)"

definition set_memory :: "nat \<Rightarrow> (ChatMemory \<Rightarrow> ChatMemory) \<Rightarrow> unit cacheM" where
  "set_memory p f = bindM (memory_at p) (\<lambda>m. modifyM (\<lambda>s. s\<lparr>memories := (memories s)(p \<mapsto> f m)\<rparr>))"

definition getChatMemory :: "chatid_t \<Rightarrow> nat option cacheM" where
  "getChatMemory chatId = getsM (\<lambda>s. chatsCache s chatId)"

definition createChatMemory :: "Chat \<Rightarrow> nat cacheM" where
  "createChatMemory chat =
     bindM (getsM next_memory) (\<lambda>chatMemory.
       thenM (modifyM (\<lambda>s. s\<lparr>next_memory := Suc chatMemory,
           memories := (memories s)(chatMemory \<mapsto> \<lparr>mem_ChatInfo = chat, mem_Members = [], mem_Messages = [],
             mem_MessagesLoaded = False\<rparr>),
           chatsCache := (chatsCache s)(chat_Id chat \<mapsto> chatMemory)\<rparr>))
         (ret chatMemory))"

definition removeChatMemory :: "chatid_t \<Rightarrow> unit cacheM" where
  "removeChatMemory chatId =
     bindM (getChatMemory chatId) (\<lambda>chatOpt. case chatOpt of None \<Rightarrow> ret ()
       | Some p \<Rightarrow> thenM (modifyM (\<lambda>s. s\<lparr>chatsCache := (chatsCache s)(chatId := None)\<rparr>))
           (bindM (memory_at p) (\<lambda>_. modifyM (\<lambda>s. s\<lparr>memories := (memories s)(p := None)\<rparr>))))"

definition with_chat :: "chatid_t \<Rightarrow> (ChatMemory \<Rightarrow> ChatMemory) \<Rightarrow> unit cacheM" where
  "with_chat chatId f = bindM (getChatMemory chatId) (\<lambda>chatOpt. case chatOpt of None \<Rightarrow> ret () | Some p \<Rightarrow> set_memory p f)"

definition addMemberToChat :: "chatid_t \<Rightarrow> User \<Rightarrow> unit cacheM" where
  "addMemberToChat chatId user = with_chat chatId (\<lambda>m. m\<lparr>mem_Members := mem_Members m @ [user]\<rparr>)"

text \<open>
  \<open>members.erase(std::remove_if(...))\<close> erases the one element at the new end: undefined if no member
  matches; if several do, the others past the new end keep the values they had.
\<close>

definition erase_removed :: "userid_t \<Rightarrow> User list \<Rightarrow> User list" where
  "erase_removed userId members =
     (let kept = filter (\<lambda>user. user_Id user \<noteq> userId) members in kept @ drop (Suc (length kept)) members)"

definition cache_removeMemberFromChat :: "chatid_t \<Rightarrow> userid_t \<Rightarrow> unit cacheM" where
  "cache_removeMemberFromChat chatId userId =
     bindM (getChatMemory chatId) (\<lambda>chatOpt. case chatOpt of None \<Rightarrow> ret ()
       | Some p \<Rightarrow> bindM (memory_at p) (\<lambda>m.
           if \<forall>user\<in>set (mem_Members m). user_Id user \<noteq> userId then throw undefined_behaviour
           else set_memory p (\<lambda>m. m\<lparr>mem_Members := erase_removed userId (mem_Members m)\<rparr>)))"

definition renameChatInCache :: "chatid_t \<Rightarrow> fixed_string \<Rightarrow> unit cacheM" where
  "renameChatInCache chatId newName =
     with_chat chatId (\<lambda>m. m\<lparr>mem_ChatInfo := (mem_ChatInfo m)\<lparr>chat_Name := newName\<rparr>\<rparr>)"

definition store_message :: "Message \<Rightarrow> bool \<Rightarrow> Message list \<Rightarrow> Message list" where
  "store_message message addLast messages =
     (if List.find (\<lambda>storedMsg. msg_Id message = msg_Id storedMsg) messages \<noteq> None then messages
      else if addLast then messages @ [message] else message # messages)"

definition storeMessageToChat :: "chatid_t \<Rightarrow> Message \<Rightarrow> bool \<Rightarrow> unit cacheM" where
  "storeMessageToChat chatId message addLast =
     with_chat chatId (\<lambda>m. m\<lparr>mem_Messages := store_message message addLast (mem_Messages m)\<rparr>)"

definition appendMessageToChat :: "chatid_t \<Rightarrow> Message \<Rightarrow> unit cacheM" where
  "appendMessageToChat chatId message = with_chat chatId (\<lambda>m. m\<lparr>mem_Messages := mem_Messages m @ [message]\<rparr>)"

section \<open>The invariant\<close>

text \<open>
  Every cached chat has its own live memory, which carries the id it is found under and is not the
  placeholder; the placeholder is always there; nothing is allocated beyond \<open>next_memory\<close>.
\<close>

definition cache_ok :: "Cache \<Rightarrow> bool" where
  "cache_ok s \<longleftrightarrow> 0 < next_memory s \<and> memories s 0 \<noteq> None \<and> (\<forall>p\<ge>next_memory s. memories s p = None) \<and>
     (\<forall>i p. chatsCache s i = Some p \<longrightarrow> p \<noteq> 0 \<and> (\<exists>m. memories s p = Some m \<and> chat_Id (mem_ChatInfo m) = i))"

text \<open>Two ids never share a memory: it carries the id.\<close>

lemma cache_inj: "cache_ok s \<Longrightarrow> chatsCache s i = Some p \<Longrightarrow> chatsCache s j = Some p \<Longrightarrow> i = j"
  unfolding cache_ok_def by (metis option.inject)

lemma cacheD:
  assumes "cache_ok s" and "chatsCache s i = Some p"
  shows "p \<noteq> 0" "\<exists>m. memories s p = Some m \<and> chat_Id (mem_ChatInfo m) = i" "p < next_memory s"
  using assms unfolding cache_ok_def by (auto, metis leI option.distinct(1))

lemma getChatMemory_run [simp]: "getChatMemory i s = (Inr (chatsCache s i), s)"
  by (simp add: getChatMemory_def getsM_def)

lemma with_chat_run:
  assumes "cache_ok s" and "\<And>m. chat_Id (mem_ChatInfo (f m)) = chat_Id (mem_ChatInfo m)"
  shows "\<exists>s'. with_chat i f s = (Inr (), s') \<and> cache_ok s' \<and> chatsCache s' = chatsCache s \<and> next_memory s' = next_memory s \<and>
     memories s' = (case chatsCache s i of None \<Rightarrow> memories s | Some p \<Rightarrow> (memories s)(p := map_option f (memories s p)))"
proof (cases "chatsCache s i")
  case (Some p)
  then obtain m where m: "memories s p = Some m" using cacheD(2) [OF assms(1)] by blast
  have "with_chat i f s = (Inr (), s\<lparr>memories := (memories s)(p \<mapsto> f m)\<rparr>)"
    by (simp add: with_chat_def set_memory_def memory_at_def bindM_def getsM_def modifyM_def ret_def Some m)
  moreover have "cache_ok (s\<lparr>memories := (memories s)(p \<mapsto> f m)\<rparr>)"
    using assms m cacheD(3) [OF assms(1) Some] unfolding cache_ok_def by (auto, metis option.inject)
  ultimately show ?thesis by (simp add: Some m)
qed (use assms in \<open>simp add: with_chat_def bindM_def ret_def\<close>)

lemma createChatMemory_run:
  assumes "cache_ok s"
  shows "\<exists>s'. createChatMemory c s = (Inr (next_memory s), s') \<and> cache_ok s' \<and> next_memory s' = Suc (next_memory s) \<and>
     chatsCache s' = (chatsCache s)(chat_Id c \<mapsto> next_memory s) \<and> memories s' = (memories s)(next_memory s \<mapsto>
       \<lparr>mem_ChatInfo = c, mem_Members = [], mem_Messages = [], mem_MessagesLoaded = False\<rparr>)"
  using assms cacheD(3) [OF assms]
  by (auto simp: createChatMemory_def bindM_def thenM_def getsM_def modifyM_def ret_def cache_ok_def)

lemma removeChatMemory_run:
  assumes "cache_ok s"
  shows "\<exists>s'. removeChatMemory i s = (Inr (), s') \<and> cache_ok s' \<and> next_memory s' = next_memory s \<and>
     chatsCache s' = (chatsCache s)(i := None) \<and> memories s' = (case chatsCache s i of None \<Rightarrow> memories s | Some p \<Rightarrow> (memories s)(p := None))"
proof (cases "chatsCache s i")
  case (Some p)
  then obtain m where m: "memories s p = Some m" "p \<noteq> 0" using cacheD(1,2) [OF assms] by blast
  moreover have "chatsCache s j \<noteq> Some p" if "j \<noteq> i" for j using cache_inj [OF assms] Some that by blast
  ultimately show ?thesis
    using assms Some
    by (auto simp: removeChatMemory_def memory_at_def bindM_def thenM_def getsM_def modifyM_def ret_def cache_ok_def)
qed (use assms in \<open>auto simp: removeChatMemory_def bindM_def ret_def fun_upd_idem\<close>)

section \<open>Duplicates\<close>

lemma store_message_new: "msg_Id m \<notin> msg_Id ` set ms \<Longrightarrow> store_message m b ms = (if b then ms @ [m] else m # ms)"
  by (auto simp: store_message_def find_Some_iff2 find_None_iff)

lemma store_message_old: "msg_Id m \<in> msg_Id ` set ms \<Longrightarrow> store_message m b ms = ms"
  by (auto simp: store_message_def find_None_iff)

text \<open>A history that comes newest first and is stored at the front is in order.\<close>

lemma store_history:
  "distinct (map msg_Id ms @ map msg_Id old) \<Longrightarrow> fold (\<lambda>m. store_message m False) ms old = rev ms @ old"
  by (induction ms arbitrary: old) (auto simp: store_message_new)

lemma store_at_end:
  "distinct (map msg_Id old @ map msg_Id ms) \<Longrightarrow> fold (\<lambda>m. store_message m True) ms old = old @ ms"
  by (induction ms arbitrary: old) (auto simp: store_message_new)

end
