(* ===== verification/Blocking.thy ===== *)
theory Blocking
  imports Models
begin

text \<open>
  Computations that may wait for ever: \<open>None\<close> is not coming back, otherwise a result and the state as
  in \<open>Effects\<close>. \<open>psafe I\<close>: from a state with \<open>I\<close> the computation does not run into undefined behaviour,
  and if it comes back \<open>I\<close> holds.
\<close>

type_synonym ('s, 'a) pM = "'s \<Rightarrow> ((exn + 'a) \<times> 's) option"

definition plift :: "('s, exn, 'a) sem \<Rightarrow> ('s, 'a) pM" where
  "plift m s = Some (m s)"

definition pbind :: "('s, 'a) pM \<Rightarrow> ('a \<Rightarrow> ('s, 'b) pM) \<Rightarrow> ('s, 'b) pM" where
  "pbind m f s = (case m s of None \<Rightarrow> None | Some (Inl e, s') \<Rightarrow> Some (Inl e, s') | Some (Inr x, s') \<Rightarrow> f x s')"

definition pthen :: "('s, 'a) pM \<Rightarrow> ('s, 'b) pM \<Rightarrow> ('s, 'b) pM" where
  "pthen m n = pbind m (\<lambda>_. n)"

definition ptry :: "('s, 'a) pM \<Rightarrow> (exn \<Rightarrow> ('s, 'a) pM) \<Rightarrow> ('s, 'a) pM" where
  "ptry m h s = (case m s of Some (Inl e, s') \<Rightarrow> h e s' | r \<Rightarrow> r)"

abbreviation pret :: "'a \<Rightarrow> ('s, 'a) pM" where "pret x \<equiv> plift (ret x)"

text \<open>\<open>catch (...)\<close>: every exception; undefined behaviour is none.\<close>

definition pcatchAll :: "('s, 'a) pM \<Rightarrow> ('s, 'a) pM \<Rightarrow> ('s, 'a) pM" where
  "pcatchAll m n = ptry m (\<lambda>e. if e = undefined_behaviour then plift (throw e) else n)"

section \<open>Safety\<close>

definition psafe :: "('s \<Rightarrow> bool) \<Rightarrow> ('s, 'a) pM \<Rightarrow> bool" where
  "psafe I m \<longleftrightarrow> (\<forall>s r s'. I s \<longrightarrow> m s = Some (r, s') \<longrightarrow> r \<noteq> Inl undefined_behaviour \<and> I s')"

lemma psafeD: "psafe I m \<Longrightarrow> I s \<Longrightarrow> m s = Some (r, s') \<Longrightarrow> r \<noteq> Inl undefined_behaviour \<and> I s'"
  by (simp add: psafe_def)

lemma psafeI: "(\<And>s r s'. I s \<Longrightarrow> m s = Some (r, s') \<Longrightarrow> r \<noteq> Inl undefined_behaviour \<and> I s') \<Longrightarrow> psafe I m"
  by (simp add: psafe_def)

named_theorems psafes \<open>blocking computations without undefined behaviour\<close>

lemma psafe_plift [psafes]: "safe I m \<Longrightarrow> psafe I (plift m)"
  by (auto simp: psafe_def safe_def plift_def split_beta)

lemma psafe_pbind [psafes]: "psafe I m \<Longrightarrow> (\<And>x. psafe I (f x)) \<Longrightarrow> psafe I (pbind m f)"
proof (rule psafeI)
  fix s r s' assume m: "psafe I m" and f: "\<And>x. psafe I (f x)" and s: "I s" "pbind m f s = Some (r, s')"
  then obtain r1 s1 where 1: "m s = Some (r1, s1)" by (auto simp: pbind_def split: option.splits)
  note psafeD [OF m s(1) 1]
  then show "r \<noteq> Inl undefined_behaviour \<and> I s'" using s(2) 1 f [THEN psafeD] by (cases r1) (auto simp: pbind_def)
qed

lemma psafe_pthen [psafes]: "psafe I m \<Longrightarrow> psafe I n \<Longrightarrow> psafe I (pthen m n)"
  by (simp add: pthen_def psafe_pbind)

lemma psafe_ptry [psafes]:
  "psafe I m \<Longrightarrow> (\<And>e. e \<noteq> undefined_behaviour \<Longrightarrow> psafe I (h e)) \<Longrightarrow> psafe I (ptry m h)"
proof (rule psafeI)
  fix s r s' assume m: "psafe I m" and h: "\<And>e. e \<noteq> undefined_behaviour \<Longrightarrow> psafe I (h e)"
    and s: "I s" "ptry m h s = Some (r, s')"
  then obtain r1 s1 where 1: "m s = Some (r1, s1)" by (auto simp: ptry_def split: option.splits)
  note psafeD [OF m s(1) 1]
  then show "r \<noteq> Inl undefined_behaviour \<and> I s'" using s(2) 1 h [THEN psafeD] by (cases r1) (auto simp: ptry_def)
qed

lemma psafe_pcatchAll [psafes]: "psafe I m \<Longrightarrow> psafe I n \<Longrightarrow> psafe I (pcatchAll m n)"
  unfolding pcatchAll_def by (intro psafes) auto

lemma psafe_if [psafes]: "(b \<Longrightarrow> psafe I m) \<Longrightarrow> (\<not> b \<Longrightarrow> psafe I n) \<Longrightarrow> psafe I (if b then m else n)"
  by simp

lemma psafe_option [psafes]:
  "(x = None \<Longrightarrow> psafe I m) \<Longrightarrow> (\<And>y. x = Some y \<Longrightarrow> psafe I (f y)) \<Longrightarrow> psafe I (case x of None \<Rightarrow> m | Some y \<Rightarrow> f y)"
  by (cases x) simp_all

lemma safe_modifyM: "(\<And>s. I s \<Longrightarrow> I (f s)) \<Longrightarrow> safe I (modifyM f)"
  by (simp add: safe_def modifyM_def)

section \<open>Pre- and postconditions\<close>

definition pvalid :: "('s \<Rightarrow> bool) \<Rightarrow> ('s, 'a) pM \<Rightarrow> ('a \<Rightarrow> 's \<Rightarrow> bool) \<Rightarrow> (exn \<Rightarrow> 's \<Rightarrow> bool) \<Rightarrow> bool" where
  "pvalid P m Q E \<longleftrightarrow> (\<forall>s r s'. P s \<longrightarrow> m s = Some (r, s') \<longrightarrow> (case r of Inl e \<Rightarrow> E e s' | Inr x \<Rightarrow> Q x s'))"

lemma pvalidD: "pvalid P m Q E \<Longrightarrow> P s \<Longrightarrow> m s = Some (r, s') \<Longrightarrow> (case r of Inl e \<Rightarrow> E e s' | Inr x \<Rightarrow> Q x s')"
  by (simp add: pvalid_def)

lemma pvalid_psafe: "psafe I m \<Longrightarrow> pvalid I m (\<lambda>_. I) (\<lambda>e s. e \<noteq> undefined_behaviour \<and> I s)"
  unfolding pvalid_def psafe_def by (auto split: sum.split)

lemma psafe_pvalid: "pvalid I m (\<lambda>_. I) (\<lambda>e s. e \<noteq> undefined_behaviour \<and> I s) \<Longrightarrow> psafe I m"
  unfolding pvalid_def psafe_def by (fastforce split: sum.splits)

lemma pvalid_plift: "triple P m Q E \<Longrightarrow> pvalid P (plift m) Q E"
  unfolding pvalid_def triple_def plift_def by (auto split: sum.splits prod.splits)

lemma pvalid_pbind:
  assumes "pvalid P m R E" and "\<And>x. pvalid (R x) (f x) Q E"
  shows "pvalid P (pbind m f) Q E"
  unfolding pvalid_def
proof (intro allI impI)
  fix s r s' assume s: "P s" "pbind m f s = Some (r, s')"
  then obtain r1 s1 where 1: "m s = Some (r1, s1)" by (auto simp: pbind_def split: option.splits)
  note pvalidD [OF assms(1) s(1) 1]
  then show "case r of Inl e \<Rightarrow> E e s' | Inr x \<Rightarrow> Q x s'"
    using s(2) 1 pvalidD [OF assms(2)] by (cases r1) (auto simp: pbind_def)
qed

lemma pvalid_ptry:
  assumes "pvalid P m Q R" and "\<And>e. pvalid (R e) (h e) Q E"
  shows "pvalid P (ptry m h) Q E"
  unfolding pvalid_def
proof (intro allI impI)
  fix s r s' assume s: "P s" "ptry m h s = Some (r, s')"
  then obtain r1 s1 where 1: "m s = Some (r1, s1)" by (auto simp: ptry_def split: option.splits)
  note pvalidD [OF assms(1) s(1) 1]
  then show "case r of Inl e \<Rightarrow> E e s' | Inr x \<Rightarrow> Q x s'"
    using s(2) 1 pvalidD [OF assms(2)] by (cases r1) (auto simp: ptry_def)
qed

lemma pvalid_weaken:
  "pvalid P m Q E \<Longrightarrow> (\<And>s. P' s \<Longrightarrow> P s) \<Longrightarrow> (\<And>x s. Q x s \<Longrightarrow> Q' x s) \<Longrightarrow> (\<And>e s. E e s \<Longrightarrow> E' e s) \<Longrightarrow> pvalid P' m Q' E'"
  unfolding pvalid_def by (fastforce split: sum.splits)

end
