(* ===== verification/TerminalUI.thy ===== *)
theory TerminalUI
  imports Exchange LineEditor MemoryCache Blocking "HOL-Library.AList"
begin

text \<open>
  \<open>TeleCrap.Client/src/TerminalUI.cpp\<close>: the state of the client's user interface, its keys and its
  commands, over the cache of chats and the protocol. The drawing routine has its body commented out
  in the source, so drawing does nothing. The mutex is not modelled: each operation is one step.
\<close>

section \<open>Texts\<close>

definition txt_load_error :: cstring where
  "txt_load_error = encoded [
     1054, 1096, 1080, 1073, 1082, 1072, 32, 1079, 1072, 1075, 1088, 1091, 1079, 1082, 1080, 58, 32]"

definition txt_login_first :: cstring where
  "txt_login_first = encoded [
     1042, 1086, 1081, 1076, 1080, 1090, 1077, 58, 32, 47, 108, 111, 103, 105, 110]"

definition txt_choose_chat :: cstring where
  "txt_choose_chat = encoded [
     1042, 1099, 1073, 1077, 1088, 1080, 1090, 1077, 32, 1095, 1072, 1090, 58, 32, 47, 99, 104, 97,
     116]"

definition txt_failed :: cstring where
  "txt_failed = encoded [
     1054, 1096, 1080, 1073, 1082, 1072, 33, 32]"

definition txt_error :: cstring where
  "txt_error = encoded [
     1054, 1096, 1080, 1073, 1082, 1072, 58, 32]"

definition txt_welcome :: cstring where
  "txt_welcome = encoded [
     1044, 1086, 1073, 1088, 1086, 32, 1087, 1086, 1078, 1072, 1083, 1086, 1074, 1072, 1090, 1100,
     44, 32]"

definition txt_renamed :: cstring where
  "txt_renamed = encoded [
     1063, 1072, 1090, 32, 1087, 1077, 1088, 1077, 1080, 1084, 1077, 1085, 1086, 1074, 1072, 1085,
     32, 1074, 32]"

definition txt_user :: cstring where
  "txt_user = encoded [
     1055, 1086, 1083, 1100, 1079, 1086, 1074, 1072, 1090, 1077, 1083, 1100, 32, 64]"

definition txt_kicked :: cstring where
  "txt_kicked = encoded [
     32, 1080, 1089, 1082, 1083, 1102, 1095, 1077, 1085, 32, 1080, 1079, 32, 1095, 1072, 1090, 1072]"

definition txt_banned :: cstring where
  "txt_banned = encoded [
     32, 1079, 1072, 1073, 1072, 1085, 1077, 1085, 32, 1074, 32, 1095, 1072, 1090, 1077]"

definition txt_unbanned :: cstring where
  "txt_unbanned = encoded [
     32, 1088, 1072, 1079, 1073, 1072, 1085, 1077, 1085, 32, 1074, 32, 1095, 1072, 1090, 1077]"

definition txt_help :: cstring where
  "txt_help = encoded [
     1044, 1086, 1089, 1090, 1091, 1087, 1085, 1099, 1077, 32, 1082, 1086, 1084, 1072, 1085, 1076,
     1099, 58, 32, 47, 114, 101, 103, 105, 115, 116, 101, 114, 44, 32, 47, 108, 111, 103, 105, 110,
     44, 32, 47, 108, 111, 103, 111, 117, 116, 44, 32, 47, 99, 104, 97, 116, 44, 32, 47, 99, 104,
     97, 116, 115, 44, 32, 47, 109, 101, 109, 98, 101, 114, 115, 44, 32, 47, 99, 114, 101, 97, 116,
     101, 44, 32, 47, 106, 111, 105, 110, 44, 32, 47, 114, 101, 102, 114, 101, 115, 104, 44, 32, 47,
     99, 108, 101, 97, 114, 44, 32, 47, 101, 120, 105, 116]"

definition txt_help_keys :: cstring where
  "txt_help_keys = encoded [
     1042, 32, 1095, 1072, 1090, 1077, 58, 32, 8593, 8595, 32, 8212, 32, 1087, 1088, 1086, 1082,
     1088, 1091, 1090, 1082, 1072, 32, 1080, 1089, 1090, 1086, 1088, 1080, 1080, 32, 1089, 1086,
     1086, 1073, 1097, 1077, 1085, 1080, 1081, 44, 32, 83, 104, 105, 102, 116, 43, 8593, 8595, 32,
     8212, 32, 1080, 1089, 1090, 1086, 1088, 1080, 1103, 32, 1074, 1074, 1077, 1076, 1105, 1085,
     1085, 1099, 1093, 32, 1082, 1086, 1084, 1072, 1085, 1076, 46]"

definition txt_usage :: cstring where
  "txt_usage = encoded [
     1048, 1089, 1087, 1086, 1083, 1100, 1079, 1086, 1074, 1072, 1085, 1080, 1077, 58, 32]"

definition txt_unauthorized :: cstring where
  "txt_unauthorized = encoded [
     1053, 1077, 1072, 1074, 1090, 1086, 1088, 1080, 1079, 1086, 1074, 1072, 1085, 33]"

definition txt_login_and_choose :: cstring where
  "txt_login_and_choose = encoded [
     1042, 1086, 1081, 1076, 1080, 1090, 1077, 32, 1080, 32, 1074, 1099, 1073, 1077, 1088, 1080,
     1090, 1077, 32, 1095, 1072, 1090]"

definition txt_name :: cstring where
  "txt_name = encoded [
     32, 91, 1085, 1072, 1079, 1074, 1072, 1085, 1080, 1077, 93]"

definition txt_refresh_error :: cstring where
  "txt_refresh_error = encoded [
     1054, 1096, 1080, 1073, 1082, 1072, 32, 1086, 1073, 1085, 1086, 1074, 1083, 1077, 1085, 1080,
     1103, 58, 32]"

definition txt_joined :: cstring where
  "txt_joined = encoded [
     32, 1087, 1088, 1080, 1089, 1086, 1077, 1076, 1080, 1085, 1080, 1083, 1089, 1103, 32, 1082, 32,
     1095, 1072, 1090, 1091]"

section \<open>State\<close>

datatype UiMode = ModeChat | ModeChatList

record 'w UI =
  proto :: "'w Proto"
  cache :: Cache
  activeTransport :: "nat option"
  currentActiveChat :: "nat option"
  currentLoggedInUser :: "User option"
  isApplicationRunning :: bool
  userInputBuffer :: cstring
  messageScrollOffset :: int
  lastMaximumMessageRows :: int
  lastUnreadBadgeChatId :: chatid_t
  unreadMessageCountByChatId :: "(chatid_t \<times> u32) list"
  unreadChatNamesByChatId :: "chatid_t \<rightharpoonup> cstring"
  currentUiMode :: UiMode
  cachedChatList :: "Chat list"
  selectedChatListIndex :: int
  cachedAddonCommands :: "cstring list"
  areAddonCommandsLoaded :: bool
  commandHistory :: "cstring list"
  commandHistoryIndex :: int
  commandHistoryDraft :: cstring

text \<open>
  The environment: the host of the protocol, the first bucket of an unordered map with the given keys,
  the clock, and the error code that no header of the repository defines.
\<close>

record ('k, 'w) ClientEnv =
  host :: "('k, 'w) Host"
  first_bucket :: "chatid_t list \<Rightarrow> chatid_t"
  clock :: timestamp_t
  UNAUTHORIZED :: ErrorCode

type_synonym ('w, 'a) uiM = "('w UI, exn, 'a) sem"
type_synonym ('w, 'a) uiP = "('w UI, 'a) pM"

definition liftcache :: "'a cacheM \<Rightarrow> ('w, 'a) uiM" where
  "liftcache m s = (case m (cache s) of (r, c) \<Rightarrow> (r, s\<lparr>cache := c\<rparr>))"

text \<open>The static placeholder is address \<open>0\<close>.\<close>

definition idleChatPlaceholder :: nat where "idleChatPlaceholder = 0"

definition idle_memory :: ChatMemory where
  "idle_memory = \<lparr>mem_ChatInfo = \<lparr>chat_Id = SYSTEM_FROMID, chat_Name = fs_of CHATNAME_MAXLENGTH ''no_chat'',
     chat_Type = chat_Type Chat_default\<rparr>, mem_Members = [], mem_Messages = [], mem_MessagesLoaded = False\<rparr>"

definition UI_start :: "'w Proto \<Rightarrow> 'w UI" where
  "UI_start p = \<lparr>proto = p, cache = \<lparr>chatsCache = Map.empty, memories = [idleChatPlaceholder \<mapsto> idle_memory], next_memory = 1\<rparr>,
     activeTransport = None, currentActiveChat = Some idleChatPlaceholder, currentLoggedInUser = None,
     isApplicationRunning = False, userInputBuffer = [], messageScrollOffset = 0, lastMaximumMessageRows = 12,
     lastUnreadBadgeChatId = 0, unreadMessageCountByChatId = [], unreadChatNamesByChatId = Map.empty,
     currentUiMode = ModeChat, cachedChatList = [], selectedChatListIndex = 0, cachedAddonCommands = [],
     areAddonCommandsLoaded = False, commandHistory = [], commandHistoryIndex = - 1, commandHistoryDraft = []\<rparr>"

text \<open>\<open>currentActiveChat.value()\<close>; an empty optional throws an exception no handler here names.\<close>

definition activeChat :: "('w, nat) uiM" where
  "activeChat = bindM (getsM currentActiveChat) (\<lambda>c. case c of None \<Rightarrow> throw unknown_exception | Some p \<Rightarrow> ret p)"

definition activeMemory :: "('w, ChatMemory) uiM" where
  "activeMemory = bindM activeChat (\<lambda>p. liftcache (memory_at p))"

section \<open>The network\<close>

definition transport_object :: "('w, TransportObject) uiM" where
  "transport_object = bindM (getsM (\<lambda>s. Option.bind (activeTransport s) (theap (proto s)))) (\<lambda>t.
     case t of None \<Rightarrow> throw undefined_behaviour | Some tr \<Rightarrow> ret tr)"

definition ask :: "('k, 'w) ClientEnv \<Rightarrow> (token_t \<Rightarrow> Request) \<Rightarrow> ('w, Responce) uiP" where
  "ask C request = pbind (plift transport_object) (\<lambda>tr. plift (\<lambda>s.
     case Protocol_SendRequest (host C) (to_TransportSocket tr) (request (to_AccessToken tr)) (proto s) of
       (r, p) \<Rightarrow> (r, s\<lparr>proto := p\<rparr>)))"

definition askList :: "('k, 'w) ClientEnv \<Rightarrow> (token_t \<Rightarrow> Request) \<Rightarrow> ('w, Responce list) uiP" where
  "askList C request = pbind (plift transport_object) (\<lambda>tr s.
     case Protocol_SendRequestList (host C) (to_TransportSocket tr) (request (to_AccessToken tr))
            (remaining (fresh_responce (host C))) (proto s) of
       None \<Rightarrow> None | Some (r, p) \<Rightarrow> Some (r, s\<lparr>proto := p\<rparr>))"

text \<open>
  The members of the union, read whatever the type of the responce is; the bytes its type does not
  determine are the fresh ones.
\<close>

definition union_of :: "('k, 'w) ClientEnv \<Rightarrow> Responce \<Rightarrow> byte list" where
  "union_of C r = drop 4 (enc_Responce (fresh_responce (host C)) r)"

definition Auth_UserModel :: "('k, 'w) ClientEnv \<Rightarrow> Responce \<Rightarrow> User" where
  "Auth_UserModel C r = dec_User (sub 0 69 (union_of C r))"

definition ChatModel_of :: "('k, 'w) ClientEnv \<Rightarrow> Responce \<Rightarrow> Chat" where
  "ChatModel_of C r = dec_Chat (sub 0 70 (union_of C r))"

definition MessageModel_of :: "('k, 'w) ClientEnv \<Rightarrow> Responce \<Rightarrow> Message" where
  "MessageModel_of C r = dec_Message (sub 0 668 (union_of C r))"

definition CurrentMessage :: "('k, 'w) ClientEnv \<Rightarrow> Responce \<Rightarrow> Message" where
  "CurrentMessage C r = dec_Message (sub 4 668 (union_of C r))"

definition CurrentUser :: "('k, 'w) ClientEnv \<Rightarrow> Responce \<Rightarrow> User" where
  "CurrentUser C r = dec_User (sub 4 69 (union_of C r))"

definition CurrentChat :: "('k, 'w) ClientEnv \<Rightarrow> Responce \<Rightarrow> Chat" where
  "CurrentChat C r = dec_Chat (sub 4 70 (union_of C r))"

definition CurrentCommand :: "('k, 'w) ClientEnv \<Rightarrow> Responce \<Rightarrow> cstring" where
  "CurrentCommand C r = c_str (chars_of (sub 4 65 (union_of C r)))"

definition CurrentUpdate :: "('k, 'w) ClientEnv \<Rightarrow> Responce \<Rightarrow> Update" where
  "CurrentUpdate C r = dec_Update (sub 4 676 (union_of C r))"

definition error_text :: "Responce \<Rightarrow> cstring" where
  "error_text r = (case r of Error e \<Rightarrow> c_str (er_Message e) | _ \<Rightarrow> [])"

section \<open>Messages\<close>

definition joinStringTokens :: "cstring list \<Rightarrow> nat \<Rightarrow> cstring" where
  "joinStringTokens commandTokens startingIndex =
     (case drop startingIndex commandTokens of [] \<Rightarrow> [] | x # xs \<Rightarrow> x @ concat (map (\<lambda>t. CHR '' '' # t) xs))"

definition lower_ascii :: "char \<Rightarrow> char" where
  "lower_ascii c = (if 65 \<le> (of_char c :: nat) \<and> (of_char c :: nat) \<le> 90 then char_of (of_char c - 65 + 97 :: nat) else c)"

definition checkStringStartsWithCaseInsensitive :: "cstring \<Rightarrow> cstring \<Rightarrow> bool" where
  "checkStringStartsWithCaseInsensitive targetString expectedPrefix \<longleftrightarrow>
     length expectedPrefix \<le> length targetString \<and>
     (\<forall>i<length expectedPrefix. lower_ascii (targetString ! i) = lower_ascii (expectedPrefix ! i))"

definition calculateTotalUnreadMessages :: "'w UI \<Rightarrow> u32" where
  "calculateTotalUnreadMessages s = foldl (\<lambda>totalMessages entry. totalMessages + snd entry) 0 (unreadMessageCountByChatId s)"

definition clearUnreadMessagesForChatId :: "('k, 'w) ClientEnv \<Rightarrow> chatid_t \<Rightarrow> ('w, unit) uiM" where
  "clearUnreadMessagesForChatId C targetChatId = modifyM (\<lambda>s.
     let counts = AList.delete targetChatId (unreadMessageCountByChatId s) in
     s\<lparr>unreadMessageCountByChatId := counts,
       unreadChatNamesByChatId := (unreadChatNamesByChatId s)(targetChatId := None),
       lastUnreadBadgeChatId := (if lastUnreadBadgeChatId s = targetChatId
         then if counts = [] then 0 else first_bucket C (map fst counts) else lastUnreadBadgeChatId s)\<rparr>)"

definition count_unread :: "chatid_t \<Rightarrow> ('w, unit) uiM" where
  "count_unread chatId = modifyM (\<lambda>s. s\<lparr>lastUnreadBadgeChatId := chatId,
     unreadMessageCountByChatId := AList.update chatId
       ((case map_of (unreadMessageCountByChatId s) chatId of None \<Rightarrow> 0 | Some n \<Rightarrow> n) + 1) (unreadMessageCountByChatId s)\<rparr>)"

definition unread_label :: "Message \<Rightarrow> ('w, cstring) uiM" where
  "unread_label incomingMessage =
     bindM (liftcache (getChatMemory (chat_Id (msg_DestChat incomingMessage)))) (\<lambda>mem.
     bindM (case mem of
         None \<Rightarrow> ret (c_str (chat_Name (msg_DestChat incomingMessage)))
       | Some p \<Rightarrow> bindM (liftcache (memory_at p)) (\<lambda>m. ret (c_str (chat_Name (mem_ChatInfo m))))) (\<lambda>label.
       ret (if label = [] then ''#'' @ to_string (unat (chat_Id (msg_DestChat incomingMessage))) else label)))"

definition viewing :: "chatid_t \<Rightarrow> ('w, bool) uiM" where
  "viewing chatId = bindM (getsM currentActiveChat) (\<lambda>c. case c of None \<Rightarrow> ret False
     | Some p \<Rightarrow> bindM (liftcache (memory_at p)) (\<lambda>m. ret (chat_Id (mem_ChatInfo m) = chatId)))"

definition appendMessageToChatUnlocked :: "Message \<Rightarrow> ('w, unit) uiM" where
  "appendMessageToChatUnlocked incomingMessage =
     bindM (viewing (chat_Id (msg_DestChat incomingMessage))) (\<lambda>isCurrentlyViewingChat.
     bindM (getsM (\<lambda>s. case currentLoggedInUser s of None \<Rightarrow> False
       | Some u \<Rightarrow> user_Id (msg_From incomingMessage) = user_Id u)) (\<lambda>isMessageFromSelf.
       if user_Id (msg_From incomingMessage) \<noteq> SYSTEM_FROMID \<and> \<not> isMessageFromSelf \<and> \<not> isCurrentlyViewingChat
       then thenM (count_unread (chat_Id (msg_DestChat incomingMessage)))
         (bindM (unread_label incomingMessage) (\<lambda>label. modifyM (\<lambda>s. s\<lparr>unreadChatNamesByChatId :=
           (unreadChatNamesByChatId s)(chat_Id (msg_DestChat incomingMessage) \<mapsto> label)\<rparr>)))
       else if isCurrentlyViewingChat then modifyM (\<lambda>s. s\<lparr>messageScrollOffset := 0\<rparr>)
       else ret ()))"

definition system_message :: "cstring \<Rightarrow> Chat \<Rightarrow> Message" where
  "system_message text chat = Message_default\<lparr>msg_From := (msg_From Message_default)\<lparr>user_Id := SYSTEM_FROMID\<rparr>,
     msg_Text := fs_assign MESSAGETEXT_MAXLENGTH (msg_Text Message_default) (c_str text), msg_DestChat := chat\<rparr>"

text \<open>\<open>addMessage(const std::string&)\<close>\<close>

definition addMessage :: "cstring \<Rightarrow> ('w, unit) uiM" where
  "addMessage plainTextContent =
     bindM activeChat (\<lambda>p. bindM activeMemory (\<lambda>m.
       let systemMessage = system_message plainTextContent (mem_ChatInfo m) in
       thenM (if p = idleChatPlaceholder
              then liftcache (set_memory p (\<lambda>m. m\<lparr>mem_Messages := mem_Messages m @ [systemMessage]\<rparr>))
              else liftcache (appendMessageToChat (chat_Id (mem_ChatInfo m)) systemMessage))
         (appendMessageToChatUnlocked systemMessage)))"

definition onChatRenamed :: "Chat \<Rightarrow> ('w, unit) uiM" where
  "onChatRenamed renamedChat = addMessage (txt_renamed @ fs_view (chat_Name renamedChat))"

definition onUserKickedFromChat :: "User \<Rightarrow> ('w, unit) uiM" where
  "onUserKickedFromChat targetUser = addMessage (txt_user @ fs_view (user_Name targetUser) @ txt_kicked)"

definition onUserBannedFromChat :: "User \<Rightarrow> ('w, unit) uiM" where
  "onUserBannedFromChat targetUser = addMessage (txt_user @ fs_view (user_Name targetUser) @ txt_banned)"

definition onUserUnbannedFromChat :: "User \<Rightarrow> ('w, unit) uiM" where
  "onUserUnbannedFromChat targetUser = addMessage (txt_user @ fs_view (user_Name targetUser) @ txt_unbanned)"

section \<open>Modes, scrolling, history\<close>

definition toggle :: "bool \<Rightarrow> 'w UI \<Rightarrow> 'w UI" where
  "toggle isEnabled s =
     (let i = (if selectedChatListIndex s < 0 then 0 else selectedChatListIndex s);
          n = int (length (cachedChatList s))
      in s\<lparr>currentUiMode := (if isEnabled then ModeChatList else ModeChat),
           selectedChatListIndex := (if cachedChatList s \<noteq> [] \<and> i \<ge> n then n - 1 else i)\<rparr>)"

definition toggleChatListMode :: "bool \<Rightarrow> ('w, unit) uiM" where
  "toggleChatListMode isEnabled = modifyM (toggle isEnabled)"

definition adjustChatMessageScroll :: "int \<Rightarrow> ('w, unit) uiM" where
  "adjustChatMessageScroll deltaOlder =
     bindM (getsM (\<lambda>s. currentUiMode s \<noteq> ModeChat \<or> currentActiveChat s = None)) (\<lambda>skip.
       if skip then ret ()
       else bindM activeMemory (\<lambda>m. modifyM (\<lambda>s.
         let maxOffset = max 0 (int (length (mem_Messages m)) - max 1 (lastMaximumMessageRows s)) in
         s\<lparr>messageScrollOffset := min maxOffset (max 0 (messageScrollOffset s + deltaOlder))\<rparr>)))"

definition show_command :: "'w UI \<Rightarrow> exn + 'w UI" where
  "show_command s = (if 0 \<le> commandHistoryIndex s \<and> commandHistoryIndex s < int (length (commandHistory s))
     then Inr (s\<lparr>userInputBuffer := commandHistory s ! nat (commandHistoryIndex s)\<rparr>) else Inl undefined_behaviour)"

definition navigateCommandHistory :: "int \<Rightarrow> 'w UI \<Rightarrow> exn + 'w UI" where
  "navigateCommandHistory direction s =
     (if currentUiMode s \<noteq> ModeChat \<or> commandHistory s = [] then Inr s
      else let historySize = int (length (commandHistory s)) in
        if direction < 0 then
          show_command (if commandHistoryIndex s < 0
            then s\<lparr>commandHistoryDraft := userInputBuffer s, commandHistoryIndex := historySize - 1\<rparr>
            else if commandHistoryIndex s > 0 then s\<lparr>commandHistoryIndex := commandHistoryIndex s - 1\<rparr> else s)
        else if commandHistoryIndex s < 0 then Inr s
        else if commandHistoryIndex s < historySize - 1
        then show_command (s\<lparr>commandHistoryIndex := commandHistoryIndex s + 1\<rparr>)
        else Inr (s\<lparr>commandHistoryIndex := - 1, userInputBuffer := commandHistoryDraft s\<rparr>))"

section \<open>Fetching\<close>

definition fetchAndCacheAddonCommands :: "('k, 'w) ClientEnv \<Rightarrow> ('w, unit) uiP" where
  "fetchAndCacheAddonCommands C =
     pbind (plift (getsM (\<lambda>s. activeTransport s = None \<or> currentLoggedInUser s = None))) (\<lambda>skip.
       if skip then pret ()
       else pcatchAll
         (pbind (askList C CreateGetAddonCommands) (\<lambda>serverResponses.
           plift (modifyM (\<lambda>s. s\<lparr>cachedAddonCommands := remdups_adj (sort (map (CurrentCommand C) serverResponses)),
             areAddonCommandsLoaded := True\<rparr>))))
         (plift (modifyM (\<lambda>s. s\<lparr>areAddonCommandsLoaded := True\<rparr>))))"

definition fetchChatHistoryAndMembers :: "('k, 'w) ClientEnv \<Rightarrow> Chat \<Rightarrow> ('w, nat) uiP" where
  "fetchChatHistoryAndMembers C targetChat =
     ptry (pbind (askList C (\<lambda>token. CreateGetChatHistory token (chat_Id targetChat))) (\<lambda>messageResponses.
         pbind (askList C (\<lambda>token. CreateGetChatMembers token (chat_Id targetChat))) (\<lambda>memberResponses.
           plift (bindM (liftcache (createChatMemory targetChat)) (\<lambda>allocatedChatMemory.
             thenM (forEach (\<lambda>r. liftcache (storeMessageToChat (chat_Id targetChat) (CurrentMessage C r) False)) messageResponses)
             (thenM (forEach (\<lambda>r. liftcache (addMemberToChat (chat_Id targetChat) (CurrentUser C r))) memberResponses)
             (thenM (liftcache (set_memory allocatedChatMemory (\<lambda>m. m\<lparr>mem_MessagesLoaded := True\<rparr>)))
             (ret allocatedChatMemory))))))))
       (\<lambda>e. plift (if is_runtime_error e
          then thenM (liftcache (removeChatMemory (chat_Id targetChat))) (throw e) else throw e))"

definition cache_listed :: "('k, 'w) ClientEnv \<Rightarrow> Responce \<Rightarrow> ('w, unit) uiM" where
  "cache_listed C r =
     bindM (liftcache (getChatMemory (chat_Id (CurrentChat C r)))) (\<lambda>known.
       if known \<noteq> None then ret () else bindM (liftcache (createChatMemory (CurrentChat C r))) (\<lambda>_. ret ()))"

definition fetchAndCacheChatList :: "('k, 'w) ClientEnv \<Rightarrow> ('w, unit) uiP" where
  "fetchAndCacheChatList C = pcatchAll
     (pbind (askList C CreateGetChatList) (\<lambda>serverResponses.
       plift (thenM (forEach (cache_listed C) serverResponses) (modifyM (\<lambda>s.
         let n = int (length serverResponses);
             i = (if selectedChatListIndex s \<ge> n then n - 1 else selectedChatListIndex s)
         in s\<lparr>cachedChatList := map (CurrentChat C) serverResponses, selectedChatListIndex := (if i < 0 then 0 else i)\<rparr>)))))
     (pret ())"

definition cached_and_loaded :: "chatid_t \<Rightarrow> ('w, nat option) uiM" where
  "cached_and_loaded chatId =
     bindM (liftcache (getChatMemory chatId)) (\<lambda>cachedMemory. case cachedMemory of None \<Rightarrow> ret None
       | Some p \<Rightarrow> bindM (liftcache (memory_at p)) (\<lambda>m. ret (if mem_MessagesLoaded m then Some p else None)))"

definition loadAndSelectChat :: "('k, 'w) ClientEnv \<Rightarrow> Chat \<Rightarrow> ('w, bool) uiP" where
  "loadAndSelectChat C targetChat =
     ptry (pbind (plift (cached_and_loaded (chat_Id targetChat))) (\<lambda>cached.
         pbind (case cached of Some p \<Rightarrow> pret p | None \<Rightarrow> fetchChatHistoryAndMembers C targetChat) (\<lambda>targetChatMemory.
           plift (thenM (modifyM (\<lambda>s. s\<lparr>currentActiveChat := Some targetChatMemory\<rparr>))
             (thenM (clearUnreadMessagesForChatId C (chat_Id targetChat))
             (thenM (modifyM (\<lambda>s. s\<lparr>messageScrollOffset := 0\<rparr>)) (ret True)))))))
       (\<lambda>e. plift (if e = disconnected_error
          then thenM (modifyM (\<lambda>s. s\<lparr>isApplicationRunning := False\<rparr>)) (ret True)
          else if is_runtime_error e then thenM (addMessage (txt_load_error @ exn_what e)) (ret False)
          else throw e))"

section \<open>Logging in\<close>

definition greet :: "('k, 'w) ClientEnv \<Rightarrow> cstring \<Rightarrow> Responce \<Rightarrow> ('w, unit) uiP" where
  "greet C name serverResponse =
     pthen (plift (modifyM (\<lambda>s. s\<lparr>currentLoggedInUser := Some (Auth_UserModel C serverResponse),
         currentActiveChat := Some idleChatPlaceholder\<rparr>)))
     (pthen (plift (addMessage (txt_welcome @ name @ ''!'')))
     (pthen (fetchAndCacheChatList C)
     (pthen (fetchAndCacheAddonCommands C)
     (plift (modifyM (\<lambda>s. if cachedChatList s \<noteq> [] then toggle True s else s))))))"

definition tryAuth :: "('k, 'w) ClientEnv \<Rightarrow> nat \<Rightarrow> cstring \<Rightarrow> cstring \<Rightarrow> ('w, unit) uiP" where
  "tryAuth C connectionSocket inputUsername inputPassword =
     pthen (plift (modifyM (\<lambda>s. s\<lparr>activeTransport := Some connectionSocket\<rparr>)))
     (pbind (ask C (\<lambda>token. CreateLogin (fresh_request (host C)) token inputUsername inputPassword)) (\<lambda>serverResponse.
       if is_Error serverResponse then plift (addMessage (txt_error @ error_text serverResponse))
       else greet C inputUsername serverResponse))"

section \<open>Commands\<close>

definition say :: "cstring \<Rightarrow> bool \<Rightarrow> ('w, bool) uiP" where
  "say text result = plift (thenM (addMessage text) (ret result))"

definition authCommand :: "('k, 'w) ClientEnv \<Rightarrow> cstring \<Rightarrow> cstring list \<Rightarrow> ('w, bool) uiP" where
  "authCommand C name arguments = (case arguments of
     authUser # authPass # _ \<Rightarrow>
       pbind (ask C (\<lambda>token. if name = ''/register'' then CreateRegister (fresh_request (host C)) token authUser authPass
           else CreateLogin (fresh_request (host C)) token authUser authPass)) (\<lambda>authResponse.
         if is_Error authResponse then say (txt_error @ error_text authResponse) True
         else pthen (greet C authUser authResponse) (pret True))
   | _ \<Rightarrow> say (txt_usage @ name @ '' [username] [password]'') True)"

definition logoutCommand :: "('k, 'w) ClientEnv \<Rightarrow> ('w, bool) uiP" where
  "logoutCommand C =
     pbind (plift (getsM currentLoggedInUser)) (\<lambda>u.
       if u = None then say txt_unauthorized False
       else pthen (ask C (\<lambda>token. CreateLogin (fresh_request (host C)) token [] []))
         (plift (thenM (modifyM (\<lambda>s. toggle False (s\<lparr>currentLoggedInUser := None, currentActiveChat := Some idleChatPlaceholder,
             selectedChatListIndex := 0, cachedChatList := []\<rparr>)\<lparr>cachedAddonCommands := [], areAddonCommandsLoaded := False\<rparr>))
           (ret True))))"

definition chatsCommand :: "('k, 'w) ClientEnv \<Rightarrow> ('w, bool) uiP" where
  "chatsCommand C =
     pbind (plift (getsM currentLoggedInUser)) (\<lambda>u.
       if u = None then say txt_unauthorized True
       else pbind (ptry (pthen (fetchAndCacheChatList C) (pret True))
           (\<lambda>e. if is_runtime_error e then say (txt_error @ exn_what e) False else plift (throw e))) (\<lambda>fetched.
         if \<not> fetched then pret True
         else pbind (plift (getsM areAddonCommandsLoaded)) (\<lambda>loaded.
           pthen (if loaded then pret () else fetchAndCacheAddonCommands C)
             (plift (thenM (toggleChatListMode True) (ret True))))))"

definition chatCommand :: "('k, 'w) ClientEnv \<Rightarrow> cstring list \<Rightarrow> ('w, bool) uiP" where
  "chatCommand C arguments =
     pbind (plift (getsM currentLoggedInUser)) (\<lambda>u.
       if u = None then say txt_unauthorized True
       else case arguments of
         [] \<Rightarrow> say (txt_usage @ ''/chat [chat_name]'') True
       | query # _ \<Rightarrow>
           pbind (ask C (\<lambda>token. CreateGetChatInfo (fresh_request (host C)) token query)) (\<lambda>chatInfoResponse.
             if is_Error chatInfoResponse then say (txt_error @ error_text chatInfoResponse) True
             else loadAndSelectChat C (ChatModel_of C chatInfoResponse)))"

definition out_of_chat :: "('w, bool) uiM" where
  "out_of_chat = getsM (\<lambda>s. currentLoggedInUser s = None \<or> currentActiveChat s = None)"

definition membersCommand :: "('w, bool) uiP" where
  "membersCommand =
     pbind (plift out_of_chat) (\<lambda>outside.
       if outside then say txt_login_and_choose True
       else plift (bindM activeMemory (\<lambda>m.
         thenM (forEach (\<lambda>chatMember. addMessage (c_str (user_Name chatMember))) (mem_Members m)) (ret True))))"

definition groupCommand :: "('k, 'w) ClientEnv \<Rightarrow> cstring \<Rightarrow> cstring list \<Rightarrow> ('w, bool) uiP" where
  "groupCommand C name commandTokens =
     pbind (plift (getsM currentLoggedInUser)) (\<lambda>u.
       if u = None then say txt_unauthorized True
       else if length commandTokens < 2 then say (txt_usage @ name @ txt_name) True
       else let combinedChatQuery = joinStringTokens commandTokens 1 in
         pbind (ask C (\<lambda>token. if name = ''/create'' then CreateSpawnGroupChat (fresh_request (host C)) token combinedChatQuery
             else CreateJoinGroupChat (fresh_request (host C)) token combinedChatQuery)) (\<lambda>groupActionResponse.
           if is_Error groupActionResponse then say (error_text groupActionResponse) True
           else loadAndSelectChat C (ChatModel_of C groupActionResponse)))"

definition refreshCommand :: "('k, 'w) ClientEnv \<Rightarrow> ('w, bool) uiP" where
  "refreshCommand C =
     pbind (plift out_of_chat) (\<lambda>outside.
       if outside then say txt_login_and_choose True
       else ptry (pbind (plift activeMemory) (\<lambda>m.
           pbind (askList C (\<lambda>token. CreateGetChatHistory token (chat_Id (mem_ChatInfo m)))) (\<lambda>serverResponses.
             plift (bindM activeChat (\<lambda>currentTargetChat.
               thenM (liftcache (set_memory currentTargetChat (\<lambda>m. m\<lparr>mem_Messages := []\<rparr>)))
               (thenM (forEach (\<lambda>r. bindM (liftcache (memory_at currentTargetChat)) (\<lambda>m.
                   thenM (liftcache (storeMessageToChat (chat_Id (mem_ChatInfo m)) (CurrentMessage C r) False))
                     (appendMessageToChatUnlocked (CurrentMessage C r)))) serverResponses)
               (thenM (liftcache (set_memory currentTargetChat (\<lambda>m. m\<lparr>mem_MessagesLoaded := True\<rparr>))) (ret True))))))))
         (\<lambda>e. if is_runtime_error e then say (txt_refresh_error @ exn_what e) True else plift (throw e)))"

definition TerminalUI_processCommand :: "('k, 'w) ClientEnv \<Rightarrow> cstring \<Rightarrow> ('w, bool) uiP" where
  "TerminalUI_processCommand C userCommandString =
     (if userCommandString = [] then pret True
      else case stream_tokens userCommandString of
        [] \<Rightarrow> plift (throw undefined_behaviour)
      | name # arguments \<Rightarrow>
          if name = ''/help'' then plift (thenM (addMessage txt_help) (thenM (addMessage txt_help_keys) (ret True)))
          else if name = ''/register'' \<or> name = ''/login'' then authCommand C name arguments
          else if name = ''/logout'' then logoutCommand C
          else if name = ''/chats'' then chatsCommand C
          else if name = ''/chat'' then chatCommand C arguments
          else if name = ''/members'' then membersCommand
          else if name = ''/create'' \<or> name = ''/join'' then groupCommand C name (name # arguments)
          else if name = ''/refresh'' then refreshCommand C
          else if name = ''/clear'' then pret True
          else if name = ''/exit'' then plift (thenM (modifyM (\<lambda>s. s\<lparr>isApplicationRunning := False\<rparr>)) (ret True))
          else pret False)"

section \<open>Keys\<close>

definition hookRender :: "nat option \<Rightarrow> ('w, unit) uiM" where
  "hookRender activeSocket = modifyM (\<lambda>s. s\<lparr>activeTransport := activeSocket,
     isApplicationRunning := (if activeSocket \<noteq> None then True else isApplicationRunning s)\<rparr>)"

definition leave_history :: "'w UI \<Rightarrow> 'w UI" where
  "leave_history s = (if commandHistoryIndex s \<ge> 0 then s\<lparr>commandHistoryIndex := - 1, commandHistoryDraft := []\<rparr> else s)"

definition hookInputChar :: "char \<Rightarrow> ('w, unit) uiM" where
  "hookInputChar inputCharacter = modifyM (\<lambda>s. let s = leave_history s in s\<lparr>userInputBuffer := userInputBuffer s @ [inputCharacter]\<rparr>)"

definition hookBackspace :: "('w, unit) uiM" where
  "hookBackspace = modifyM (\<lambda>s. let s = leave_history s in
     if userInputBuffer s \<noteq> [] then s\<lparr>userInputBuffer := removeLastUtf8Codepoint (userInputBuffer s)\<rparr> else s)"

definition hookArrowUp :: "('w, unit) uiM" where
  "hookArrowUp = bindM (getsM currentUiMode) (\<lambda>mode.
     if mode = ModeChatList then modifyM (\<lambda>s. s\<lparr>selectedChatListIndex := max 0 (selectedChatListIndex s - 1)\<rparr>)
     else adjustChatMessageScroll 1)"

definition hookArrowDown :: "('w, unit) uiM" where
  "hookArrowDown = bindM (getsM currentUiMode) (\<lambda>mode.
     if mode = ModeChatList
     then modifyM (\<lambda>s. s\<lparr>selectedChatListIndex := min (int (length (cachedChatList s)) - 1) (selectedChatListIndex s + 1)\<rparr>)
     else adjustChatMessageScroll (- 1))"

definition navigate :: "int \<Rightarrow> ('w, unit) uiM" where
  "navigate direction s = (case navigateCommandHistory direction s of Inl e \<Rightarrow> (Inl e, s) | Inr s' \<Rightarrow> (Inr (), s'))"

definition hookArrowUpShift :: "('w, unit) uiM" where "hookArrowUpShift = navigate (- 1)"

definition hookArrowDownShift :: "('w, unit) uiM" where "hookArrowDownShift = navigate 1"

definition hookEscape :: "('w, unit) uiM" where
  "hookEscape = bindM (getsM currentUiMode) (\<lambda>mode.
     if mode = ModeChatList then toggleChatListMode False else modifyM (\<lambda>s. s\<lparr>isApplicationRunning := False\<rparr>))"

definition enterChatList :: "('k, 'w) ClientEnv \<Rightarrow> ('w, unit) uiP" where
  "enterChatList C =
     pbind (plift (getsM (\<lambda>s. (cachedChatList s, selectedChatListIndex s)))) (\<lambda>(chats, i).
       if chats = [] then pret ()
       else if \<not> (0 \<le> i \<and> i < int (length chats)) then plift (throw undefined_behaviour)
       else pthen (plift (toggleChatListMode False)) (pthen (loadAndSelectChat C (chats ! nat i)) (pret ())))"

definition push_history :: "cstring \<Rightarrow> ('w, unit) uiM" where
  "push_history line = modifyM (\<lambda>s.
     let h = (if commandHistory s = [] \<or> last (commandHistory s) \<noteq> line then commandHistory s @ [line] else commandHistory s)
     in s\<lparr>commandHistory := (if length h > 100 then tl h else h)\<rparr>)"

definition sendLine :: "('k, 'w) ClientEnv \<Rightarrow> cstring \<Rightarrow> ('w, unit) uiP" where
  "sendLine C extractedLine =
     pbind (plift (getsM (\<lambda>s. (currentLoggedInUser s, currentActiveChat s)))) (\<lambda>(u, c).
       if u = None then plift (addMessage txt_login_first)
       else if c = None then plift (addMessage txt_choose_chat)
       else pbind (plift activeMemory) (\<lambda>m.
         pbind (ask C (\<lambda>token. CreateCommitMessage (fresh_request (host C)) (clock C) token (chat_Id (mem_ChatInfo m)) extractedLine))
           (\<lambda>serverResponse.
             if is_Error serverResponse then plift (addMessage (txt_failed @ error_text serverResponse))
             else plift (bindM activeMemory (\<lambda>m.
               thenM (liftcache (storeMessageToChat (chat_Id (mem_ChatInfo m)) (MessageModel_of C serverResponse) True))
                 (appendMessageToChatUnlocked (MessageModel_of C serverResponse)))))))"

definition TerminalUI_hookEnter :: "('k, 'w) ClientEnv \<Rightarrow> ('w, unit) uiP" where
  "TerminalUI_hookEnter C =
     pbind (plift (getsM (\<lambda>s. (currentUiMode s, userInputBuffer s)))) (\<lambda>(mode, extractedLine).
       if mode = ModeChatList then enterChatList C
       else if extractedLine = [] then pret ()
       else pthen (plift (modifyM (\<lambda>s. s\<lparr>userInputBuffer := [], commandHistoryIndex := - 1, commandHistoryDraft := []\<rparr>)))
         (pthen (plift (push_history extractedLine))
         (if hd extractedLine = CHR ''/''
          then pthen (plift (toggleChatListMode False)) (pbind (TerminalUI_processCommand C extractedLine) (\<lambda>processed.
            if processed then plift (modifyM (\<lambda>s. s\<lparr>userInputBuffer := []\<rparr>)) else sendLine C extractedLine))
          else sendLine C extractedLine)))"

section \<open>What other files call\<close>

definition TerminalUI_isRunning :: "('w, bool) uiM" where
  "TerminalUI_isRunning = getsM isApplicationRunning"

definition TerminalUI_stopRunning :: "('w, unit) uiM" where
  "TerminalUI_stopRunning = modifyM (\<lambda>s. s\<lparr>isApplicationRunning := False\<rparr>)"

text \<open>\<open>addMessage(const Message&)\<close>\<close>

definition TerminalUI_addMessage :: "Message \<Rightarrow> ('w, unit) uiM" where
  "TerminalUI_addMessage incomingMessage = appendMessageToChatUnlocked incomingMessage"

end
