(* ===== verification/TerminalUI_Laws.thy ===== *)
theory TerminalUI_Laws
  imports TerminalUI
begin

text \<open>
  The user interface never follows a dangling pointer: the protocol, the cache and the interface
  together keep an invariant, whatever the server answers and whatever keys are pressed.
\<close>

section \<open>The protocol keeps its transports\<close>

definition proto_ok :: "nat set \<Rightarrow> 'w Proto \<Rightarrow> bool" where
  "proto_ok A p \<longleftrightarrow> A \<subseteq> dom (theap p) \<and> ran (secureSessionBySocket p) \<subseteq> dom (theap p)"

text \<open>\<open>recv\<close> fills no more than the buffer it is given.\<close>

definition recv_bounded :: "'w Sockets \<Rightarrow> bool" where
  "recv_bounded K \<longleftrightarrow> (\<forall>s n w bs w'. sys_recv K s n w = (Inr bs, w') \<longrightarrow> length bs \<le> n)"

lemma recv_boundedD: "recv_bounded K \<Longrightarrow> sys_recv K s n w = (Inr bs, w') \<Longrightarrow> length bs \<le> n"
  unfolding recv_bounded_def by blast

lemma sends_noUB [noub]: "noUB (SendBuffer K s d)" "noUB (SendData K s d)"
proof -
  have "fst (SendBufferLoop K s d i st) \<noteq> Inl undefined_behaviour" for i st
    by (induction K s d i st rule: SendBufferLoop.induct) (subst SendBufferLoop.simps, auto split: prod.split sysres.split)
  then show "noUB (SendBuffer K s d)" "noUB (SendData K s d)"
    by (simp_all add: noUB_def Data_is_Buffer SendBuffer_def)
qed

lemma receives_noUB:
  assumes "recv_bounded K"
  shows "noUB (ReceiveBuffer K s n)" and "noUB (ReceiveData K s n)"
proof -
  have "fst (ReceiveBufferLoop K s n d st) \<noteq> Inl undefined_behaviour" for d st
    using assms
  proof (induction K s n d st rule: ReceiveBufferLoop.induct)
    case (1 K s n d st)
    then show ?case
      by (subst ReceiveBufferLoop.simps) (auto dest: recv_boundedD split: prod.split sum.split)
  qed
  then show "noUB (ReceiveBuffer K s n)" "noUB (ReceiveData K s n)"
    by (simp_all add: noUB_def Data_is_Buffer ReceiveBuffer_def)
qed

lemma safe_liftnet: "noUB m \<Longrightarrow> safe (proto_ok A) (liftnet m)"
  by (simp add: safe_def noUB_def liftnet_def proto_ok_def split_beta)

lemma safe_lift_result: "r \<noteq> Inl undefined_behaviour \<Longrightarrow> safe I (lift_result r)"
  by (auto simp: safe_def lift_result_def monad_defs split: sum.split)

lemma aead_noUB: "EncryptAead L k c p \<noteq> Inl undefined_behaviour" "DecryptAead L k c p t \<noteq> Inl undefined_behaviour"
  by (auto simp: EncryptAead_def DecryptAead_def Let_def ssl_error_def split: option.split prod.split)

lemma safe_deref: "t \<in> A \<Longrightarrow> safe (proto_ok A) (deref t)"
  by (auto simp: safe_def deref_def monad_defs proto_ok_def split: option.split)

lemma safe_set_Secure: "safe (proto_ok A) (set_Secure t f)"
  by (auto simp: safe_def set_Secure_def modifyM_def proto_ok_def split: if_splits)

lemma safe_fault: "safe I (fault H m c)"
  by (simp add: safe_def fault_def throw_def request_failed_def)

lemma safe_pair [safes]: "(\<And>a b. safe I (f a b)) \<Longrightarrow> safe I (case x of (a, b) \<Rightarrow> f a b)"
  by (cases x) simp

lemma safe_let [safes]: "safe I (f x) \<Longrightarrow> safe I (let y = x in f y)"
  by simp

lemma secure_objects_safe:
  assumes "t \<in> A" and "recv_bounded (sockets H)"
  shows "safe (proto_ok A) (sendSecureObject H t object)" and "safe (proto_ok A) (recvSecureObject H t n)"
  unfolding sendSecureObject_def recvSecureObject_def
  by (intro safes safe_deref [OF assms(1)] safe_set_Secure safe_lift_result aead_noUB safe_liftnet sends_noUB
      receives_noUB [OF assms(2)] safe_fault)+

lemma session_safe:
  assumes f: "\<And>t. safe (proto_ok (insert t A)) (f t)" and n: "safe (proto_ok A) n"
  shows "safe (proto_ok A) (bindM (getSecureTransport sk) (\<lambda>r. case r of Some t \<Rightarrow> f t | None \<Rightarrow> n))"
proof -
  have "proto_ok A (snd (bindM (getSecureTransport sk) (\<lambda>r. case r of Some t \<Rightarrow> f t | None \<Rightarrow> n) s)) \<and>
     fst (bindM (getSecureTransport sk) (\<lambda>r. case r of Some t \<Rightarrow> f t | None \<Rightarrow> n) s) \<noteq> Inl undefined_behaviour"
    if s: "proto_ok A s" for s
  proof (cases "secureSessionBySocket s sk")
    case None
    then show ?thesis using n s by (simp add: getSecureTransport_def monad_defs safe_def)
  next
    case (Some t)
    then obtain tr where tr: "theap s t = Some tr" using s by (auto simp: proto_ok_def ran_def)
    then have "proto_ok (insert t A) s" using s by (auto simp: proto_ok_def)
    then have "proto_ok A (snd (f t s)) \<and> fst (f t s) \<noteq> Inl undefined_behaviour"
      using f [of t] by (simp add: safe_def proto_ok_def)
    then show ?thesis using n s Some tr by (simp add: getSecureTransport_def deref_def monad_defs safe_def)
  qed
  then show ?thesis by (simp add: safe_def)
qed

lemma objects_safe:
  assumes "recv_bounded (sockets H)"
  shows "safe (proto_ok A) (sendObject H sk object m)" and "safe (proto_ok A) (receiveObject H sk n m)"
  unfolding sendObject_def receiveObject_def
  by (rule session_safe; intro secure_objects_safe [OF insertI1 assms] safes safe_liftnet sends_noUB receives_noUB [OF assms] safe_fault)+

lemma requests_safe:
  assumes "recv_bounded (sockets H)"
  shows "safe (proto_ok A) (Protocol_GetResponce H sk)" and "safe (proto_ok A) (Protocol_SendRequest H sk q)"
  unfolding Protocol_SendRequest_def Protocol_GetResponce_def by (intro safes objects_safe [OF assms])+

lemma responce_failed_noUB: "is_Error r \<Longrightarrow> responce_failed H r \<noteq> undefined_behaviour"
  by (auto simp: is_Error_def responce_failed_def split: Responce.splits)

lemma listLoop_safe:
  assumes "listLoop H sk f r acc p = Some (x, p')" and "proto_ok A p" and "recv_bounded (sockets H)"
  shows "x \<noteq> Inl undefined_behaviour \<and> proto_ok A p'"
proof -
  let ?P = "\<lambda>H sk f r acc p y. recv_bounded (sockets H) \<longrightarrow> proto_ok A p \<longrightarrow> fst y \<noteq> Inl undefined_behaviour \<and> proto_ok A (snd y)"
  have "?P H sk f r acc p (x, p')"
  proof (rule listLoop.raw_induct [where P = ?P, OF _ assms(1)], intro impI)
    fix loop H sk f r acc p y
    assume ih: "\<And>H sk f r acc p y. loop H sk f r acc p = Some y \<Longrightarrow> ?P H sk f r acc p y"
      and y: "(if sint (f r) > 0 then (case Protocol_GetResponce H sk p of (Inl e, s') \<Rightarrow> Some (Inl e, s')
         | (Inr r, s') \<Rightarrow> (if is_Error r then Some (Inl (responce_failed H r), s') else loop H sk f r (acc @ [r]) s'))
        else Some (Inr acc, p)) = Some y"
      and b: "recv_bounded (sockets H)" and p: "proto_ok A p"
    obtain g p1 where g: "Protocol_GetResponce H sk p = (g, p1)" by fastforce
    have s: "g \<noteq> Inl undefined_behaviour" "proto_ok A p1"
      using requests_safe(1) [OF b, of A sk] p g by (auto simp: safe_def)
    show "fst y \<noteq> Inl undefined_behaviour \<and> proto_ok A (snd y)"
      using y b p g s ih [of H sk f _ _ p1 y] responce_failed_noUB [of _ H] by (cases g) (auto split: if_splits)
  qed
  then show ?thesis using assms(2,3) by simp
qed

lemma SendRequestList_safe:
  assumes "Protocol_SendRequestList H sk q f p = Some (x, p')" and "proto_ok A p" and "recv_bounded (sockets H)"
  shows "x \<noteq> Inl undefined_behaviour \<and> proto_ok A p'"
proof -
  obtain g p1 where g: "Protocol_SendRequest H sk q p = (g, p1)" by fastforce
  have s: "g \<noteq> Inl undefined_behaviour" "proto_ok A p1"
    using requests_safe(2) [OF assms(3), of A sk q] assms(2) g by (auto simp: safe_def)
  then show ?thesis
    using assms(1) g responce_failed_noUB listLoop_safe [OF _ s(2) assms(3), of sk f _ _ x p']
    by (cases g) (auto simp: Protocol_SendRequestList_def split: if_splits)
qed

section \<open>The invariant of the interface\<close>

text \<open>
  The active chat is the placeholder or a cached memory whose messages were loaded; a non-empty list
  of chats has its selection in range; so has the history of commands; the transport is alive.
\<close>

definition active_ok :: "Cache \<Rightarrow> nat option \<Rightarrow> bool" where
  "active_ok c a \<longleftrightarrow> (\<exists>p. a = Some p \<and> (p = idleChatPlaceholder \<or>
     (\<exists>i m. chatsCache c i = Some p \<and> memories c p = Some m \<and> mem_MessagesLoaded m)))"

definition selection_ok :: "'w UI \<Rightarrow> bool" where
  "selection_ok s \<longleftrightarrow> (cachedChatList s \<noteq> [] \<longrightarrow> 0 \<le> selectedChatListIndex s \<and> selectedChatListIndex s < int (length (cachedChatList s)))"

definition history_ok :: "'w UI \<Rightarrow> bool" where
  "history_ok s \<longleftrightarrow> - 1 \<le> commandHistoryIndex s \<and> commandHistoryIndex s < int (length (commandHistory s))"

definition ui_ok :: "'w UI \<Rightarrow> bool" where
  "ui_ok s \<longleftrightarrow> cache_ok (cache s) \<and> active_ok (cache s) (currentActiveChat s) \<and> selection_ok s \<and> history_ok s \<and>
     (\<exists>t. activeTransport s = Some t \<and> proto_ok {t} (proto s))"

text \<open>The invariant together with a condition on the cache and the active chat.\<close>

definition ui_with :: "(Cache \<Rightarrow> nat option \<Rightarrow> bool) \<Rightarrow> 'w UI \<Rightarrow> bool" where
  "ui_with R s \<longleftrightarrow> ui_ok s \<and> R (cache s) (currentActiveChat s)"

abbreviation ui_at :: "(nat option \<Rightarrow> bool) \<Rightarrow> 'w UI \<Rightarrow> bool" where
  "ui_at P \<equiv> ui_with (\<lambda>_ a. P a)"

lemma ui_okE: "ui_with R s \<Longrightarrow> ui_ok s" by (simp add: ui_with_def)

lemma ui_at_True: "ui_at (\<lambda>_. True) = ui_ok" by (simp add: ui_with_def fun_eq_iff)

named_theorems ui_safe \<open>operations of the interface that keep the invariant\<close>

lemma safe_update:
  assumes "\<And>s. cache (f s) = cache s" "\<And>s. currentActiveChat (f s) = currentActiveChat s" "\<And>s. proto (f s) = proto s"
    "\<And>s. activeTransport (f s) = activeTransport s" "\<And>s. selection_ok s \<Longrightarrow> selection_ok (f s)" "\<And>s. history_ok s \<Longrightarrow> history_ok (f s)"
  shows "safe (ui_with R) (modifyM f)"
  by (rule safe_modifyM) (use assms in \<open>simp add: ui_with_def ui_ok_def\<close>)

lemma safe_liftcache:
  assumes "\<And>c. cache_ok c \<Longrightarrow> \<exists>x c'. m c = (x, c') \<and> x \<noteq> Inl undefined_behaviour \<and> cache_ok c' \<and>
    (\<forall>a. active_ok c a \<longrightarrow> active_ok c' a) \<and> (\<forall>a. R c a \<longrightarrow> R c' a)"
  shows "safe (ui_with R :: 'w UI \<Rightarrow> bool) (liftcache m)"
  unfolding safe_def
proof (intro allI impI)
  fix s :: "'w UI" assume s: "ui_with R s"
  then have "cache_ok (cache s)" by (simp add: ui_with_def ui_ok_def)
  from assms [OF this] s show "ui_with R (snd (liftcache m s)) \<and> fst (liftcache m s) \<noteq> Inl undefined_behaviour"
    by (auto simp: ui_with_def ui_ok_def liftcache_def selection_ok_def history_ok_def)
qed

lemma getChatMemory_safe [ui_safe]: "safe (ui_with R) (liftcache (getChatMemory i))"
  by (rule safe_liftcache) simp

text \<open>Conditions that depend on which memories are cached where, not on what they hold.\<close>

definition on_map :: "(Cache \<Rightarrow> nat option \<Rightarrow> bool) \<Rightarrow> bool" where
  "on_map R \<longleftrightarrow> (\<forall>c c' a. chatsCache c' = chatsCache c \<longrightarrow> R c a = R c' a)"

lemma on_map_simps [simp]: "on_map (\<lambda>_ a. P a)" "on_map (\<lambda>c _. chatsCache c i = p)"
  by (simp_all add: on_map_def)

lemma with_chat_safe:
  assumes "\<And>m. chat_Id (mem_ChatInfo (f m)) = chat_Id (mem_ChatInfo m) \<and> mem_MessagesLoaded (f m) = mem_MessagesLoaded m"
    and "on_map R"
  shows "safe (ui_with R) (liftcache (with_chat i f))"
proof (rule safe_liftcache)
  fix c assume c: "cache_ok c"
  obtain c' where c': "with_chat i f c = (Inr (), c')" "cache_ok c'" "chatsCache c' = chatsCache c"
    "memories c' = (case chatsCache c i of None \<Rightarrow> memories c | Some p \<Rightarrow> (memories c)(p := map_option f (memories c p)))"
    using with_chat_run [OF c, of f i] assms by blast
  have "active_ok c' a" if act: "active_ok c a" for a
  proof -
    obtain p where p: "a = Some p" "p = idleChatPlaceholder \<or> (\<exists>j m. chatsCache c j = Some p \<and> memories c p = Some m \<and> mem_MessagesLoaded m)"
      using act by (auto simp: active_ok_def)
    show ?thesis
    proof (cases "p = idleChatPlaceholder")
      case False
      then obtain j m where j: "chatsCache c j = Some p" "memories c p = Some m" "mem_MessagesLoaded m" using p(2) by blast
      have "memories c' p = Some m \<or> memories c' p = Some (f m)" by (cases "chatsCache c i") (auto simp: c'(4) j(2))
      then have "\<exists>m'. memories c' p = Some m' \<and> mem_MessagesLoaded m'" using j(3) assms(1) by metis
      then show ?thesis using p(1) j(1) c'(3) by (auto simp: active_ok_def)
    qed (simp add: active_ok_def p(1))
  qed
  moreover have "R c a \<Longrightarrow> R c' a" for a using assms(2) c'(3) unfolding on_map_def by blast
  ultimately show "\<exists>x c'. with_chat i f c = (x, c') \<and> x \<noteq> Inl undefined_behaviour \<and> cache_ok c' \<and>
    (\<forall>a. active_ok c a \<longrightarrow> active_ok c' a) \<and> (\<forall>a. R c a \<longrightarrow> R c' a)"
    using c' by blast
qed

lemma cache_messages_safe [ui_safe]:
  assumes "on_map R"
  shows "safe (ui_with R) (liftcache (storeMessageToChat i m b))" and "safe (ui_with R) (liftcache (appendMessageToChat i m))"
    and "safe (ui_with R) (liftcache (addMemberToChat i u))"
  unfolding storeMessageToChat_def appendMessageToChat_def addMemberToChat_def by (rule with_chat_safe [OF _ assms], simp)+

text \<open>Memories that are known to be there: the active one, a cached one.\<close>

lemma active_memory: "ui_ok s \<Longrightarrow> \<exists>p m. currentActiveChat s = Some p \<and> memories (cache s) p = Some m"
  by (auto simp: ui_ok_def active_ok_def cache_ok_def idleChatPlaceholder_def)

lemma memory_at_run: "memories c p = Some m \<Longrightarrow> memory_at p c = (Inr m, c)"
  by (simp add: memory_at_def monad_defs)

lemma active_run:
  assumes "ui_ok s"
  shows "\<exists>p m. currentActiveChat s = Some p \<and> memories (cache s) p = Some m \<and> activeChat s = (Inr p, s) \<and> activeMemory s = (Inr m, s)"
proof -
  obtain p m where "currentActiveChat s = Some p" "memories (cache s) p = Some m" using active_memory [OF assms] by blast
  then show ?thesis by (simp add: activeMemory_def activeChat_def monad_defs liftcache_def memory_at_run)
qed

lemma active_safe [ui_safe]: "safe (ui_with R) activeChat" "safe (ui_with R) activeMemory"
  using active_run by (fastforce simp: safe_def ui_with_def)+

lemma safe_readonly:
  assumes "\<And>s. ui_ok s \<Longrightarrow> \<exists>x. m s = (Inr x, s)"
  shows "safe (ui_with R) m"
  using assms by (fastforce simp: safe_def ui_with_def)

lemma viewing_run: "ui_ok s \<Longrightarrow> \<exists>x. viewing i s = (Inr x, s)"
  using active_memory [of s] by (auto simp: viewing_def monad_defs liftcache_def memory_at_run)

lemma cached_run:
  assumes "ui_ok s"
  shows "\<exists>x. unread_label msg s = (Inr x, s)" and "\<exists>x. cached_and_loaded i s = (Inr x, s) \<and> (case x of
     Some p \<Rightarrow> active_ok (cache s) (Some p)
   | None \<Rightarrow> \<forall>p m. chatsCache (cache s) i = Some p \<longrightarrow> memories (cache s) p = Some m \<longrightarrow> \<not> mem_MessagesLoaded m)"
proof -
  have c: "\<exists>m. memories (cache s) p = Some m" if "chatsCache (cache s) i = Some p" for p i
    using cacheD(2) [OF _ that] assms by (auto simp: ui_ok_def)
  have u: "s\<lparr>cache := cache s\<rparr> = s" by simp
  show "\<exists>x. unread_label msg s = (Inr x, s)"
    using c by (cases "chatsCache (cache s) (chat_Id (msg_DestChat msg))")
      (fastforce simp: unread_label_def monad_defs liftcache_def memory_at_run)+
  show "\<exists>x. cached_and_loaded i s = (Inr x, s) \<and> (case x of
     Some p \<Rightarrow> active_ok (cache s) (Some p)
   | None \<Rightarrow> \<forall>p m. chatsCache (cache s) i = Some p \<longrightarrow> memories (cache s) p = Some m \<longrightarrow> \<not> mem_MessagesLoaded m)"
    using c by (cases "chatsCache (cache s) i")
      (fastforce simp: cached_and_loaded_def monad_defs liftcache_def memory_at_run active_ok_def)+
qed

lemma reads_safe [ui_safe]: "safe (ui_with R) (viewing i)" "safe (ui_with R) (unread_label msg)"
  by (rule safe_readonly, erule viewing_run, rule safe_readonly, erule cached_run)

lemma appendMessage_safe [ui_safe]: "safe (ui_with R) (appendMessageToChatUnlocked m)"
  unfolding appendMessageToChatUnlocked_def count_unread_def
  by (intro safes ui_safe safe_update) (auto simp: selection_ok_def history_ok_def)

lemma placeholder_safe: "safe (ui_at P) (liftcache (set_memory idleChatPlaceholder f))"
proof (rule safe_liftcache)
  fix c assume c: "cache_ok c"
  then obtain m where m: "memories c idleChatPlaceholder = Some m" by (auto simp: cache_ok_def idleChatPlaceholder_def)
  have 0: "chatsCache c i \<noteq> Some idleChatPlaceholder" for i using cacheD(1) [OF c] by (auto simp: idleChatPlaceholder_def)
  have "set_memory idleChatPlaceholder f c = (Inr (), c\<lparr>memories := (memories c)(idleChatPlaceholder \<mapsto> f m)\<rparr>)"
    by (simp add: set_memory_def bindM_def memory_at_run [OF m] modifyM_def)
  moreover have "cache_ok (c\<lparr>memories := (memories c)(idleChatPlaceholder \<mapsto> f m)\<rparr>)"
    using c 0 unfolding cache_ok_def by (auto simp: idleChatPlaceholder_def)
  ultimately show "\<exists>x c'. set_memory idleChatPlaceholder f c = (x, c') \<and> x \<noteq> Inl undefined_behaviour \<and> cache_ok c' \<and>
    (\<forall>a. active_ok c a \<longrightarrow> active_ok c' a) \<and> (\<forall>a. P a \<longrightarrow> P a)"
    using 0 by (fastforce simp: active_ok_def)
qed

lemma addMessage_safe [ui_safe]: "safe (ui_at P) (addMessage text)"
  unfolding addMessage_def by (intro safes ui_safe on_map_simps) (simp_all add: placeholder_safe)

lemma set_active_safe:
  assumes "\<And>m. chat_Id (mem_ChatInfo (f m)) = chat_Id (mem_ChatInfo m) \<and> (mem_MessagesLoaded m \<longrightarrow> mem_MessagesLoaded (f m))"
  shows "safe (ui_at (\<lambda>a. a = Some p)) (liftcache (set_memory p f) :: ('w, unit) uiM)"
  unfolding safe_def
proof (intro allI impI)
  fix s :: "'w UI" assume s: "ui_at (\<lambda>a. a = Some p) s"
  then obtain m where m: "currentActiveChat s = Some p" "memories (cache s) p = Some m"
    using active_memory [of s] by (auto simp: ui_with_def)
  have c: "cache_ok (cache s)" "active_ok (cache s) (Some p)" using s m by (simp_all add: ui_with_def ui_ok_def)
  let ?c = "(cache s)\<lparr>memories := (memories (cache s))(p \<mapsto> f m)\<rparr>"
  have "p < next_memory (cache s)" using c(1) m(2) unfolding cache_ok_def by (metis leI option.distinct(1))
  then have "cache_ok ?c" using c(1) m(2) assms unfolding cache_ok_def by (auto, metis option.inject)
  moreover have "active_ok ?c (Some p)" using c(2) m(2) assms unfolding active_ok_def by auto
  moreover have "liftcache (set_memory p f) s = (Inr (), s\<lparr>cache := ?c\<rparr>)"
    by (simp add: liftcache_def set_memory_def bindM_def memory_at_run [OF m(2)] modifyM_def)
  ultimately show "ui_at (\<lambda>a. a = Some p) (snd (liftcache (set_memory p f) s)) \<and>
      fst (liftcache (set_memory p f) s) \<noteq> Inl undefined_behaviour"
    using s m(1) by (simp add: ui_with_def ui_ok_def selection_ok_def history_ok_def)
qed

lemma toggle_safe [ui_safe]: "safe (ui_with R) (toggleChatListMode b)"
  unfolding toggleChatListMode_def
  by (rule safe_update) (auto simp: toggle_def Let_def selection_ok_def history_ok_def)

lemma scroll_safe [ui_safe]: "safe (ui_with R) (adjustChatMessageScroll d)"
  unfolding adjustChatMessageScroll_def
  by (intro safes ui_safe safe_update) (auto simp: selection_ok_def history_ok_def Let_def)

lemma clearUnread_safe [ui_safe]: "safe (ui_with R) (clearUnreadMessagesForChatId C i)"
  unfolding clearUnreadMessagesForChatId_def
  by (rule safe_update) (auto simp: selection_ok_def history_ok_def Let_def)

section \<open>The network\<close>

lemma transport_safe [ui_safe]: "safe (ui_with R) transport_object"
  by (rule safe_readonly) (auto simp: transport_object_def monad_defs ui_ok_def proto_ok_def)

lemma ui_proto: "ui_with R s \<Longrightarrow> activeTransport s = Some t \<Longrightarrow> proto_ok {t} p \<Longrightarrow> ui_with R (s\<lparr>proto := p\<rparr>)"
  by (auto simp: ui_with_def ui_ok_def selection_ok_def history_ok_def)

lemma ask_safe:
  fixes C :: "('k, 'w) ClientEnv"
  assumes "recv_bounded (sockets (host C))"
  shows "psafe (ui_with R) (ask C q)" and "psafe (ui_with R) (askList C q)"
proof -
  have t: "\<exists>t. activeTransport s = Some t \<and> proto_ok {t} (proto s)" if "ui_with R s" for s :: "'w UI"
    using that by (simp add: ui_with_def ui_ok_def)
  have 1: "safe (ui_with R) (\<lambda>s. case Protocol_SendRequest (host C) sk r (proto s) of (x, p) \<Rightarrow> (x, s\<lparr>proto := p\<rparr>))" for sk r
  proof (unfold safe_def, intro allI impI)
    fix s :: "'w UI" assume s: "ui_with R s"
    obtain t where t: "activeTransport s = Some t" "proto_ok {t} (proto s)" using t [OF s] by blast
    obtain x p where x: "Protocol_SendRequest (host C) sk r (proto s) = (x, p)" by fastforce
    have "x \<noteq> Inl undefined_behaviour \<and> proto_ok {t} p"
      using requests_safe(2) [OF assms, of "{t}" sk r] t(2) x by (auto simp: safe_def)
    then show "ui_with R (snd (case Protocol_SendRequest (host C) sk r (proto s) of (x, p) \<Rightarrow> (x, s\<lparr>proto := p\<rparr>))) \<and>
      fst (case Protocol_SendRequest (host C) sk r (proto s) of (x, p) \<Rightarrow> (x, s\<lparr>proto := p\<rparr>)) \<noteq> Inl undefined_behaviour"
      using ui_proto [OF s t(1)] x by simp
  qed
  show "psafe (ui_with R) (ask C q)" unfolding ask_def by (intro psafes ui_safe 1)
  have 2: "psafe (ui_with R) (\<lambda>s. case Protocol_SendRequestList (host C) sk r f (proto s) of None \<Rightarrow> None
      | Some (x, p) \<Rightarrow> Some (x, s\<lparr>proto := p\<rparr>))" for sk r f
  proof (rule psafeI)
    fix s s' :: "'w UI" and x assume s: "ui_with R s" and r: "(case Protocol_SendRequestList (host C) sk r f (proto s) of None \<Rightarrow> None
      | Some (x, p) \<Rightarrow> Some (x, s\<lparr>proto := p\<rparr>)) = Some (x, s')"
    obtain t where t: "activeTransport s = Some t" "proto_ok {t} (proto s)" using t [OF s] by blast
    obtain p where p: "Protocol_SendRequestList (host C) sk r f (proto s) = Some (x, p)" "s' = s\<lparr>proto := p\<rparr>"
      using r by (auto split: option.splits)
    show "x \<noteq> Inl undefined_behaviour \<and> ui_with R s'"
      using SendRequestList_safe [OF p(1) t(2) assms] ui_proto [OF s t(1)] p(2) by blast
  qed
  show "psafe (ui_with R) (askList C q)" unfolding askList_def by (intro psafes ui_safe 2)
qed

section \<open>Fetching and selecting\<close>

abbreviation unloaded :: "chatid_t \<Rightarrow> Cache \<Rightarrow> nat option \<Rightarrow> bool" where
  "unloaded i c a \<equiv> \<forall>p m. chatsCache c i = Some p \<longrightarrow> memories c p = Some m \<longrightarrow> \<not> mem_MessagesLoaded m"

text \<open>Replacing or removing a memory that is not loaded does not touch the active one.\<close>

lemma unloaded_not_active:
  assumes "unloaded i c a" and "active_ok c (Some p)" and "chatsCache c i = Some q"
  shows "p \<noteq> q \<or> p = idleChatPlaceholder"
  using assms by (auto simp: active_ok_def)

lemma create_run:
  assumes "ui_with (unloaded (chat_Id chat)) s"
  shows "\<exists>s'. liftcache (createChatMemory chat) s = (Inr (next_memory (cache s)), s') \<and> ui_ok s' \<and>
     chatsCache (cache s') (chat_Id chat) = Some (next_memory (cache s)) \<and> currentActiveChat s' = currentActiveChat s \<and>
     cachedChatList s' = cachedChatList s"
proof -
  have c: "cache_ok (cache s)" "active_ok (cache s) (currentActiveChat s)" using assms by (simp_all add: ui_with_def ui_ok_def)
  obtain c' where c': "createChatMemory chat (cache s) = (Inr (next_memory (cache s)), c')" "cache_ok c'"
    "chatsCache c' = (chatsCache (cache s))(chat_Id chat \<mapsto> next_memory (cache s))"
    "memories c' = (memories (cache s))(next_memory (cache s) \<mapsto>
       \<lparr>mem_ChatInfo = chat, mem_Members = [], mem_Messages = [], mem_MessagesLoaded = False\<rparr>)"
    using createChatMemory_run [OF c(1)] by blast
  have "active_ok c' (currentActiveChat s)"
  proof -
    obtain p where p: "currentActiveChat s = Some p" "p = idleChatPlaceholder \<or>
      (\<exists>i m. chatsCache (cache s) i = Some p \<and> memories (cache s) p = Some m \<and> mem_MessagesLoaded m)"
      using c(2) by (auto simp: active_ok_def)
    show ?thesis
    proof (cases "p = idleChatPlaceholder")
      case False
      then obtain i m where i: "chatsCache (cache s) i = Some p" "memories (cache s) p = Some m" "mem_MessagesLoaded m"
        using p(2) by blast
      have "i \<noteq> chat_Id chat" using i assms by (auto simp: ui_with_def)
      moreover have "p \<noteq> next_memory (cache s)" using cacheD(3) [OF c(1) i(1)] by simp
      ultimately show ?thesis using i p(1) unfolding active_ok_def c'(3,4) by auto
    qed (simp add: active_ok_def p(1))
  qed
  then show ?thesis
    using assms c' by (auto simp: liftcache_def ui_with_def ui_ok_def selection_ok_def history_ok_def)
qed

lemma remove_run:
  assumes "ui_with (unloaded i) s"
  shows "\<exists>s'. liftcache (removeChatMemory i) s = (Inr (), s') \<and> ui_ok s'"
proof -
  have c: "cache_ok (cache s)" "active_ok (cache s) (currentActiveChat s)" using assms by (simp_all add: ui_with_def ui_ok_def)
  obtain c' where c': "removeChatMemory i (cache s) = (Inr (), c')" "cache_ok c'" "chatsCache c' = (chatsCache (cache s))(i := None)"
    "memories c' = (case chatsCache (cache s) i of None \<Rightarrow> memories (cache s) | Some p \<Rightarrow> (memories (cache s))(p := None))"
    using removeChatMemory_run [OF c(1)] by blast
  have "active_ok c' (currentActiveChat s)"
  proof -
    obtain p where p: "currentActiveChat s = Some p" "p = idleChatPlaceholder \<or>
      (\<exists>j m. chatsCache (cache s) j = Some p \<and> memories (cache s) p = Some m \<and> mem_MessagesLoaded m)"
      using c(2) by (auto simp: active_ok_def)
    show ?thesis
    proof (cases "p = idleChatPlaceholder")
      case False
      then obtain j m where j: "chatsCache (cache s) j = Some p" "memories (cache s) p = Some m" "mem_MessagesLoaded m"
        using p(2) by blast
      have "j \<noteq> i" "chatsCache (cache s) i \<noteq> Some p" using j assms by (auto simp: ui_with_def)
      then show ?thesis using j p(1) unfolding active_ok_def c'(3,4) by (auto split: option.split)
    qed (simp add: active_ok_def p(1))
  qed
  then show ?thesis
    using assms c' by (auto simp: liftcache_def ui_with_def ui_ok_def selection_ok_def history_ok_def)
qed

lemma cache_listed_safe: "safe ui_ok (cache_listed C r)"
  unfolding safe_def
proof (intro allI impI)
  fix s :: "'a UI" assume s: "ui_ok s"
  let ?c = "CurrentChat C r"
  show "ui_ok (snd (cache_listed C r s)) \<and> fst (cache_listed C r s) \<noteq> Inl undefined_behaviour"
  proof (cases "chatsCache (cache s) (chat_Id ?c)")
    case None
    then have "ui_with (unloaded (chat_Id ?c)) s" using s by (simp add: ui_with_def)
    from create_run [OF this] show ?thesis
      using None s by (auto simp: cache_listed_def liftcache_def bindM_def ret_def)
  qed (use s in \<open>simp add: cache_listed_def liftcache_def bindM_def ret_def\<close>)
qed

lemma loaded_run:
  assumes "ui_with (\<lambda>c _. chatsCache c i = Some p) s"
  shows "\<exists>s'. liftcache (set_memory p (\<lambda>m. m\<lparr>mem_MessagesLoaded := True\<rparr>)) s = (Inr (), s') \<and> ui_ok s' \<and>
     active_ok (cache s') (Some p)"
proof -
  have c: "cache_ok (cache s)" "chatsCache (cache s) i = Some p" using assms by (simp_all add: ui_with_def ui_ok_def)
  then obtain m where m: "memories (cache s) p = Some m" "chat_Id (mem_ChatInfo m) = i" using cacheD(2) by blast
  let ?c = "(cache s)\<lparr>memories := (memories (cache s))(p \<mapsto> m\<lparr>mem_MessagesLoaded := True\<rparr>)\<rparr>"
  have "cache_ok ?c" using c m cacheD(3) [OF c] cache_inj [OF c(1)] unfolding cache_ok_def by auto
  moreover have "active_ok ?c a" if "active_ok (cache s) a" for a using that by (auto simp: active_ok_def)
  moreover have "active_ok ?c (Some p)" using c(2) by (auto simp: active_ok_def)
  moreover have "liftcache (set_memory p (\<lambda>m. m\<lparr>mem_MessagesLoaded := True\<rparr>)) s = (Inr (), s\<lparr>cache := ?c\<rparr>)"
    by (simp add: liftcache_def set_memory_def bindM_def memory_at_run [OF m(1)] modifyM_def)
  ultimately show ?thesis using assms by (simp add: ui_with_def ui_ok_def selection_ok_def history_ok_def)
qed

definition loading :: "('k, 'w) ClientEnv \<Rightarrow> Chat \<Rightarrow> Responce list \<Rightarrow> Responce list \<Rightarrow> nat \<Rightarrow> ('w, nat) uiM" where
  "loading C chat rs ms p =
     thenM (forEach (\<lambda>r. liftcache (storeMessageToChat (chat_Id chat) (CurrentMessage C r) False)) rs)
     (thenM (forEach (\<lambda>r. liftcache (addMemberToChat (chat_Id chat) (CurrentUser C r))) ms)
     (thenM (liftcache (set_memory p (\<lambda>m. m\<lparr>mem_MessagesLoaded := True\<rparr>))) (ret p)))"

lemma with_chat_returns:
  assumes "ui_with R s" and "\<And>m. chat_Id (mem_ChatInfo (f m)) = chat_Id (mem_ChatInfo m)"
  shows "\<exists>s'. liftcache (with_chat i f) s = (Inr (), s')"
proof -
  have "cache_ok (cache s)" using assms(1) by (simp add: ui_with_def ui_ok_def)
  from with_chat_run [OF this, of f i] assms(2) show ?thesis by (auto simp: liftcache_def)
qed

lemma forEach_run:
  assumes "\<And>x s. I s \<Longrightarrow> \<exists>s'. f x s = (Inr (), s') \<and> I s'"
  shows "I s \<Longrightarrow> \<exists>s'. forEach f xs s = (Inr (), s') \<and> I s'"
proof (induction xs arbitrary: s)
  case (Cons x xs)
  then obtain s1 where "f x s = (Inr (), s1)" "I s1" using assms by blast
  then show ?case using Cons.IH [of s1] by (simp add: thenM_def bindM_def)
qed (simp add: ret_def)

lemma loading_run:
  fixes C :: "('k, 'w) ClientEnv"
  assumes "ui_with (\<lambda>c _. chatsCache c (chat_Id chat) = Some p) s"
  shows "\<exists>s'. loading C chat rs ms p s = (Inr p, s') \<and> ui_ok s' \<and> active_ok (cache s') (Some p)"
proof -
  let ?I = "ui_with (\<lambda>c _. chatsCache c (chat_Id chat) = Some p)"
  have k: "\<exists>s'. m s = (Inr (), s') \<and> ?I s'" if "?I s" "\<exists>s'. m s = (Inr (), s')" "safe ?I m" for s and m :: "('w, unit) uiM"
    using that by (auto simp: safe_def dest!: spec [of _ s])
  have s: "\<exists>s'. liftcache (storeMessageToChat i x b) s = (Inr (), s') \<and> ?I s'" if "?I s" for i x b and s :: "'w UI"
    by (rule k [OF that _ cache_messages_safe(1) [OF on_map_simps(2)]])
      (unfold storeMessageToChat_def, rule with_chat_returns [OF that], simp)
  have m: "\<exists>s'. liftcache (addMemberToChat i x) s = (Inr (), s') \<and> ?I s'" if "?I s" for i x and s :: "'w UI"
    by (rule k [OF that _ cache_messages_safe(3) [OF on_map_simps(2)]])
      (unfold addMemberToChat_def, rule with_chat_returns [OF that], simp)
  obtain s1 where s1: "forEach (\<lambda>r. liftcache (storeMessageToChat (chat_Id chat) (CurrentMessage C r) False)) rs s = (Inr (), s1)" "?I s1"
    using forEach_run [where I = ?I and f = "\<lambda>r. liftcache (storeMessageToChat (chat_Id chat) (CurrentMessage C r) False)", OF s assms] by blast
  obtain s2 where s2: "forEach (\<lambda>r. liftcache (addMemberToChat (chat_Id chat) (CurrentUser C r))) ms s1 = (Inr (), s2)" "?I s2"
    using forEach_run [where I = ?I and f = "\<lambda>r. liftcache (addMemberToChat (chat_Id chat) (CurrentUser C r))", OF m s1(2)] by blast
  obtain s3 where "liftcache (set_memory p (\<lambda>m. m\<lparr>mem_MessagesLoaded := True\<rparr>)) s2 = (Inr (), s3)" "ui_ok s3" "active_ok (cache s3) (Some p)"
    using loaded_run [OF s2(2)] by blast
  then show ?thesis using s1(1) s2(1) by (simp add: loading_def thenM_def bindM_def ret_def)
qed

lemma fetch_valid:
  fixes C :: "('k, 'w) ClientEnv"
  assumes "recv_bounded (sockets (host C))"
  shows "pvalid (ui_with (unloaded (chat_Id chat))) (fetchChatHistoryAndMembers C chat)
     (\<lambda>p s. ui_ok s \<and> active_ok (cache s) (Some p)) (\<lambda>e s. e \<noteq> undefined_behaviour \<and> ui_ok s)"
proof -
  let ?J = "ui_with (unloaded (chat_Id chat))"
  have b: "triple ?J (bindM (liftcache (createChatMemory chat)) (loading C chat rs ms))
     (\<lambda>p s. ui_ok s \<and> active_ok (cache s) (Some p)) (\<lambda>e s. False)" for rs ms
    unfolding triple_def
  proof (intro allI impI)
    fix s :: "'w UI" assume "?J s"
    from create_run [OF this] obtain p s1 where s1: "liftcache (createChatMemory chat) s = (Inr p, s1)" "ui_ok s1"
      "chatsCache (cache s1) (chat_Id chat) = Some p" by blast
    then obtain s2 where "loading C chat rs ms p s1 = (Inr p, s2)" "ui_ok s2" "active_ok (cache s2) (Some p)"
      using loading_run [of chat p s1 C rs ms] by (auto simp: ui_with_def)
    then show "case bindM (liftcache (createChatMemory chat)) (loading C chat rs ms) s of (Inl e, s') \<Rightarrow> False
      | (Inr p, s') \<Rightarrow> ui_ok s' \<and> active_ok (cache s') (Some p)"
      using s1 by (simp add: bindM_def)
  qed
  have h: "triple (\<lambda>s. e \<noteq> undefined_behaviour \<and> ?J s) (if is_runtime_error e
      then thenM (liftcache (removeChatMemory (chat_Id chat))) (throw e) else throw e :: ('w, nat) uiM)
     (\<lambda>p s. ui_ok s \<and> active_ok (cache s) (Some p)) (\<lambda>e s. e \<noteq> undefined_behaviour \<and> ui_ok s)" for e
    unfolding triple_def
  proof (intro allI impI)
    fix s :: "'w UI" assume s: "e \<noteq> undefined_behaviour \<and> ?J s"
    then obtain s' where "liftcache (removeChatMemory (chat_Id chat)) s = (Inr (), s')" "ui_ok s'" using remove_run by blast
    then show "case (if is_runtime_error e then thenM (liftcache (removeChatMemory (chat_Id chat))) (throw e) else throw e) s of
        (Inl e, s') \<Rightarrow> e \<noteq> undefined_behaviour \<and> ui_ok s' | (Inr p, s') \<Rightarrow> ui_ok s' \<and> active_ok (cache s') (Some p)"
      using s by (simp add: thenM_def bindM_def throw_def ui_with_def)
  qed
  have f: "fetchChatHistoryAndMembers C chat =
    ptry (pbind (askList C (\<lambda>token. CreateGetChatHistory token (chat_Id chat))) (\<lambda>rs.
        pbind (askList C (\<lambda>token. CreateGetChatMembers token (chat_Id chat))) (\<lambda>ms.
          plift (bindM (liftcache (createChatMemory chat)) (loading C chat rs ms)))))
      (\<lambda>e. plift (if is_runtime_error e then thenM (liftcache (removeChatMemory (chat_Id chat))) (throw e) else throw e))"
    by (simp add: fetchChatHistoryAndMembers_def loading_def [abs_def])
  have "pvalid ?J (plift (bindM (liftcache (createChatMemory chat)) (loading C chat rs ms)))
     (\<lambda>p s. ui_ok s \<and> active_ok (cache s) (Some p)) (\<lambda>e s. e \<noteq> undefined_behaviour \<and> ?J s)" for rs ms
    by (rule pvalid_weaken [OF pvalid_plift [OF b]]) simp_all
  then show ?thesis
    unfolding f by (intro pvalid_ptry [where R = "\<lambda>e s. e \<noteq> undefined_behaviour \<and> ?J s", OF _ pvalid_plift [OF h]]
        pvalid_pbind [OF pvalid_psafe [OF ask_safe(2) [OF assms]]])
qed

lemma load_valid:
  fixes C :: "('k, 'w) ClientEnv"
  assumes "recv_bounded (sockets (host C))"
  shows "psafe ui_ok (loadAndSelectChat C chat)"
proof (rule psafe_pvalid)
  let ?E = "\<lambda>e s. e \<noteq> undefined_behaviour \<and> ui_ok s"
  let ?x = "\<lambda>x. case x of Some p \<Rightarrow> ui_with (\<lambda>c _. active_ok c (Some p)) | None \<Rightarrow> ui_with (unloaded (chat_Id chat))"
  have 1: "triple ui_ok (cached_and_loaded (chat_Id chat) :: ('w, nat option) uiM) ?x ?E"
    unfolding triple_def
  proof (intro allI impI)
    fix s :: "'w UI" assume "ui_ok s"
    with cached_run(2) [OF this, of "chat_Id chat"] show "case cached_and_loaded (chat_Id chat) s of (Inl e, s') \<Rightarrow> ?E e s' | (Inr x, s') \<Rightarrow> ?x x s'"
      by (auto simp: ui_with_def split: option.splits)
  qed
  have 2: "pvalid (?x x) (case x of Some p \<Rightarrow> pret p | None \<Rightarrow> fetchChatHistoryAndMembers C chat)
     (\<lambda>p s. ui_ok s \<and> active_ok (cache s) (Some p)) ?E" for x
  proof (cases x)
    case (Some p)
    have "triple (ui_with (\<lambda>c _. active_ok c (Some p))) (ret p) (\<lambda>p s. ui_ok s \<and> active_ok (cache s) (Some p)) ?E"
      by (simp add: triple_def ret_def ui_with_def)
    from pvalid_plift [OF this] show ?thesis by (simp add: Some)
  next
    case None
    show ?thesis unfolding None option.case by (rule fetch_valid [OF assms])
  qed
  have 3: "triple (\<lambda>s. ui_ok s \<and> active_ok (cache s) (Some p)) (thenM (modifyM (\<lambda>s. s\<lparr>currentActiveChat := Some p\<rparr>))
     (thenM (clearUnreadMessagesForChatId C (chat_Id chat)) (thenM (modifyM (\<lambda>s. s\<lparr>messageScrollOffset := 0\<rparr>)) (ret True)))) (\<lambda>_. ui_ok) ?E" for p
    by (simp add: triple_def monad_defs clearUnreadMessagesForChatId_def Let_def ui_ok_def selection_ok_def history_ok_def)
  have 4: "safe ui_ok (if e = disconnected_error then thenM (modifyM (\<lambda>s. s\<lparr>isApplicationRunning := False\<rparr>)) (ret True)
      else if is_runtime_error e then thenM (addMessage t) (ret False) else throw e)" if "e \<noteq> undefined_behaviour" for e t
    unfolding ui_at_True [symmetric]
    by (intro safes ui_safe safe_update that) (auto simp: selection_ok_def history_ok_def)
  show "pvalid ui_ok (loadAndSelectChat C chat) (\<lambda>_. ui_ok) ?E"
    unfolding loadAndSelectChat_def
  proof (rule pvalid_ptry [where R = ?E])
    show "pvalid ui_ok (pbind (plift (cached_and_loaded (chat_Id chat))) (\<lambda>cached.
         pbind (case cached of Some p \<Rightarrow> pret p | None \<Rightarrow> fetchChatHistoryAndMembers C chat) (\<lambda>targetChatMemory.
           plift (thenM (modifyM (\<lambda>s. s\<lparr>currentActiveChat := Some targetChatMemory\<rparr>))
             (thenM (clearUnreadMessagesForChatId C (chat_Id chat))
             (thenM (modifyM (\<lambda>s. s\<lparr>messageScrollOffset := 0\<rparr>)) (ret True))))))) (\<lambda>_. ui_ok) ?E"
      by (rule pvalid_pbind [OF pvalid_plift [OF 1]], rule pvalid_pbind [OF 2], rule pvalid_plift [OF 3])
    fix e
    show "pvalid (?E e) (plift (if e = disconnected_error
          then thenM (modifyM (\<lambda>s. s\<lparr>isApplicationRunning := False\<rparr>)) (ret True)
          else if is_runtime_error e then thenM (addMessage (txt_load_error @ exn_what e)) (ret False)
          else throw e)) (\<lambda>_. ui_ok) ?E"
      using pvalid_psafe [OF psafe_plift [OF 4]] unfolding pvalid_def by blast
  qed
qed

section \<open>Every key\<close>

lemma safe_ui: "safe (ui_at (\<lambda>_. True)) m \<Longrightarrow> safe ui_ok m" by (simp add: ui_at_True)

lemmas ui_ok_simps = selection_ok_def history_ok_def ui_ok_def

lemma ok_update:
  fixes f :: "'w UI \<Rightarrow> 'w UI"
  assumes "\<And>s. cache (f s) = cache s" "\<And>s. currentActiveChat (f s) = currentActiveChat s \<or> currentActiveChat (f s) = Some idleChatPlaceholder"
    "\<And>s. proto (f s) = proto s" "\<And>s. activeTransport (f s) = activeTransport s"
    "\<And>s. selection_ok s \<Longrightarrow> selection_ok (f s)" "\<And>s. history_ok s \<Longrightarrow> history_ok (f s)"
  shows "safe ui_ok (modifyM f)"
proof (rule safe_modifyM)
  fix s :: "'w UI" assume s: "ui_ok s"
  have "active_ok (cache s) (currentActiveChat (f s))" using assms(2) [of s] s by (auto simp: ui_ok_def active_ok_def)
  then show "ui_ok (f s)" using s by (simp add: ui_ok_def assms)
qed

lemma on_active_safe:
  fixes f :: "nat \<Rightarrow> ('w, 'a) uiM"
  assumes "\<And>p. safe (ui_at (\<lambda>a. a = Some p)) (f p)"
  shows "safe ui_ok (bindM activeChat f)"
  unfolding safe_def
proof (intro allI impI)
  fix s :: "'w UI" assume s: "ui_ok s"
  then obtain p where p: "currentActiveChat s = Some p" "activeChat s = (Inr p, s)" using active_run by blast
  show "ui_ok (snd (bindM activeChat f s)) \<and> fst (bindM activeChat f s) \<noteq> Inl undefined_behaviour"
    using assms [of p] s p by (auto simp: safe_def bindM_def ui_with_def)
qed

lemma memory_at_active: "safe (ui_at (\<lambda>a. a = Some p)) (liftcache (memory_at p))"
  using active_memory by (fastforce simp: safe_def ui_with_def liftcache_def memory_at_def monad_defs)

lemma plain_safe [ui_safe]:
  "safe ui_ok (addMessage text)" "safe ui_ok (appendMessageToChatUnlocked m)" "safe ui_ok activeMemory"
  "safe ui_ok (liftcache (storeMessageToChat i m b))" "safe ui_ok (toggleChatListMode e)" "safe ui_ok (adjustChatMessageScroll d)"
  "safe ui_ok out_of_chat"
  by (rule safe_ui, intro ui_safe on_map_simps)+ (simp add: out_of_chat_def safes)

lemma asks_safe:
  assumes "recv_bounded (sockets (host C))"
  shows "psafe ui_ok (ask C q)" and "psafe ui_ok (askList C q)"
  using ask_safe [OF assms, of "\<lambda>_ _. True"] by (simp_all add: ui_at_True)

lemma psafe_pair [psafes]: "(\<And>a b. psafe I (f a b)) \<Longrightarrow> psafe I (case x of (a, b) \<Rightarrow> f a b)"
  by (cases x) simp

lemma psafe_list [psafes]:
  "(xs = [] \<Longrightarrow> psafe I m) \<Longrightarrow> (\<And>y ys. xs = y # ys \<Longrightarrow> psafe I (f y ys)) \<Longrightarrow> psafe I (case xs of [] \<Rightarrow> m | y # ys \<Rightarrow> f y ys)"
  by (cases xs) simp_all

lemma psafe_let [psafes]: "psafe I (f x) \<Longrightarrow> psafe I (let y = x in f y)"
  by simp

lemma say_safe [psafes]: "psafe ui_ok (say t b)"
  unfolding say_def by (intro psafes safes ui_safe)

lemma addons_safe:
  assumes "recv_bounded (sockets (host C))"
  shows "psafe ui_ok (fetchAndCacheAddonCommands C)"
  unfolding fetchAndCacheAddonCommands_def
  by (intro psafes safes asks_safe [OF assms] ok_update) (simp_all add: selection_ok_def history_ok_def)

lemma chatlist_safe:
  assumes "recv_bounded (sockets (host C))"
  shows "psafe ui_ok (fetchAndCacheChatList C)"
  unfolding fetchAndCacheChatList_def
  by (intro psafes safes asks_safe [OF assms] cache_listed_safe ok_update) (auto simp: selection_ok_def history_ok_def Let_def)

lemma greet_safe:
  assumes "recv_bounded (sockets (host C))"
  shows "psafe ui_ok (greet C name r)"
  unfolding greet_def
  by (intro psafes safes ui_safe addons_safe [OF assms] chatlist_safe [OF assms] ok_update)
    (auto simp: selection_ok_def history_ok_def toggle_def Let_def)

lemma commands_safe:
  assumes "recv_bounded (sockets (host C))"
  shows "psafe ui_ok (authCommand C name args)" and "psafe ui_ok (logoutCommand C)" and "psafe ui_ok (chatsCommand C)"
    and "psafe ui_ok (chatCommand C args)" and "psafe ui_ok membersCommand" and "psafe ui_ok (groupCommand C name args)"
  unfolding authCommand_def logoutCommand_def chatsCommand_def chatCommand_def membersCommand_def groupCommand_def
  by (intro psafes safes ui_safe asks_safe [OF assms] greet_safe [OF assms] addons_safe [OF assms] chatlist_safe [OF assms]
      load_valid [OF assms] ok_update; auto simp: selection_ok_def history_ok_def toggle_def Let_def)+

lemma refresh_safe:
  assumes "recv_bounded (sockets (host C))"
  shows "psafe ui_ok (refreshCommand C)"
  unfolding refreshCommand_def
  by (intro psafes safes ui_safe asks_safe [OF assms] on_active_safe set_active_safe memory_at_active on_map_simps; simp)

lemma processCommand_safe:
  assumes "recv_bounded (sockets (host C))" and "line = [] \<or> stream_tokens line \<noteq> []"
  shows "psafe ui_ok (TerminalUI_processCommand C line)"
  unfolding TerminalUI_processCommand_def
  using assms(2) by (intro psafes safes ui_safe commands_safe [OF assms(1)] refresh_safe [OF assms(1)] ok_update)
    (auto simp: selection_ok_def history_ok_def)

lemma sendLine_safe:
  assumes "recv_bounded (sockets (host C))"
  shows "psafe ui_ok (sendLine C line)"
  unfolding sendLine_def by (intro psafes safes ui_safe asks_safe [OF assms])

lemma psafe_gets:
  assumes "\<And>s. I s \<Longrightarrow> P (g s)" and "\<And>x. P x \<Longrightarrow> psafe I (f x)"
  shows "psafe I (pbind (plift (getsM g)) f)"
  using assms psafeD by (fastforce simp: psafe_def pbind_def plift_def getsM_def)

lemma enterChatList_safe:
  fixes C :: "('k, 'w) ClientEnv"
  assumes "recv_bounded (sockets (host C))"
  shows "psafe ui_ok (enterChatList C)"
  unfolding enterChatList_def
proof (rule psafe_gets [where P = "\<lambda>(chats, i). chats \<noteq> [] \<longrightarrow> 0 \<le> i \<and> i < int (length chats)"])
  fix s :: "'w UI" assume "ui_ok s"
  then show "case (cachedChatList s, selectedChatListIndex s) of (chats, i) \<Rightarrow> chats \<noteq> [] \<longrightarrow> 0 \<le> i \<and> i < int (length chats)"
    by (simp add: ui_ok_def selection_ok_def)
next
  fix x :: "Chat list \<times> int" assume x: "case x of (chats, i) \<Rightarrow> chats \<noteq> [] \<longrightarrow> 0 \<le> i \<and> i < int (length chats)"
  obtain chats i where xi: "x = (chats, i)" by fastforce
  show "psafe ui_ok (case x of (chats, i) \<Rightarrow>
       if chats = [] then pret ()
       else if \<not> (0 \<le> i \<and> i < int (length chats)) then plift (throw undefined_behaviour)
       else pthen (plift (toggleChatListMode False)) (pthen (loadAndSelectChat C (chats ! nat i)) (pret ())))"
    using x unfolding xi prod.case by (intro psafes safes ui_safe load_valid [OF assms]) auto
qed

lemma history_push_safe:
  "safe ui_ok (thenM (modifyM (\<lambda>s. s\<lparr>userInputBuffer := [], commandHistoryIndex := - 1, commandHistoryDraft := []\<rparr>)) (push_history l))"
proof -
  have "safe ui_ok (thenM (modifyM f) (modifyM g))" if "\<And>s. ui_ok s \<Longrightarrow> ui_ok (g (f s))" for f g :: "'a UI \<Rightarrow> 'a UI"
    using that by (simp add: safe_def monad_defs)
  then show ?thesis
    unfolding push_history_def by (auto simp: ui_ok_def selection_ok_def history_ok_def Let_def)
qed

lemma psafe_pthen_plift: "pthen (plift m) (pthen (plift n) k) = pthen (plift (thenM m n)) k"
  by (auto simp: pthen_def pbind_def plift_def thenM_def bindM_def fun_eq_iff split: prod.split sum.split)

lemma hookEnter_safe:
  assumes "recv_bounded (sockets (host C))"
  shows "psafe ui_ok (TerminalUI_hookEnter C)"
proof -
  have "stream_tokens line \<noteq> []" if "line \<noteq> []" "hd line = CHR ''/''" for line
    using that by (intro stream_tokens_start) (simp_all add: isspace_def)
  then show ?thesis
    unfolding TerminalUI_hookEnter_def psafe_pthen_plift
    by (intro psafes safes ui_safe history_push_safe enterChatList_safe [OF assms] sendLine_safe [OF assms]
        processCommand_safe [OF assms] ok_update) (auto simp: selection_ok_def history_ok_def)
qed

lemma keys_safe [ui_safe]:
  "safe ui_ok (hookInputChar c)" "safe ui_ok hookBackspace" "safe ui_ok hookArrowUp" "safe ui_ok hookArrowDown"
  "safe ui_ok hookArrowUpShift" "safe ui_ok hookArrowDownShift" "safe ui_ok hookEscape"
proof -
  show "safe ui_ok (hookInputChar c)" "safe ui_ok hookBackspace" "safe ui_ok hookArrowUp" "safe ui_ok hookArrowDown" "safe ui_ok hookEscape"
    unfolding hookInputChar_def hookBackspace_def hookArrowUp_def hookArrowDown_def hookEscape_def
    by (intro safes ui_safe ok_update; auto simp: leave_history_def selection_ok_def history_ok_def Let_def)+
  show "safe ui_ok hookArrowUpShift" "safe ui_ok hookArrowDownShift"
    by (auto simp: safe_def hookArrowUpShift_def hookArrowDownShift_def navigate_def navigateCommandHistory_def show_command_def
        Let_def ui_ok_def selection_ok_def history_ok_def)
qed

section \<open>The history implements the interface\<close>

definition ui_usable :: "'w UI \<Rightarrow> bool" where
  "ui_usable s \<longleftrightarrow> currentUiMode s = ModeChat \<and> history_ok s"

interpretation ui: line_history ui_usable userInputBuffer commandHistory commandHistoryIndex commandHistoryDraft
  "key_step (navigateCommandHistory (- 1))" "key_step (navigateCommandHistory 1)"
  by unfold_locales
    (auto simp: key_step_def ui_usable_def history_ok_def navigateCommandHistory_def show_command_def Let_def nth_last_int)

end
