(* ===== verification/Client.thy ===== *)
theory Client
  imports TerminalUI_Laws Backend_Chat
begin

text \<open>
  \<open>TeleCrap.Client/src/TeleCrap.Client.cpp\<close>: what the client does with an update, and the thread that
  polls the server for updates.
\<close>

section \<open>Updates\<close>

definition processUpdate :: "Update \<Rightarrow> ('w, unit) uiM" where
  "processUpdate update =
     (case upd_body update of
        MessageSent m \<Rightarrow>
          (if chat_Id (msg_DestChat m) = 0 \<or> c_str (chat_Name (msg_DestChat m)) = ''server_alert''
           then addMessage (''['' @ c_str (user_Name (msg_From m)) @ ''] '' @ c_str (msg_Text m))
           else thenM (liftcache (storeMessageToChat (chat_Id (msg_DestChat m)) m True))
                  (appendMessageToChatUnlocked m))
      | UserJoined chat user \<Rightarrow>
          thenM (liftcache (addMemberToChat (chat_Id chat) user)) (addMessage (c_str (user_Name user) @ txt_joined))
      | UserKicked e \<Rightarrow> onUserKickedFromChat (ev_TargetUser e)
      | UserBanned e \<Rightarrow> onUserBannedFromChat (ev_TargetUser e)
      | UserUnbanned e \<Rightarrow> onUserUnbannedFromChat (ev_TargetUser e)
      | ChatRenamed chat \<Rightarrow> onChatRenamed chat
      | UpdateOther _ _ \<Rightarrow> ret ())"

text \<open>
  One round of \<open>listenUpdates\<close>: \<open>False\<close> is \<open>abort()\<close>. Every exception that is no \<open>request_error\<close> and no
  \<open>disconnected_error\<close> derives from \<open>std::exception\<close> here, and the loop goes on.
\<close>

definition pollOnce :: "('k, 'w) ClientEnv \<Rightarrow> ('w, bool) uiP" where
  "pollOnce C =
     ptry (pbind (askList C (\<lambda>token. CreateGetUpdates token False)) (\<lambda>updates.
         plift (thenM (forEach (\<lambda>responce. processUpdate (CurrentUpdate C responce)) updates) (ret True))))
       (\<lambda>e. plift (case e of
          request_error _ _ code \<Rightarrow> ret (code = UNAUTHORIZED C)
        | disconnected_error \<Rightarrow> ret False
        | undefined_behaviour \<Rightarrow> throw e
        | _ \<Rightarrow> ret True))"

partial_function (option) listenUpdates :: "('k, 'w) ClientEnv \<Rightarrow> 'w UI \<Rightarrow> ((exn + unit) \<times> 'w UI) option" where
  "listenUpdates C s =
     (case pollOnce C s of
        None \<Rightarrow> None
      | Some (Inl e, s') \<Rightarrow> Some (Inl e, s')
      | Some (Inr goOn, s') \<Rightarrow> (if goOn then listenUpdates C s' else Some (Inr (), s')))"

section \<open>The client as a whole\<close>

text \<open>What happens to the client: a key, or a round of polling.\<close>

datatype ui_event = KeyChar char | KeyBackspace | KeyUp | KeyDown | KeyShiftUp | KeyShiftDown | KeyEscape | KeyEnter | Poll

fun handle :: "('k, 'w) ClientEnv \<Rightarrow> ui_event \<Rightarrow> ('w, unit) uiP" where
  "handle C (KeyChar c) = plift (hookInputChar c)"
| "handle C KeyBackspace = plift hookBackspace"
| "handle C KeyUp = plift hookArrowUp"
| "handle C KeyDown = plift hookArrowDown"
| "handle C KeyShiftUp = plift hookArrowUpShift"
| "handle C KeyShiftDown = plift hookArrowDownShift"
| "handle C KeyEscape = plift hookEscape"
| "handle C KeyEnter = TerminalUI_hookEnter C"
| "handle C Poll = pbind (pollOnce C) (\<lambda>_. pret ())"

text \<open>The states the client reaches; an exception ends the event, not the client.\<close>

inductive client_reaches :: "('k, 'w) ClientEnv \<Rightarrow> 'w UI \<Rightarrow> 'w UI \<Rightarrow> bool" for C s where
  start: "client_reaches C s s"
| event: "client_reaches C s s1 \<Longrightarrow> handle C e s1 = Some (r, s2) \<Longrightarrow> client_reaches C s s2"

lemma processUpdate_safe [ui_safe]: "safe ui_ok (processUpdate u)"
proof -
  have "safe ui_ok (liftcache (addMemberToChat i v))" for i v
    by (rule safe_ui, intro ui_safe on_map_simps)
  then show ?thesis
    unfolding processUpdate_def onUserKickedFromChat_def onUserBannedFromChat_def onUserUnbannedFromChat_def onChatRenamed_def
    by (cases "upd_body u") (auto intro!: safes ui_safe)
qed

lemma pollOnce_safe:
  assumes "recv_bounded (sockets (host C))"
  shows "psafe ui_ok (pollOnce C)"
proof -
  have "safe ui_ok (case e of request_error _ _ code \<Rightarrow> ret (code = UNAUTHORIZED C) | disconnected_error \<Rightarrow> ret False
        | undefined_behaviour \<Rightarrow> throw e | _ \<Rightarrow> ret True)" if "e \<noteq> undefined_behaviour" for e
    using that by (cases e) (auto intro: safes)
  then show ?thesis
    unfolding pollOnce_def by (intro psafes safes ui_safe asks_safe [OF assms])
qed

lemma handle_safe:
  assumes "recv_bounded (sockets (host C))"
  shows "psafe ui_ok (handle C e)"
  by (cases e) (auto intro!: psafes ui_safe safes hookEnter_safe [OF assms] pollOnce_safe [OF assms])


section \<open>What the user sees\<close>

lemma append_run:
  fixes s :: "'w UI"
  assumes "ui_ok s"
  shows "\<exists>s'. appendMessageToChatUnlocked m s = (Inr (), s') \<and> ui_ok s' \<and> cache s' = cache s"
proof -
  obtain v where v: "viewing (chat_Id (msg_DestChat m)) s = (Inr v, s)" using viewing_run [OF assms] by blast
  have "safe ui_ok (appendMessageToChatUnlocked m :: ('w, unit) uiM)" by (rule plain_safe)
  then have ok: "ui_ok (snd (appendMessageToChatUnlocked m s))" using assms by (simp add: safe_def)
  define s1 where "s1 = snd (count_unread (chat_Id (msg_DestChat m)) s)"
  have c: "count_unread (chat_Id (msg_DestChat m)) s = (Inr (), s1)" "cache s1 = cache s"
    by (simp_all add: s1_def count_unread_def modifyM_def)
  have "safe ui_ok (count_unread (chat_Id (msg_DestChat m)) :: ('w, unit) uiM)"
    unfolding count_unread_def by (rule ok_update) (auto simp: selection_ok_def history_ok_def)
  then have "ui_ok s1" using assms by (simp add: safe_def s1_def)
  then obtain l where l: "unread_label m s1 = (Inr l, s1)" using cached_run(1) by blast
  have "\<exists>s'. appendMessageToChatUnlocked m s = (Inr (), s') \<and> cache s' = cache s"
    by (simp add: appendMessageToChatUnlocked_def bindM_def thenM_def v getsM_def c(1) l modifyM_def c(2) ret_def)
  then show ?thesis using ok by auto
qed

lemma store_run:
  fixes s :: "'w UI"
  assumes "ui_ok s" and "chatsCache (cache s) i = Some p" and "memories (cache s) p = Some cm"
  shows "\<exists>s'. liftcache (storeMessageToChat i m True) s = (Inr (), s') \<and> ui_ok s' \<and> chatsCache (cache s') i = Some p \<and>
     memories (cache s') p = Some (cm\<lparr>mem_Messages := store_message m True (mem_Messages cm)\<rparr>)"
proof -
  have c: "cache_ok (cache s)" using assms(1) by (simp add: ui_ok_def)
  have k: "chat_Id (mem_ChatInfo (x\<lparr>mem_Messages := store_message m True (mem_Messages x)\<rparr>)) = chat_Id (mem_ChatInfo x)" for x by simp
  obtain c' where c': "storeMessageToChat i m True (cache s) = (Inr (), c')" "chatsCache c' = chatsCache (cache s)"
    "memories c' = (memories (cache s))(p := map_option (\<lambda>x. x\<lparr>mem_Messages := store_message m True (mem_Messages x)\<rparr>) (memories (cache s) p))"
    using with_chat_run [OF c, of "\<lambda>x. x\<lparr>mem_Messages := store_message m True (mem_Messages x)\<rparr>" i, OF k] assms(2)
    by (auto simp: storeMessageToChat_def)
  have "safe ui_ok (liftcache (storeMessageToChat i m True) :: ('w, unit) uiM)" by (rule plain_safe)
  then have "ui_ok (snd (liftcache (storeMessageToChat i m True) s))" using assms(1) by (simp add: safe_def)
  then show ?thesis using c' assms(2,3) by (simp add: liftcache_def)
qed

lemma message_update_run:
  assumes "ui_ok s" and "chatsCache (cache s) i = Some p" and "memories (cache s) p = Some cm"
    and "upd_body u = MessageSent m" and "chat_Id (msg_DestChat m) = i" and "i \<noteq> 0"
    and "c_str (chat_Name (msg_DestChat m)) \<noteq> ''server_alert''"
  shows "\<exists>s'. processUpdate u s = (Inr (), s') \<and> ui_ok s' \<and> chatsCache (cache s') i = Some p \<and>
     memories (cache s') p = Some (cm\<lparr>mem_Messages := store_message m True (mem_Messages cm)\<rparr>)"
proof -
  obtain s1 where s1: "liftcache (storeMessageToChat i m True) s = (Inr (), s1)" "ui_ok s1" "chatsCache (cache s1) i = Some p"
     "memories (cache s1) p = Some (cm\<lparr>mem_Messages := store_message m True (mem_Messages cm)\<rparr>)"
    using store_run [OF assms(1-3)] by blast
  obtain s2 where "appendMessageToChatUnlocked m s1 = (Inr (), s2)" "ui_ok s2" "cache s2 = cache s1"
    using append_run [OF s1(2)] by blast
  then show ?thesis using s1 assms(4-7) by (simp add: processUpdate_def thenM_def bindM_def)
qed

lemma message_updates_run:
  assumes "i \<noteq> 0"
  shows "ui_ok s \<Longrightarrow> chatsCache (cache s) i = Some p \<Longrightarrow> memories (cache s) p = Some cm \<Longrightarrow>
     map (upd_body \<circ> f) rs = map MessageSent ms \<Longrightarrow>
     \<forall>m\<in>set ms. chat_Id (msg_DestChat m) = i \<and> c_str (chat_Name (msg_DestChat m)) \<noteq> ''server_alert'' \<Longrightarrow>
     \<exists>s'. forEach (\<lambda>r. processUpdate (f r)) rs s = (Inr (), s') \<and> chatsCache (cache s') i = Some p \<and>
       memories (cache s') p = Some (cm\<lparr>mem_Messages := fold (\<lambda>m. store_message m True) ms (mem_Messages cm)\<rparr>)"
proof (induction rs arbitrary: s cm ms)
  case (Cons r rs)
  then obtain m ms' where ms: "ms = m # ms'" by (cases ms) auto
  obtain s1 where s1: "processUpdate (f r) s = (Inr (), s1)" "ui_ok s1" "chatsCache (cache s1) i = Some p"
     "memories (cache s1) p = Some (cm\<lparr>mem_Messages := store_message m True (mem_Messages cm)\<rparr>)"
    using message_update_run [OF Cons.prems(1-3), of "f r" m] Cons.prems(4,5) ms assms by auto
  show ?case
    using Cons.IH [OF s1(2-4), of ms'] Cons.prems(4,5) ms s1(1) by (auto simp: thenM_def bindM_def)
qed (auto simp: ret_def)

lemma CurrentUpdate_read: "Update_wf u \<Longrightarrow> length (fresh_responce (host C)) = RESPONCE_UNION \<Longrightarrow> CurrentUpdate C (RespUpdates k u) = u"
  by (simp add: CurrentUpdate_def union_of_def enc_Responce_def wire_simps overlay_def RESPONCE_UNION_def)

text \<open>
  C40. Messages that wait together are shown in the wrong order: the server queues them in the order
  they were sent, answers with the newest first, and the client, which appends each update at the
  end of the chat, ends up with them reversed. (A history fetched as a whole is stored at the front,
  and comes out in order.)
\<close>

theorem polled_messages_reversed:
  assumes "Db_ok (db srv)" and "logged_in srv t ur" and "to_AccessToken tr = AccessToken (transports srv t)"
    and "us = UpdatesCache srv (getUInt (ur_Id ur))" and "length us \<le> 2 ^ 31" and "map upd_body us = map MessageSent ms"
    and "\<forall>k\<le>length us. send_result E (nsent srv + k) = None" and "length (fresh_union E) = RESPONCE_UNION"
    and "\<forall>u \<in> set us. Update_wf u"
    and "processRequest E t (CreateGetUpdates (to_AccessToken tr) False) srv = (r, srv')"
    and "outbox srv' = outbox srv @ map (Pair t) rs"
    and "link_ok (host C) out inc sk" and "ui_ok s" and "activeTransport s = Some a" and "theap (proto s) a = Some tr"
    and "to_TransportSocket tr = sk" and "endpoint (proto s) sk ss" and "length fresh = RESPONCE_UNION"
    and "outp inc (proto s) sk = incoming (host C) ss (map (enc_Responce fresh) rs) @ rest"
    and "chatsCache (cache s) i = Some p" and "memories (cache s) p = Some cm" and "i \<noteq> 0"
    and "\<forall>m\<in>set ms. chat_Id (msg_DestChat m) = i \<and> c_str (chat_Name (msg_DestChat m)) \<noteq> ''server_alert''"
    and "distinct (map msg_Id (mem_Messages cm) @ map msg_Id ms)"
  shows "\<exists>s' cm'. pollOnce C s = Some (Inr True, s') \<and> memories (cache s') p = Some cm' \<and>
     mem_Messages cm' = mem_Messages cm @ rev ms"
proof -
  let ?H = "host C" and ?rs = "counted RespUpdates (of_nat (length us)) (rev us)"
  obtain n where "srv' = srv\<lparr>outbox := outbox srv @ map (Pair t) (updates_answer E us), nsent := n,
      UpdatesCache := (UpdatesCache srv)(getUInt (ur_Id ur) := [])\<rparr>"
    using GetUpdates_run [OF assms(1,2), of "\<lparr>gu_UserToken = to_AccessToken tr, gu_DropPending = 0, gu_Reserved = [0, 0, 0]\<rparr>" us E]
      assms(3,4,5,7,10) by (auto simp: CreateGetUpdates_def)
  then have "rs = updates_answer E us" using assms(11) by (auto dest: map_injective simp: inj_on_def)
  then have i: "outp inc (proto s) sk = incoming ?H ss (map (enc_Responce fresh) (updates_answer E us)) @ rest" using assms(19) by simp
  obtain p1 where p1: "Protocol_SendRequestList ?H sk (CreateGetUpdates (to_AccessToken tr) False)
      (remaining (fresh_responce ?H)) (proto s) = Some (Inr ?rs, p1)"
    using updates_received [OF assms(8,9,5,12,17,18) i, of "CreateGetUpdates (to_AccessToken tr) False"] by blast
  have tr: "transport_object s = (Inr tr, s)" by (simp add: transport_object_def monad_defs assms(14,15))
  have rb: "recv_bounded (sockets ?H)"
    using assms(12) by (auto simp: recv_bounded_def link_ok_def dest: tcp_recv(1))
  define s1 where "s1 = s\<lparr>proto := p1\<rparr>"
  have ask: "askList C (\<lambda>token. CreateGetUpdates token False) s = Some (Inr ?rs, s1)"
    using p1 by (simp add: askList_def pbind_def plift_def tr assms(16) s1_def)
  have ok: "ui_ok s1" using psafeD [OF asks_safe(2) [OF rb] assms(13) ask] by blast
  have f: "length (fresh_responce ?H) = RESPONCE_UNION" using assms(12) by (simp add: link_ok_def)
  have "map (upd_body \<circ> CurrentUpdate C) ?rs = map upd_body (rev us)"
    using assms(9) f by (auto intro!: nth_equalityI simp: nth_counted CurrentUpdate_read rev_nth)
  then have b: "map (upd_body \<circ> CurrentUpdate C) ?rs = map MessageSent (rev ms)" using assms(6) by (simp add: rev_map [symmetric])
  obtain s2 where s2: "forEach (\<lambda>r. processUpdate (CurrentUpdate C r)) ?rs s1 = (Inr (), s2)"
    "memories (cache s2) p = Some (cm\<lparr>mem_Messages := fold (\<lambda>m. store_message m True) (rev ms) (mem_Messages cm)\<rparr>)"
    using message_updates_run [OF assms(22) ok _ _ b, of p cm] assms(20,21,23) by (fastforce simp: s1_def)
  have "pollOnce C s = Some (Inr True, s2)"
    by (simp add: pollOnce_def ptry_def pbind_def ask plift_def thenM_def bindM_def s2(1) ret_def)
  moreover have "fold (\<lambda>m. store_message m True) (rev ms) (mem_Messages cm) = mem_Messages cm @ rev ms"
    using assms(24) by (intro store_at_end) (auto simp: rev_map [symmetric])
  ultimately show ?thesis using s2(2) by auto
qed

text \<open>A client on socket 5 with one chat, number 1, in its cache.\<close>

definition ClientEnv_demo :: "(byte list, pipes) ClientEnv" where
  "ClientEnv_demo = \<lparr>host = Host_demo, first_bucket = hd, clock = 9, UNAUTHORIZED = EC_FAULT\<rparr>"

definition Client_demo :: "byte list \<Rightarrow> pipes UI" where
  "Client_demo bs = (UI_start ((Proto_demo 3 bs)\<lparr>theap := [1 \<mapsto> \<lparr>to_TransportSocket = 5, to_AccessToken = 70,
       to_Secure = \<lparr>Enabled = True, TxKey = replicate 32 1, RxKey = replicate 32 1, TxCounter = 3, RxCounter = 3\<rparr>\<rparr>]\<rparr>))
     \<lparr>activeTransport := Some 1, cache := \<lparr>chatsCache = [1 \<mapsto> 1], memories = [0 \<mapsto> idle_memory,
       1 \<mapsto> \<lparr>mem_ChatInfo = \<lparr>chat_Id = 1, chat_Name = fs_of CHATNAME_MAXLENGTH ''club'', chat_Type = ChatType_Group\<rparr>,
         mem_Members = [], mem_Messages = [], mem_MessagesLoaded = False\<rparr>], next_memory = 2\<rparr>\<rparr>"

definition note_demo :: "msgid_t \<Rightarrow> Message" where
  "note_demo n = \<lparr>msg_Id = n, msg_DestChat = \<lparr>chat_Id = 1, chat_Name = fs_of CHATNAME_MAXLENGTH ''club'', chat_Type = ChatType_Group\<rparr>,
     msg_From = \<lparr>user_Id = 3, user_Name = fs_of CHATNAME_MAXLENGTH ''bob''\<rparr>, msg_Timestamp = 9,
     msg_Text = fs_of MESSAGETEXT_MAXLENGTH ''x''\<rparr>"

lemma Client_demo_simps:
  "activeTransport (Client_demo bs) = Some 1" "outp snd (proto (Client_demo bs)) 5 = bs"
  "theap (proto (Client_demo bs)) 1 = Some \<lparr>to_TransportSocket = 5, to_AccessToken = 70,
     to_Secure = \<lparr>Enabled = True, TxKey = replicate 32 1, RxKey = replicate 32 1, TxCounter = 3, RxCounter = 3\<rparr>\<rparr>"
  "endpoint (proto (Client_demo bs)) 5 (Some \<lparr>Enabled = True, TxKey = replicate 32 1, RxKey = replicate 32 1, TxCounter = 3, RxCounter = 3\<rparr>)"
  "chatsCache (cache (Client_demo bs)) 1 = Some 1"
  "memories (cache (Client_demo bs)) 1 = Some \<lparr>mem_ChatInfo = \<lparr>chat_Id = 1, chat_Name = fs_of CHATNAME_MAXLENGTH ''club'',
     chat_Type = ChatType_Group\<rparr>, mem_Members = [], mem_Messages = [], mem_MessagesLoaded = False\<rparr>"
  by (simp_all add: Client_demo_def UI_start_def Proto_demo_def Net_demo_def endpoint_def)

lemma Client_demo_ok: "ui_ok (Client_demo bs)" and Client_demo_bounded: "recv_bounded (sockets (host ClientEnv_demo))"
proof -
  show "ui_ok (Client_demo bs)"
    by (auto simp: ui_ok_def Client_demo_def UI_start_def Proto_demo_def cache_ok_def active_ok_def selection_ok_def
        history_ok_def proto_ok_def idleChatPlaceholder_def idle_memory_def split: if_splits)
  show "recv_bounded (sockets (host ClientEnv_demo))"
    using Host_demo_link [of 5] by (auto simp: ClientEnv_demo_def recv_bounded_def link_ok_def dest: tcp_recv(1))
qed


theorem polled_messages_reversed_witness:
  "\<exists>bs s' cm'. pollOnce ClientEnv_demo (Client_demo bs) = Some (Inr True, s') \<and> memories (cache s') 1 = Some cm' \<and>
     mem_Messages cm' = [note_demo 2, note_demo 1]"
proof -
  let ?us = "[\<lparr>upd_Id = 0, upd_body = MessageSent (note_demo 1)\<rparr>, \<lparr>upd_Id = 0, upd_body = MessageSent (note_demo 2)\<rparr>]"
  let ?s = "Server_demo\<lparr>UpdatesCache := (\<lambda>_. [])(2 := ?us)\<rparr>" and ?ur = "Users Db_demo ! 1"
  let ?q = "\<lparr>gu_UserToken = 70, gu_DropPending = 0, gu_Reserved = [0, 0, 0]\<rparr>"
  let ?ss = "Some \<lparr>Enabled = True, TxKey = replicate 32 1, RxKey = replicate 32 1, TxCounter = 3, RxCounter = 3\<rparr>"
  let ?bs = "incoming Host_demo ?ss (map (enc_Responce (zeros RESPONCE_UNION)) (updates_answer Env_plain ?us)) @ []"
  have id: "getUInt (ur_Id ?ur) = 2" by (simp add: Db_demo_def getUInt_def)
  have ok: "Db_ok (db ?s)" by (simp add: Db_demo_ok)
  have p: "logged_in ?s 10 ?ur" "70 = AccessToken (transports ?s 10)" "?us = UpdatesCache ?s (getUInt (ur_Id ?ur))"
    unfolding id by (simp_all add: logged_in_def Db_demo_def bind_u32_def)
  have l: "length ?us \<le> 2 ^ 31" "length ?us < 2 ^ 32" "\<forall>i\<le>length ?us. send_result Env_plain (nsent ?s + i) = None"
    "length (fresh_union Env_plain) = RESPONCE_UNION" "length (zeros RESPONCE_UNION) = RESPONCE_UNION"
    by (simp_all add: Env_plain_def RESPONCE_UNION_def)
  have w: "\<forall>u \<in> set ?us. Update_wf u" by (simp add: note_demo_def Update_wf_def Message_wf_def Chat_wf_def User_wf_def)
  have b: "map upd_body ?us = map MessageSent [note_demo 1, note_demo 2]" by simp
  have m: "\<forall>m\<in>set [note_demo 1, note_demo 2]. chat_Id (msg_DestChat m) = 1 \<and> c_str (chat_Name (msg_DestChat m)) \<noteq> ''server_alert''"
    "distinct (map msg_Id [] @ map msg_Id [note_demo 1, note_demo 2])"
    by (simp_all add: note_demo_def CHATNAME_MAXLENGTH_def, simp_all add: c_str_def NUL_def)
  have q: "gu_UserToken ?q = AccessToken (transports ?s 10)" "gu_DropPending ?q = 0" "CreateGetUpdates 70 False = GetUpdates ?q"
    by (simp_all add: CreateGetUpdates_def)
  obtain srv' where srv': "processRequest Env_plain 10 (GetUpdates ?q) ?s = (Inr (), srv')"
    "outbox srv' = outbox ?s @ map (Pair 10) (updates_answer Env_plain ?us)"
    using GetUpdates_run [OF ok p(1) q(1,2) p(3) l(2,3)] by fastforce
  let ?tr = "\<lparr>to_TransportSocket = 5, to_AccessToken = 70, to_Secure = the ?ss\<rparr> :: TransportObject"
  have h: "link_ok (host ClientEnv_demo) fst snd 5" using Host_demo_link by (simp add: ClientEnv_demo_def)
  have tr: "theap (proto (Client_demo ?bs)) 1 = Some ?tr" "to_AccessToken ?tr = AccessToken (transports ?s 10)"
    "to_TransportSocket ?tr = 5" "processRequest Env_plain 10 (CreateGetUpdates (to_AccessToken ?tr) False) ?s = (Inr (), srv')"
    using p(2) q(3) srv'(1) Client_demo_simps(3) by simp_all
  have i: "outp snd (proto (Client_demo ?bs)) 5 =
      incoming (host ClientEnv_demo) ?ss (map (enc_Responce (zeros RESPONCE_UNION)) (updates_answer Env_plain ?us)) @ []"
    using Client_demo_simps(2) by (simp add: ClientEnv_demo_def)
  have "(1 :: chatid_t) \<noteq> 0" by simp
  from polled_messages_reversed [OF ok p(1) tr(2) p(3) l(1) b l(3,4) w tr(4) srv'(2) h Client_demo_ok Client_demo_simps(1) tr(1,3)
        Client_demo_simps(4) l(5) i Client_demo_simps(5,6) this m(1)] m(2)
  show ?thesis by auto
qed

end
