(* ===== verification/ClientConfig.thy ===== *)
theory ClientConfig
  imports ServerConfig
begin

text \<open>
  \<open>TeleCrap.Client/src/TeleCrap.Client.cpp\<close>, the settings: loading, saving, and the command line. The
  file is the server's \<open>settings.cfg\<close> by name, with sections of its own.
\<close>

section \<open>Settings\<close>

record ClientSettings =
  cl_ServerIP :: cstring
  cl_ServerPort :: u16
  cl_Username :: cstring
  cl_Password :: cstring

record ClientConfig =
  cl_Settings :: ClientSettings
  cl_disk :: Disk

type_synonym 'a clcfgM = "(ClientConfig, exn, 'a) sem"

definition ini_put :: "cstring \<Rightarrow> cstring \<Rightarrow> cstring \<Rightarrow> INIStructure \<Rightarrow> INIStructure" where
  "ini_put sec key value = ini_modify INIMap_new sec (ini_modify [] key (\<lambda>_. value))"

definition client_settings_ini :: "ClientSettings \<Rightarrow> INIStructure" where
  "client_settings_ini S =
     (let ini = ini_put ''Network'' ''ServerIP'' (cl_ServerIP S) INIMap_new;
          ini = ini_put ''Network'' ''ServerPort'' (to_string (unat (cl_ServerPort S))) ini;
          ini = ini_put ''User'' ''Username'' (cl_Username S) ini
      in ini_put ''User'' ''Password'' (cl_Password S) ini)"

definition client_configSave :: "unit clcfgM" where
  "client_configSave = (\<lambda>c. case INIFile_generate CONFIG_FILE (client_settings_ini (cl_Settings c)) True (cl_disk c) of
     (generated, D) \<Rightarrow> (if generated then Inr () else Inl (runtime_error ''Could not save config file''),
       c\<lparr>cl_disk := D\<rparr>))"

definition client_settings_of :: "INIStructure \<Rightarrow> ClientSettings" where
  "client_settings_of ini = (let read = (\<lambda>sec key. ini_get [] key (ini_get INIMap_new sec ini)) in
     \<lparr>cl_ServerIP = read ''Network'' ''ServerIP'',
      cl_ServerPort = word_of_int (safe_stoi (read ''Network'' ''ServerPort'') 7777),
      cl_Username = read ''User'' ''Username'', cl_Password = read ''User'' ''Password''\<rparr>)"

definition client_configLoad :: "unit clcfgM" where
  "client_configLoad = bindM (getsM (\<lambda>c. INIFile_read CONFIG_FILE INIMap_new (cl_disk c))) (\<lambda>(found, ini).
     if found then modifyM (\<lambda>c. c\<lparr>cl_Settings := client_settings_of ini\<rparr>)
     else thenM (modifyM (\<lambda>c. c\<lparr>cl_Settings := \<lparr>cl_ServerIP = ''127.0.0.1'', cl_ServerPort = 7777,
       cl_Username = [], cl_Password = []\<rparr>\<rparr>)) client_configSave)"

section \<open>The command line\<close>

function client_parseArgsLoop :: "cstring list \<Rightarrow> nat \<Rightarrow> nat \<Rightarrow> bool \<Rightarrow> bool clcfgM" where
  "client_parseArgsLoop args argc i anyCfgChanges =
     (if \<not> i < argc then ret anyCfgChanges
      else case argv args i of
        Inl e \<Rightarrow> throw e
      | Inr arg \<Rightarrow>
          (if arg = ''-p'' then
             if int argc = int i - 1 then throw unknown_exception
             else case argv args (i + 1) of
               Inl e \<Rightarrow> throw e
             | Inr value \<Rightarrow> (case stol value of
                 Inl e \<Rightarrow> throw e
               | Inr v \<Rightarrow> thenM (modifyM (\<lambda>c. c\<lparr>cl_Settings := (cl_Settings c)\<lparr>cl_ServerPort := word_of_int v\<rparr>\<rparr>))
                   (client_parseArgsLoop args (argc + 1) (i + 1) True))
           else if arg = ''-a'' then
             if int argc = int i - 1 then throw unknown_exception
             else case argv args (i + 1) of
               Inl e \<Rightarrow> throw e
             | Inr value \<Rightarrow> thenM (modifyM (\<lambda>c. c\<lparr>cl_Settings := (cl_Settings c)\<lparr>cl_ServerIP := value\<rparr>\<rparr>))
                   (client_parseArgsLoop args (argc + 1) (i + 1) True)
           else client_parseArgsLoop args argc (i + 1) anyCfgChanges))"
  by pat_completeness auto
termination
  by (relation "measure (\<lambda>(args, argc, i, b). length args - i)") (auto simp: argv_def split: if_splits)

declare client_parseArgsLoop.simps [simp del]

definition client_parseArgs :: "cstring list \<Rightarrow> unit clcfgM" where
  "client_parseArgs args = bindM (client_parseArgsLoop args (length args) 1 False) (\<lambda>anyCfgChanges.
     if anyCfgChanges then client_configSave else ret ())"

lemma client_loop_past:
  "argc > length args \<Longrightarrow> i \<le> length args \<Longrightarrow>
   (\<exists>e. fst (client_parseArgsLoop args argc i b c) = Inl e) \<and> cl_disk (snd (client_parseArgsLoop args argc i b c)) = cl_disk c"
proof (induction "length args - i" arbitrary: argc i b c)
  case 0
  then show ?case by (subst (1 2) client_parseArgsLoop.simps) (auto simp: argv_def throw_def)
next
  case (Suc n)
  then have IH: "(\<exists>e. fst (client_parseArgsLoop args k (Suc i) x d) = Inl e) \<and>
      cl_disk (snd (client_parseArgsLoop args k (Suc i) x d)) = cl_disk d" if "k > length args" for k x d
    using that by (intro Suc.hyps(1)) auto
  show ?case
    using Suc.prems Suc.hyps(2) IH [of "Suc argc"] IH [of argc]
    by (subst (1 2) client_parseArgsLoop.simps)
      (auto simp: argv_def throw_def thenM_def bindM_def modifyM_def split: sum.splits)
qed

lemma client_loop_step:
  "args \<noteq> [] \<Longrightarrow> i < length args \<Longrightarrow> args ! i \<noteq> ''-p'' \<Longrightarrow> args ! i \<noteq> ''-a'' \<Longrightarrow>
   client_parseArgsLoop args (length args) i b c = client_parseArgsLoop args (length args) (Suc i) b c"
  by (subst client_parseArgsLoop.simps) (simp add: argv_def)

lemma client_loop_option:
  "i < length args \<Longrightarrow> args ! i = ''-p'' \<or> args ! i = ''-a'' \<Longrightarrow>
   (\<exists>e. fst (client_parseArgsLoop args (length args) i b c) = Inl e) \<and>
   cl_disk (snd (client_parseArgsLoop args (length args) i b c)) = cl_disk c"
  using client_loop_past [of args "Suc (length args)" "Suc i"]
  by (subst (1 2) client_parseArgsLoop.simps)
    (auto simp: argv_def throw_def thenM_def bindM_def modifyM_def split: sum.splits)

text \<open>As on the server, an option makes the loop run off the end of \<open>argv\<close>; nothing is saved.\<close>

theorem client_options_crash:
  assumes "args \<noteq> []"
  shows "if ''-p'' \<in> set (tl args) \<or> ''-a'' \<in> set (tl args)
     then (\<exists>e. fst (client_parseArgs args c) = Inl e) \<and> cl_disk (snd (client_parseArgs args c)) = cl_disk c
     else client_parseArgs args c = (Inr (), c)"
proof -
  let ?opt = "\<lambda>xs. ''-p'' \<in> set xs \<or> ''-a'' \<in> set xs"
  have "if ?opt (drop i args)
     then (\<exists>e. fst (client_parseArgsLoop args (length args) i b c) = Inl e) \<and>
       cl_disk (snd (client_parseArgsLoop args (length args) i b c)) = cl_disk c
     else client_parseArgsLoop args (length args) i b c = (Inr b, c)" if "i \<le> length args" for i b
    using that
  proof (induction rule: inc_induct)
    case base
    then show ?case by (subst (1 2 3) client_parseArgsLoop.simps) (simp add: ret_def)
  next
    case (step i)
    then have d: "drop i args = args ! i # drop (Suc i) args" by (simp add: Cons_nth_drop_Suc)
    show ?case
    proof (cases "args ! i = ''-p'' \<or> args ! i = ''-a''")
      case True
      then show ?thesis using client_loop_option [OF step.hyps(2) True] by (auto simp: d)
    next
      case False
      then show ?thesis using step client_loop_step [OF assms step.hyps(2)] by (auto simp: d)
    qed
  qed
  from this [of 1 False] assms show ?thesis
    by (auto simp: client_parseArgs_def bindM_def drop_Suc ret_def Suc_le_eq split: prod.splits sum.splits if_splits)
qed

section \<open>Settings survive a restart\<close>

lemma ini_modify_items:
  assumes "INIMap_ok m" and "kv \<in> set (inidata (ini_modify T k f m))"
  shows "kv \<in> set (inidata m) \<or> kv = (norm_key k, f T) \<or> (\<exists>v. (norm_key k, v) \<in> set (inidata m) \<and> kv = (norm_key k, f v))"
proof -
  let ?m = "ini_modify T k f m"
  obtain a b where kv: "kv = (a, b)" by fastforce
  have "map_of (inidata ?m) a = Some b"
    using assms(2) ok_distinct [OF ini_modify_spec(1) [OF assms(1)]] by (simp add: kv ini_keys_def)
  then have "((ini_abs m)(norm_key k \<mapsto> f (case ini_abs m (norm_key k) of None \<Rightarrow> T | Some v \<Rightarrow> v))) a = Some b"
    using ini_modify_spec(2) [OF assms(1), of T k f] by (simp add: ini_abs_def)
  then show ?thesis by (auto simp: kv ini_abs_def split: if_splits option.splits dest: map_of_SomeD)
qed

lemma ini_put_representable:
  assumes "representable p ini" and "plain (norm_key sec)" and "CHR '';'' \<notin> set (norm_key sec)"
    and "key_ok p (norm_key key)" and "plain value" and "trim value = value"
  shows "representable p (ini_put sec key value ini)"
proof -
  let ?f = "ini_modify [] key (\<lambda>_. value)"
  have f: "section_ok p (norm_key sec, ?f c)" if "INIMap_ok c" "\<forall>kv\<in>set (inidata c). entry_ok p kv" for c
  proof -
    have "entry_ok p kv" if kv: "kv \<in> set (inidata (?f c))" for kv
      using ini_modify_items [OF \<open>INIMap_ok c\<close> kv] \<open>\<forall>kv\<in>set (inidata c). entry_ok p kv\<close> assms(4-6)
      by (auto simp: entry_ok_def)
    then show ?thesis using assms(2,3) ini_modify_spec(1) [OF that(1)] by (auto simp: section_ok_def)
  qed
  have new: "INIMap_ok (INIMap_new :: cstring INIMap)" "inidata (INIMap_new :: cstring INIMap) = []" by (simp_all) (simp add: INIMap_new_def)
  have "section_ok p it" if "it \<in> set (inidata (ini_modify INIMap_new sec ?f ini))" for it
    using ini_modify_items [OF _ that] f [OF new(1)] f assms(1) new(2) by (auto simp: representable_def section_ok_def)
  then show ?thesis using assms(1) ini_modify_spec(1) by (auto simp: representable_def ini_put_def)
qed

lemma client_keys: "norm_key ''Network'' = ''network''" "norm_key ''User'' = ''user''" "norm_key ''ServerIP'' = ''serverip''"
  "norm_key ''ServerPort'' = ''serverport''" "norm_key ''Username'' = ''username''" "norm_key ''Password'' = ''password''"
  by code_simp+

lemma client_settings_read: "client_settings_of (client_settings_ini S) = S"
proof -
  have "unat (cl_ServerPort S) < 2 ^ 31" using unat_lt [of "cl_ServerPort S"] by simp
  then show ?thesis
    by (simp add: client_settings_of_def client_settings_ini_def Let_def ini_get_abs ini_modify_spec ini_put_def client_keys
        safe_stoi_to_string)
qed

definition client_plain :: "ClientSettings \<Rightarrow> bool" where
  "client_plain S \<longleftrightarrow> (\<forall>v\<in>{cl_ServerIP S, cl_Username S, cl_Password S}. plain v \<and> trim v = v)"

lemma client_representable: "client_plain S \<Longrightarrow> representable True (client_settings_ini S)"
  unfolding client_settings_ini_def Let_def using to_string_value(1) [of "unat (cl_ServerPort S)"]
  by (intro ini_put_representable)
    (simp_all add: client_keys client_plain_def to_string_value key_ok_def plain_def NL_def NUL_def CR_def representable_def,
      simp add: INIMap_new_def)

text \<open>What \<open>configSave\<close> wrote \<open>configLoad\<close> reads back, the password in plain text among it.\<close>

theorem client_settings_survive_restart:
  assumes "writable (cl_disk c) CONFIG_FILE" and "readable (cl_disk c) CONFIG_FILE" and "client_plain (cl_Settings c)"
  shows "\<exists>c'. client_configSave c = (Inr (), c') \<and> cl_Settings c' = cl_Settings c \<and>
     client_configLoad (c'\<lparr>cl_Settings := S\<rparr>) = (Inr (), c')"
proof -
  let ?D = "(cl_disk c)\<lparr>files := (files (cl_disk c))(CONFIG_FILE \<mapsto> INIGenerator_write True (client_settings_ini (cl_Settings c)))\<rparr>"
  have "ini_size (INIMap_new :: INIStructure) = 0" by (simp add: ini_size_def INIMap_new_def)
  then have "INIFile_read CONFIG_FILE INIMap_new ?D = (True, client_settings_ini (cl_Settings c))"
    using read_generated [OF client_representable [OF assms(3)]] assms(2)
    by (simp add: INIFile_read_def) (simp add: CONFIG_FILE_def)
  then have "client_configLoad (c\<lparr>cl_disk := ?D, cl_Settings := S\<rparr>) = (Inr (), c\<lparr>cl_disk := ?D\<rparr>)"
    by (simp add: client_configLoad_def monad_defs client_settings_read)
  moreover have "client_configSave c = (Inr (), c\<lparr>cl_disk := ?D\<rparr>)"
    using assms(1) by (simp add: client_configSave_def INIFile_generate_def) (simp add: CONFIG_FILE_def)
  ultimately show ?thesis by (intro exI [of _ "c\<lparr>cl_disk := ?D\<rparr>"]) simp
qed

end
