(* ===== verification/ClientProgram.thy ===== *)
theory ClientProgram
  imports Client ClientConfig
begin

text \<open>
  \<open>main\<close> of \<open>TeleCrap.Client/src/TeleCrap.Client.cpp\<close>: settings, connection, the optional login with the
  saved name and password, the interface, and what the process ends with. The polling thread is in
  \<open>Client\<close>; here no update comes while \<open>main\<close> runs.
\<close>

section \<open>The process\<close>

record 'w ClientProgram =
  cp_config :: ClientConfig
  cp_ui :: "'w UI"
  cp_transport :: "nat option"

type_synonym ('w, 'a) cpM = "('w ClientProgram, exn, 'a) sem"
type_synonym ('w, 'a) cpP = "('w ClientProgram, 'a) pM"

definition in_settings :: "'a clcfgM \<Rightarrow> ('w, 'a) cpM" where
  "in_settings m p = (case m (cp_config p) of (r, c) \<Rightarrow> (r, p\<lparr>cp_config := c\<rparr>))"

definition in_protocol :: "('w, 'a) protoM \<Rightarrow> ('w, 'a) cpM" where
  "in_protocol m p = (case m (proto (cp_ui p)) of (r, s) \<Rightarrow> (r, p\<lparr>cp_ui := (cp_ui p)\<lparr>proto := s\<rparr>\<rparr>))"

definition in_ui :: "('w, 'a) uiP \<Rightarrow> ('w, 'a) cpP" where
  "in_ui m p = (case m (cp_ui p) of None \<Rightarrow> None | Some (r, s) \<Rightarrow> Some (r, p\<lparr>cp_ui := s\<rparr>))"

text \<open>The server's address could not be resolved.\<close>

definition txt_unresolved :: cstring where
  "txt_unresolved = encoded [1053, 1077, 32, 1091, 1076, 1072, 1083, 1086, 1089, 1100, 32, 1088, 1072, 1079, 1088, 1077,
     1096, 1080, 1090, 1100, 32, 1072, 1076, 1088, 1077, 1089, 32, 1089, 1077, 1088, 1074, 1077, 1088, 1072, 32, 40, 68,
     78, 83, 32, 47, 32, 73, 80, 118, 52, 41, 58, 32, 34]"

text \<open>The body of \<open>TerminalUI::run\<close> is empty.\<close>

definition TerminalUI_run :: "('w, unit) uiP" where
  "TerminalUI_run = pret ()"

definition connect_client :: "('k, 'w) ClientEnv \<Rightarrow> ('w, nat) cpP" where
  "connect_client C p = (case Transport_Client (host C) (proto (cp_ui p)) of
     None \<Rightarrow> None
   | Some (r, s) \<Rightarrow> Some (r, p\<lparr>cp_ui := (cp_ui p)\<lparr>proto := s\<rparr>,
       cp_transport := (case r of Inr t \<Rightarrow> Some t | Inl _ \<Rightarrow> cp_transport p)\<rparr>))"

definition delete_transport :: "('k, 'w) ClientEnv \<Rightarrow> ('w, unit) cpM" where
  "delete_transport C = bindM (getsM cp_transport) (\<lambda>t. case t of
     None \<Rightarrow> ret () | Some t \<Rightarrow> in_protocol (delete_Transport (host C) t))"

text \<open>The \<open>try\<close> block; a console that is not the shell's is a matter of Windows.\<close>

definition client_body :: "('k, 'w) ClientEnv \<Rightarrow> cstring list \<Rightarrow> ('w, unit) cpP" where
  "client_body C args =
     pthen (plift (if length args > 1 then in_settings (client_parseArgs args) else ret ()))
     (pthen (plift (in_settings client_configLoad))
     (pbind (plift (getsM (\<lambda>p. cl_Settings (cp_config p)))) (\<lambda>settings.
       pthen (plift (in_protocol (modifyM (\<lambda>s. s\<lparr>net := (net s)\<lparr>ServerPort := cl_ServerPort settings\<rparr>\<rparr>))))
       (pbind (plift (in_protocol (liftnet (ResolveServerHost (sockets (host C)) (cl_ServerIP settings))))) (\<lambda>resolved.
         if \<not> resolved then plift (throw (runtime_error (txt_unresolved @ cl_ServerIP settings @ [CHR 0x22])))
         else pbind (connect_client C) (\<lambda>t.
           pthen (if cl_Username settings \<noteq> [] \<and> cl_Password settings \<noteq> []
                  then in_ui (tryAuth C t (cl_Username settings) (cl_Password settings)) else pret ())
           (pthen (in_ui TerminalUI_run)
           (plift (delete_transport C)))))))))"

section \<open>Ending\<close>

text \<open>
  With a status, or in undefined behaviour. As on the server an exception that is no \<open>runtime_error\<close> ends
  through \<open>abort\<close> in the signal handler.
\<close>

datatype client_ending = ClientExit nat | ClientUndefined

definition client_sigintHandler :: "('k, 'w) ClientEnv \<Rightarrow> 'w ClientProgram \<Rightarrow> client_ending \<times> 'w ClientProgram" where
  "client_sigintHandler C p = (case delete_transport C p of
     (Inl _, p') \<Rightarrow> (ClientUndefined, p') | (Inr _, p') \<Rightarrow> (ClientExit 0, p'))"

definition client_caught :: "('k, 'w) ClientEnv \<Rightarrow> exn \<Rightarrow> 'w ClientProgram \<Rightarrow> client_ending \<times> 'w ClientProgram" where
  "client_caught C e p =
     (if e = undefined_behaviour then (ClientUndefined, p)
      else if is_runtime_error e then (case delete_transport C p of
          (Inl _, p') \<Rightarrow> (ClientUndefined, p') | (Inr _, p') \<Rightarrow> (ClientExit 1, p'))
      else client_sigintHandler C p)"

definition client_main :: "('k, 'w) ClientEnv \<Rightarrow> cstring list \<Rightarrow> 'w ClientProgram \<Rightarrow> (client_ending \<times> 'w ClientProgram) option" where
  "client_main C args p = (case client_body C args p of
     None \<Rightarrow> None
   | Some (Inl e, p') \<Rightarrow> Some (client_caught C e p')
   | Some (Inr _, p') \<Rightarrow> Some (ClientExit 0, p'))"

section \<open>What a client does\<close>

text \<open>
  Connected and without a saved login, the client ends at once with status 0: nothing was asked of the
  user, and the connection is closed.
\<close>

theorem client_exits_at_once:
  assumes "args \<noteq> []" and "''-p'' \<notin> set (tl args)" and "''-a'' \<notin> set (tl args)"
    and "client_configLoad (cp_config p) = (Inr (), cfg)" and "cl_Username (cl_Settings cfg) = [] \<or> cl_Password (cl_Settings cfg) = []"
    and "liftnet (ResolveServerHost (sockets (host C)) (cl_ServerIP (cl_Settings cfg)))
      ((proto (cp_ui p))\<lparr>net := (net (proto (cp_ui p)))\<lparr>ServerPort := cl_ServerPort (cl_Settings cfg)\<rparr>\<rparr>) = (Inr True, s1)"
    and "Transport_Client (host C) s1 = Some (Inr t, s2)" and "delete_Transport (host C) t s2 = (Inr (), s3)"
  shows "client_main C args p = Some (ClientExit 0, p\<lparr>cp_config := cfg, cp_ui := (cp_ui p)\<lparr>proto := s3\<rparr>, cp_transport := Some t\<rparr>)"
proof -
  have "client_parseArgs args c = (Inr (), c)" for c
    using client_options_crash [OF assms(1), of c] assms(2,3) by simp
  then show ?thesis
    using assms(4-8)
    by (auto simp: client_main_def client_body_def pthen_def pbind_def plift_def in_settings_def in_protocol_def getsM_def
        modifyM_def connect_client_def in_ui_def TerminalUI_run_def delete_transport_def bindM_def ret_def)
qed

end
