(* ===== verification/Spec2Isabelle.thy ===== *)
theory Spec2Isabelle
  imports Races ServerMain ServerWindows ServerProgram ClientProgram
begin

text \<open>
  TeleCrap is a chat: a server with an SQLite database and Lua addons, and a terminal client, which
  talk over TCP in fixed-size packed structs, optionally sealed in AES-GCM frames after an X25519
  handshake. This development models the POSIX build of its C++ sources and proves what makes its
  parts correct; where the code does not do what it means to, a theorem states what it does. The
  properties are numbered C1 to C40; each stands in the theory of its component.

  \<^bold>\<open>The program and the theories.\<close>

  \<^item> \<^bold>\<open>Data.\<close> \<open>Prelude\<close> has bytes, words, little-endian images, strings with their NUL, ordered maps as
    association lists; \<open>Effects\<close> the computations with state and exceptions (\<open>sem\<close>: a state to
    \<open>error + value\<close> and a state), with their logic: \<open>preserves\<close> for invariants, \<open>keeps\<close> for frames,
    \<open>triple\<close> for pre- and postconditions, \<open>safe\<close> (in \<open>Models\<close>) for the absence of undefined behaviour.
    \<open>Models\<close> is \<open>Models.ixx\<close>, \<open>Update.ixx\<close>, the exceptions of \<open>Protocol.ixx\<close> and \<open>ChatHistory.h\<close>; \<open>Wire\<close>
    the packed images; \<open>Requests\<close> and \<open>Responces\<close> are \<open>Request.ixx/.cpp\<close> and \<open>Responce.ixx/.cpp\<close>, the
    unions read as the code reads them, through any member. C1 and C3: images decode to what was
    encoded, whatever the unused bytes. \<open>Logging\<close> is \<open>Log.cpp\<close>.
  \<^item> \<^bold>\<open>Database.\<close> \<open>Database\<close> has the tables of \<open>telecrap_database.sql\<close> as lists of rows, the constraints
    SQLite enforces, and every operation of \<open>Database.cpp\<close> as statements and transactions on them;
    \<open>Database_Laws\<close> what the operations do (C4, C5, C7, C8).
  \<^item> \<^bold>\<open>Server.\<close> \<open>ServerState\<close> has the file-level variables of \<open>Backend.cpp\<close> (record \<open>Server\<close>: sockets,
    users, update queues, transports, tables, commands) and the session operations; \<open>AddonManager\<close>
    the API of \<open>AddonManager.cpp\<close>, a Lua handler being any terminating tree of API calls; \<open>Backend\<close> the
    handlers of \<open>processRequest\<close>; \<open>Backend_Laws\<close>, \<open>Backend_Chat\<close>, \<open>Moderation\<close> what holds of every
    request (C9, C11 to C23); \<open>Typing\<close> that everything sent and queued fits its struct (C24). \<open>Races\<close> splits the handler of \<open>GetUpdates\<close> at the lock it gives up.
    \<open>ServerMain\<close> is the threads of \<open>TeleCrap.Server.cpp\<close> as interleaved steps (C10). \<open>ServerConfig\<close> is
    its settings and command line (C28, C29), over \<open>Ini\<close> and \<open>IniFile\<close>, the vendored-in-tree \<open>ini.h\<close>
    (C25 to C27). \<open>ServerCLI\<close> and \<open>ServerTerminal\<close> are \<open>ServerCLI.cpp\<close> and \<open>ServerCLI.Linux.cpp\<close>, with
    the terminal's raw mode (C38, C6); \<open>ServerWindows\<close> the keys of \<open>ServerCLI.Win.cpp\<close>. \<open>ServerProgram\<close>
    is \<open>main\<close> with its handlers of exceptions and signals: what a start establishes (C2), which is what
    the other theorems about the server begin with, and how the program ends.
  \<^item> \<^bold>\<open>Transport.\<close> \<open>Socket\<close> is \<open>SocketHelper.cpp\<close>, the system calls a record of functions on a state of
    the world (C30, C31); \<open>SecureChannel\<close> and \<open>Protocol\<close> are \<open>SecureChannel.cpp\<close>, \<open>Protocol.cpp\<close> and
    \<open>Transport.cpp\<close>, OpenSSL a record of functions (C32 to C34); \<open>Exchange\<close> puts both ends together
    (C35, C36).
  \<^item> \<^bold>\<open>Client.\<close> \<open>Utf8\<close> and \<open>LineEditor\<close> are the text functions both programs have (C37); \<open>MemoryCache\<close>
    is \<open>MemoryCache.cpp\<close>, chat memories being objects of a heap; \<open>Blocking\<close> the computations that may
    not return; \<open>TerminalUI\<close> is \<open>TerminalUI.cpp\<close>: its state (record \<open>UI\<close>), keys and commands;
    \<open>TerminalUI_Laws\<close> its invariant; \<open>Client\<close> the polling and the client as a whole (C39, C40);
    \<open>ClientConfig\<close> its settings and command line; \<open>ClientProgram\<close> its \<open>main\<close>.

  \<^bold>\<open>How state corresponds.\<close> A file-level variable is a field of the component's record, under the
  source's name where that is free; a pointer is an address into a heap of its record, so that a
  dangling one is an address without an object; a \<open>std::map\<close> that is iterated is an ordered
  association list, one that is only looked up a function to options. A \<open>throw\<close> is \<open>Inl\<close> of the
  exception, which handlers catch by the classes of the source; \<open>undefined_behaviour\<close> is an exception
  no handler catches.

  \<^bold>\<open>Interfaces.\<close> The locales state contracts between components and are interpreted on the code's own
  definitions: \<open>table_invariant\<close> and \<open>request_invariant\<close> (what every operation, and every request, keeps
  of the tables: their constraints, the log, the exclusion of banned users), \<open>membership_store\<close>,
  \<open>update_queues\<close> and \<open>session_table\<close> (what the handlers need of the server's state), \<open>string_dict\<close> (the
  insertion-ordered map behind \<open>ini.h\<close>), \<open>line_history\<close> (the consoles of server and client).

  \<^bold>\<open>Loops and bounds.\<close> Loops with a decreasing quantity are total functions. Those that depend on the
  other end (\<open>SendRequestList\<close>, \<open>ListenHandshake\<close>, the retry of a connection, polling, the console's
  loop) are partial, with \<open>None\<close> for not returning; C6, C31, C35, C36 and C40 prove that they return.
  Machine integers have their width; SQLite's ids are integers that wrap into the structs' 32 bits,
  and theorems that need it assume that the sequences are below \<open>2 ^ 32\<close>. No fuel is used.

  \<^bold>\<open>What is assumed of other code.\<close> \<open>DbEnv_ok\<close>: SQLite returns the rows of a query, in some order.
  \<open>tcp_ok\<close>, \<open>flowing\<close>: a socket carries bytes in order, in pieces of its choice. \<open>std::hash\<close> is any function.
  \<open>x25519_ok\<close>, \<open>hkdf_ok\<close>, \<open>gcm_ok\<close>: the documented behaviour of the OpenSSL calls. Each has an instance
  that the witnesses use.

  What \<open>sqlite3_open\<close> finds, the outcomes of \<open>tcgetattr\<close> and \<open>tcsetattr\<close>, of writing a file and of reading
  a clock are parameters as well.

  \<^bold>\<open>Not modelled.\<close> Lua, its type registrations and the addons themselves; drawing (the body of the
  client's is commented out in the source, and the redrawing of the server's prompt changes no state);
  the Windows branches of the sockets and of the client; the third-party libraries. Locks are not
  modelled: an operation that holds one is a step; \<open>Races\<close> and \<open>ServerMain\<close> treat the places where the
  code gives one up between steps that belong together. \<open>ServerProgram\<close> and \<open>ClientProgram\<close> are about
  the main thread; the threads it starts are those of \<open>ServerMain\<close> and \<open>Client\<close>.
\<close>

end
